(* ===== verification/Prelude.thy ===== *)
theory Prelude
  imports Main "HOL-Library.Sublist" "HOL-Library.AList"
begin

text \<open>
  Shared ground of the development: the exceptions the C++ code can raise, the width of the
  C++ type \<open>int\<close>, the collections of rewrite rules the component theories fill, and the
  generic facts on lists, association lists and states that more than one component uses.
\<close>

section \<open>Exceptions\<close>

text \<open>
  One constructor per kind of failure that leaves a function by a C++ exception.
  \<open>UndefinedBehaviour\<close> stands for the operations whose result the C++ standard does not
  define (signed overflow, division by zero); the model stops there, as no property of the
  code can be relied on from that point.
\<close>

datatype exn =
    JsonException
  | StdInvalidArgument
  | StdOutOfRange
  | PgUniqueViolation
  | PgForeignKeyViolation
  | PgCheckViolation
  | PgDataTruncation
  | PgSequenceLimit
  | PgConnectionFailure
  | MongoFailure
  | UndefinedBehaviour

type_synonym 'a result = "exn + 'a"

section \<open>The C++ type int\<close>

abbreviation INT_MAX :: int where
  "INT_MAX \<equiv> 2147483647"

abbreviation INT_MIN :: int where
  "INT_MIN \<equiv> -2147483648"

definition int_range :: "int \<Rightarrow> bool" where
  "int_range n \<longleftrightarrow> INT_MIN \<le> n \<and> n \<le> INT_MAX"

section \<open>Collections of rules\<close>

named_theorems sql_defs "the statements of the storage, unfolded"
named_theorems storage_defs "the operations of the storage, unfolded"
named_theorems handler_defs "the request handlers, unfolded"
named_theorems frame_simps "components of the state that an operation leaves alone"

section \<open>Lists\<close>

lemma filter_singleton_if:
  assumes "distinct (map f xs)" and "x \<in> set xs"
  shows "filter (\<lambda>y. f y = f x) xs = [x]"
  using assms
proof (induction xs)
  case Nil
  then show ?case by simp
next
  case (Cons a xs)
  show ?case
  proof (cases "a = x")
    case True
    with Cons.prems have "\<forall>y\<in>set xs. f y \<noteq> f x" by (auto simp: image_iff)
    then have "filter (\<lambda>y. f y = f x) xs = []" by (simp add: filter_empty_conv)
    with True show ?thesis by simp
  next
    case False
    with Cons.prems have "x \<in> set xs" by simp
    with Cons.prems have "f a \<noteq> f x" by force
    with Cons \<open>x \<in> set xs\<close> show ?thesis by simp
  qed
qed

lemma filter_key_cases:
  assumes "distinct (map f xs)"
  shows "filter (\<lambda>y. f y = k) xs = [] \<or> (\<exists>x\<in>set xs. f x = k \<and> filter (\<lambda>y. f y = k) xs = [x])"
proof (cases "\<exists>x\<in>set xs. f x = k")
  case True
  then obtain x where x: "x \<in> set xs" "f x = k" by blast
  with filter_singleton_if [OF assms] show ?thesis by blast
next
  case False
  then show ?thesis by (auto simp: filter_empty_conv)
qed

lemma distinct_map_keyD:
  "distinct (map f xs) \<Longrightarrow> x \<in> set xs \<Longrightarrow> y \<in> set xs \<Longrightarrow> f x = f y \<Longrightarrow> x = y"
  by (auto simp: distinct_map dest: inj_onD)

text \<open>An update of every row that satisfies a condition leaves an untouched column alone.\<close>

lemma map_if_column:
  "(\<And>x. f (g x) = f x) \<Longrightarrow> map (f \<circ> (\<lambda>x. if P x then g x else x)) xs = map f xs"
  by simp

lemma image_map_if:
  "(\<And>x. f (g x) = f x) \<Longrightarrow> f ` set (map (\<lambda>x. if P x then g x else x) xs) = f ` set xs"
  by (induction xs) auto

lemma map_if_id:
  "(\<And>x. x \<in> set xs \<Longrightarrow> \<not> P x) \<Longrightarrow> map (\<lambda>x. if P x then g x else x) xs = xs"
  by (induction xs) auto

lemma set_map_if:
  "set (map (\<lambda>x. if P x then g x else x) xs) = {x \<in> set xs. \<not> P x} \<union> g ` {x \<in> set xs. P x}"
  by auto

lemma find_key_distinct:
  "distinct (map f xs) \<Longrightarrow> find (\<lambda>x. f x = k) xs = Some x \<longleftrightarrow> x \<in> set xs \<and> f x = k"
  by (induction xs) (auto simp: image_iff)

lemma find_key_None: "find (\<lambda>x. f x = k) xs = None \<longleftrightarrow> k \<notin> f ` set xs"
  by (auto simp: find_None_iff)

text \<open>An update of the rows with key \<open>k0\<close>, seen through a lookup by key.\<close>

lemma find_map_key:
  assumes "\<And>x. f (g x) = f x"
  shows "find (\<lambda>x. f x = k) (map (\<lambda>x. if f x = k0 \<and> Q x then g x else x) xs) =
    (if k = k0 then map_option (\<lambda>x. if Q x then g x else x) (find (\<lambda>x. f x = k) xs)
     else find (\<lambda>x. f x = k) xs)"
  using assms by (induction xs) auto

lemma find_append: "find P (xs @ ys) = (case find P xs of None \<Rightarrow> find P ys | Some x \<Rightarrow> Some x)"
  by (induction xs) auto

lemma filter_key_find:
  "distinct (map f xs) \<Longrightarrow>
   filter (\<lambda>x. f x = k) xs = (case find (\<lambda>x. f x = k) xs of None \<Rightarrow> [] | Some x \<Rightarrow> [x])"
proof (induction xs)
  case Nil
  then show ?case by simp
next
  case (Cons a xs)
  show ?case
  proof (cases "f a = k")
    case True
    with Cons.prems have "filter (\<lambda>x. f x = k) xs = []"
      by (auto simp: filter_empty_conv image_iff)
    with True show ?thesis by simp
  next
    case False
    with Cons show ?thesis by simp
  qed
qed

lemma prefix_append_drop: "prefix p s \<Longrightarrow> p @ drop (length p) s = s"
  by (auto elim: prefixE)

section \<open>Association lists\<close>

lemma map_of_filter_key:
  "map_of (filter (\<lambda>kv. P (fst kv)) xs) k = (if P k then map_of xs k else None)"
  by (induction xs) auto

lemma distinct_map_fst_filter:
  "distinct (map fst xs) \<Longrightarrow> distinct (map fst (filter P xs))"
  by (induction xs) auto

lemma map_of_eq_Some_distinct:
  "distinct (map fst xs) \<Longrightarrow> map_of xs k = Some v \<longleftrightarrow> (k, v) \<in> set xs"
  by simp

end
