(* ===== verification/CacheAside.thy ===== *)
theory CacheAside
  imports Prelude
begin

text \<open>
  The interface the request handlers rely on when they put a cache in front of the database,
  and the reasoning about the cache-aside pattern over it. \<open>fresh\<close> stands for what the
  database says the body for a key is; a cache is coherent from a time on when every entry
  that is still alive then holds that body.
\<close>

definition coherent_from :: "(int \<Rightarrow> 'c \<Rightarrow> string \<Rightarrow> string option) \<Rightarrow> int \<Rightarrow>
    (string \<Rightarrow> string option) \<Rightarrow> 'c \<Rightarrow> bool" where
  "coherent_from live t fresh c \<longleftrightarrow> (\<forall>k v. live t c k = Some v \<longrightarrow> fresh k = Some v)"

text \<open>One second in the ticks of the clock.\<close>

abbreviation SECOND :: int where
  "SECOND \<equiv> 1000000000"

text \<open>
  \<open>live t c k\<close> is the body the cache holds for \<open>k\<close> at time \<open>t\<close>, if it has not expired.
  A lookup answers with it and does not change it for later times; an insertion makes its body
  live until the time to live is over; an invalidation removes the keys with a prefix.
\<close>

locale response_store =
  fixes get :: "int \<Rightarrow> string \<Rightarrow> 'c \<Rightarrow> string option \<times> 'c"
    and put :: "int \<Rightarrow> string \<Rightarrow> string \<Rightarrow> int \<Rightarrow> 'c \<Rightarrow> 'c"
    and invalidate :: "string \<Rightarrow> 'c \<Rightarrow> 'c"
    and live :: "int \<Rightarrow> 'c \<Rightarrow> string \<Rightarrow> string option"
    and wf :: "'c \<Rightarrow> bool"
  assumes get_value: "wf c \<Longrightarrow> fst (get now k c) = live now c k"
    and get_live: "wf c \<Longrightarrow> live t (snd (get now k c)) k' = Some v \<Longrightarrow> live t c k' = Some v"
    and get_keeps: "wf c \<Longrightarrow> now \<le> t \<Longrightarrow> live t (snd (get now k c)) = live t c"
    and put_live: "wf c \<Longrightarrow>
      live t (put now k v ttl c) = (live t c)(k := if t < now + ttl * SECOND then Some v else None)"
    and invalidate_live: "wf c \<Longrightarrow> live t (invalidate p c) k = (if prefix p k then None else live t c k)"
    and live_antimono: "t \<le> t' \<Longrightarrow> live t' c k = Some v \<Longrightarrow> live t c k = Some v"
    and get_wf: "wf c \<Longrightarrow> wf (snd (get now k c))"
    and put_wf: "wf c \<Longrightarrow> wf (put now k v ttl c)"
    and invalidate_wf: "wf c \<Longrightarrow> wf (invalidate p c)"
begin

lemma hit_is_fresh:
  assumes "wf c" and "coherent_from live t fresh c" and "t \<le> now" and "fst (get now k c) = Some v"
  shows "fresh k = Some v"
proof -
  from assms(1,4) have "live now c k = Some v" by (simp add: get_value)
  with assms(3) have "live t c k = Some v" by (rule live_antimono)
  with assms(2) show ?thesis by (auto simp: coherent_from_def)
qed

lemma coherent_later:
  assumes "coherent_from live t fresh c" and "t \<le> t'"
  shows "coherent_from live t' fresh c"
  using assms live_antimono [OF assms(2)] unfolding coherent_from_def by blast

lemma coherent_get:
  "wf c \<Longrightarrow> coherent_from live t fresh c \<Longrightarrow> coherent_from live t fresh (snd (get now k c))"
  unfolding coherent_from_def by (blast dest: get_live)

lemma coherent_put:
  "wf c \<Longrightarrow> coherent_from live t fresh c \<Longrightarrow> fresh k = Some v \<Longrightarrow>
   coherent_from live t fresh (put now k v ttl c)"
  by (auto simp: coherent_from_def put_live split: if_splits)

text \<open>
  The write side: once the keys with the prefix are gone, the cache is coherent with any
  contents of the database that agree on the other keys.
\<close>

lemma coherent_invalidate:
  assumes "wf c" and "coherent_from live t fresh c"
    and "\<And>k. \<not> prefix p k \<Longrightarrow> fresh' k = fresh k"
  shows "coherent_from live t fresh' (invalidate p c)"
  using assms by (auto simp: coherent_from_def invalidate_live split: if_splits)

text \<open>After an insertion the lookup of the same key hits until the time to live is over.\<close>

lemma get_after_put:
  "wf c \<Longrightarrow> fst (get t k (put now k v ttl c)) = (if t < now + ttl * SECOND then Some v else None)"
  by (simp add: get_value put_wf put_live)

lemma get_after_invalidate:
  "wf c \<Longrightarrow> prefix p k \<Longrightarrow> fst (get t k (invalidate p c)) = None"
  by (simp add: get_value invalidate_wf invalidate_live)

end

end
