(* ===== verification/CppStd.thy ===== *)
theory CppStd
  imports Prelude
begin

text \<open>
  The operations of the C++ standard library that the service calls: \<open>std::to_string\<close> and
  \<open>std::stoi\<close> on \<open>int\<close>, \<open>std::string::rfind\<close>, \<open>compare\<close> and \<open>substr\<close>. A
  \<open>std::string\<close> is a list of bytes. The lemmas give the round trip between printing and
  parsing, the injectivity of printing, and what the prefix test by \<open>rfind\<close> decides.
\<close>

section \<open>Decimal digits\<close>

definition digit_char :: "nat \<Rightarrow> char" where
  "digit_char n = char_of (48 + n)"

definition is_digit :: "char \<Rightarrow> bool" where
  "is_digit c \<longleftrightarrow> 48 \<le> (of_char c :: nat) \<and> (of_char c :: nat) \<le> 57"

definition digit_value :: "char \<Rightarrow> nat" where
  "digit_value c = (of_char c :: nat) - 48"

fun nat_to_string :: "nat \<Rightarrow> string" where
  "nat_to_string n =
     (if n < 10 then [digit_char n] else nat_to_string (n div 10) @ [digit_char (n mod 10)])"

declare nat_to_string.simps [simp del]

text \<open>\<open>std::to_string\<close> on a signed integer.\<close>

definition std_to_string :: "int \<Rightarrow> string" where
  "std_to_string i = (if i < 0 then CHR ''-'' # nat_to_string (nat (- i)) else nat_to_string (nat i))"

definition digits_value :: "string \<Rightarrow> nat" where
  "digits_value ds = foldl (\<lambda>acc c. acc * 10 + digit_value c) 0 ds"

lemma of_char_digit_char: "n < 10 \<Longrightarrow> (of_char (digit_char n) :: nat) = 48 + n"
  by (simp add: digit_char_def)

lemma is_digit_digit_char [simp]: "n < 10 \<Longrightarrow> is_digit (digit_char n)"
  by (simp add: is_digit_def of_char_digit_char)

lemma digit_value_digit_char [simp]: "n < 10 \<Longrightarrow> digit_value (digit_char n) = n"
  by (simp add: digit_value_def of_char_digit_char)

lemma not_is_digit_minus [simp]: "\<not> is_digit (CHR ''-'')"
  by (simp add: is_digit_def)

lemma not_is_digit_plus [simp]: "\<not> is_digit (CHR ''+'')"
  by (simp add: is_digit_def)

lemma nat_to_string_digits: "\<forall>c\<in>set (nat_to_string n). is_digit c"
proof (induction n rule: nat_to_string.induct)
  case (1 n)
  then show ?case
    by (subst nat_to_string.simps) auto
qed

lemma nat_to_string_nonempty [simp]: "nat_to_string n \<noteq> []"
  by (subst nat_to_string.simps) simp

lemma digits_value_snoc: "digits_value (ds @ [c]) = digits_value ds * 10 + digit_value c"
  by (simp add: digits_value_def)

lemma digits_value_nat_to_string: "digits_value (nat_to_string n) = n"
proof (induction n rule: nat_to_string.induct)
  case (1 n)
  show ?case
  proof (cases "n < 10")
    case True
    then show ?thesis
      by (subst nat_to_string.simps) (simp add: digits_value_def)
  next
    case False
    with 1 have IH: "digits_value (nat_to_string (n div 10)) = n div 10" by simp
    from False show ?thesis
      by (subst nat_to_string.simps) (simp add: digits_value_snoc IH)
  qed
qed

section \<open>std::stoi\<close>

definition is_space :: "char \<Rightarrow> bool" where
  "is_space c \<longleftrightarrow> (of_char c :: nat) = 32 \<or> (9 \<le> (of_char c :: nat) \<and> (of_char c :: nat) \<le> 13)"

text \<open>
  \<open>strtol\<close> in base ten: white space is skipped, one sign is accepted, then the longest run
  of digits is read and the rest of the string is ignored.
\<close>

definition split_sign :: "string \<Rightarrow> bool \<times> string" where
  "split_sign s =
     (case s of
        [] \<Rightarrow> (False, [])
      | c # cs \<Rightarrow>
          if c = CHR ''-'' then (True, cs)
          else if c = CHR ''+'' then (False, cs)
          else (False, s))"

definition parse_int :: "string \<Rightarrow> int option" where
  "parse_int s =
     (let (neg, t) = split_sign (dropWhile is_space s);
          ds = takeWhile is_digit t
      in if ds = [] then None
         else Some (if neg then - int (digits_value ds) else int (digits_value ds)))"

definition stoi :: "string \<Rightarrow> int result" where
  "stoi s =
     (case parse_int s of
        None \<Rightarrow> Inl StdInvalidArgument
      | Some n \<Rightarrow> if int_range n then Inr n else Inl StdOutOfRange)"

lemma is_digit_not_space: "is_digit c \<Longrightarrow> \<not> is_space c"
  by (auto simp: is_digit_def is_space_def)

lemma not_is_space_minus [simp]: "\<not> is_space (CHR ''-'')"
  by (simp add: is_space_def)

lemma takeWhile_digits_append:
  assumes "\<forall>c\<in>set ds. is_digit c" and "rest = [] \<or> \<not> is_digit (hd rest)"
  shows "takeWhile is_digit (ds @ rest) = ds"
  using assms by (cases rest) (auto simp: takeWhile_append)

lemma nat_to_string_hd:
  "\<exists>c cs. nat_to_string n = c # cs \<and> is_digit c"
  using nat_to_string_digits [of n] by (cases "nat_to_string n") auto

text \<open>
  Printing an integer and parsing it again gives the integer back, whatever follows the
  digits, as long as it does not continue them.
\<close>

lemma parse_int_to_string_append:
  assumes rest: "rest = [] \<or> \<not> is_digit (hd rest)"
  shows "parse_int (std_to_string i @ rest) = Some i"
proof -
  let ?n = "nat (if i < 0 then - i else i)"
  obtain c cs where c: "nat_to_string ?n = c # cs" "is_digit c"
    using nat_to_string_hd by blast
  then have nosign: "c \<noteq> CHR ''-''" "c \<noteq> CHR ''+''" "\<not> is_space c"
    by (auto simp: is_digit_not_space)
  have take: "takeWhile is_digit (nat_to_string ?n @ rest) = nat_to_string ?n"
    using nat_to_string_digits rest by (rule takeWhile_digits_append)
  show ?thesis
  proof (cases "i < 0")
    case True
    with take show ?thesis
      by (simp add: parse_int_def std_to_string_def split_sign_def digits_value_nat_to_string)
  next
    case False
    have "dropWhile is_space (nat_to_string ?n @ rest) = nat_to_string ?n @ rest"
      using c nosign by simp
    moreover have "split_sign (nat_to_string ?n @ rest) = (False, nat_to_string ?n @ rest)"
      using c nosign by (simp add: split_sign_def)
    ultimately show ?thesis
      using False take by (simp add: parse_int_def std_to_string_def digits_value_nat_to_string)
  qed
qed

lemma stoi_to_string_append:
  "int_range i \<Longrightarrow> rest = [] \<or> \<not> is_digit (hd rest) \<Longrightarrow> stoi (std_to_string i @ rest) = Inr i"
  by (simp add: stoi_def parse_int_to_string_append)

lemma stoi_to_string: "int_range i \<Longrightarrow> stoi (std_to_string i) = Inr i"
  using stoi_to_string_append [of i "[]"] by simp

lemma stoi_range: "stoi s = Inr n \<Longrightarrow> int_range n"
  by (auto simp: stoi_def split: option.splits if_splits)

lemma std_to_string_inject: "std_to_string i = std_to_string j \<longleftrightarrow> i = j"
proof
  assume "std_to_string i = std_to_string j"
  then have "parse_int (std_to_string i @ []) = parse_int (std_to_string j @ [])" by (rule arg_cong)
  then show "i = j" by (simp only: parse_int_to_string_append simp_thms option.inject)
qed simp

text \<open>Two printed integers followed by a separator that is no digit can be told apart.\<close>

lemma std_to_string_append_inject:
  assumes "\<not> is_digit c"
  shows "std_to_string i @ c # xs = std_to_string j @ c # ys \<longleftrightarrow> i = j \<and> xs = ys"
proof
  assume eq: "std_to_string i @ c # xs = std_to_string j @ c # ys"
  have "parse_int (std_to_string i @ c # xs) = Some i" "parse_int (std_to_string j @ c # ys) = Some j"
    using assms by (simp_all add: parse_int_to_string_append)
  with eq have "i = j" by simp
  with eq show "i = j \<and> xs = ys" by simp
qed simp

section \<open>Operations on std::string\<close>

text \<open>
  \<open>s.rfind(p, pos)\<close>: the last position, at most \<open>pos\<close>, where \<open>p\<close> occurs in \<open>s\<close>;
  \<open>None\<close> for \<open>npos\<close>.
\<close>

definition occurs_at :: "string \<Rightarrow> string \<Rightarrow> nat \<Rightarrow> bool" where
  "occurs_at s p i \<longleftrightarrow> i + length p \<le> length s \<and> take (length p) (drop i s) = p"

definition rfind :: "string \<Rightarrow> string \<Rightarrow> nat \<Rightarrow> nat option" where
  "rfind s p pos = find (occurs_at s p) (rev [0..<Suc pos])"

text \<open>The test \<open>s.rfind(p, 0) == 0\<close> of the source decides whether \<open>p\<close> is a prefix.\<close>

lemma rfind_zero_prefix: "rfind s p 0 = Some 0 \<longleftrightarrow> prefix p s"
  by (auto simp: rfind_def occurs_at_def prefix_def take_is_prefix)
    (metis append_take_drop_id)

text \<open>\<open>s.compare(0, n, p) != 0\<close> on the first \<open>n\<close> bytes.\<close>

definition compare_prefix :: "string \<Rightarrow> nat \<Rightarrow> string \<Rightarrow> bool" where
  "compare_prefix s n p \<longleftrightarrow> take n s = p"

definition substr_from :: "string \<Rightarrow> nat \<Rightarrow> string" where
  "substr_from s n = drop n s"

end
