(* ===== verification/ResponseCache.thy ===== *)
theory ResponseCache
  imports CacheAside CppStd "HOL-Library.Word" Complex_Main
begin

text \<open>
  The class \<open>ResponseCache\<close> of \<open>src/src/performance/simple_performance.hpp\<close>: a map from keys
  to bodies with a time of expiry, and two 64-bit counters. Times are ticks of the steady clock,
  a nanosecond each. Every method runs under one mutex, so it is one step on the state.
\<close>

section \<open>State and operations\<close>

record entry =
  entry_value :: string
  entry_expires_at :: int

record response_cache =
  entries :: "(string \<times> entry) list"
  hits :: "64 word"
  misses :: "64 word"

definition ResponseCache_init :: response_cache where
  "ResponseCache_init = \<lparr>entries = [], hits = 0, misses = 0\<rparr>"

definition CacheGet :: "int \<Rightarrow> string \<Rightarrow> response_cache \<Rightarrow> string option \<times> response_cache" where
  "CacheGet now key c =
     (case map_of (entries c) key of
        None \<Rightarrow> (None, c\<lparr>misses := misses c + 1\<rparr>)
      | Some e \<Rightarrow>
          if entry_expires_at e \<le> now
          then (None, c\<lparr>entries := AList.delete key (entries c), misses := misses c + 1\<rparr>)
          else (Some (entry_value e), c\<lparr>hits := hits c + 1\<rparr>))"

definition CacheSet :: "int \<Rightarrow> string \<Rightarrow> string \<Rightarrow> int \<Rightarrow> response_cache \<Rightarrow> response_cache" where
  "CacheSet now key value ttl c =
     (let expires_at = now + ttl * SECOND
      in c\<lparr>entries := AList.update key \<lparr>entry_value = value, entry_expires_at = expires_at\<rparr> (entries c)\<rparr>)"

text \<open>The loop over the map that erases the keys starting with the prefix.\<close>

fun erase_prefix :: "string \<Rightarrow> (string \<times> entry) list \<Rightarrow> (string \<times> entry) list" where
  "erase_prefix p [] = []"
| "erase_prefix p (it # rest) =
     (if rfind (fst it) p 0 = Some 0 then erase_prefix p rest else it # erase_prefix p rest)"

definition InvalidatePrefix :: "string \<Rightarrow> response_cache \<Rightarrow> response_cache" where
  "InvalidatePrefix p c = c\<lparr>entries := erase_prefix p (entries c)\<rparr>"

record stats =
  stats_hits :: "64 word"
  stats_misses :: "64 word"
  stats_entries :: "64 word"

definition GetStats :: "response_cache \<Rightarrow> stats" where
  "GetStats c =
     \<lparr>stats_hits = hits c, stats_misses = misses c, stats_entries = of_nat (length (entries c))\<rparr>"

text \<open>
  \<open>HitRate\<close> converts the counters to \<open>double\<close> and divides. Both operations of the hardware
  round their exact result; \<open>rnd\<close> is that rounding.
\<close>

definition HitRate :: "(real \<Rightarrow> real) \<Rightarrow> stats \<Rightarrow> real" where
  "HitRate rnd s =
     (let total = stats_hits s + stats_misses s
      in if total = 0 then 0
         else rnd (rnd (real (unat (stats_hits s))) / rnd (real (unat total))))"

section \<open>Well-formed caches\<close>

definition cache_wf :: "response_cache \<Rightarrow> bool" where
  "cache_wf c \<longleftrightarrow> distinct (map fst (entries c))"

definition live_body :: "int \<Rightarrow> response_cache \<Rightarrow> string \<Rightarrow> string option" where
  "live_body t c k =
     (case map_of (entries c) k of
        None \<Rightarrow> None
      | Some e \<Rightarrow> if entry_expires_at e \<le> t then None else Some (entry_value e))"

lemma cache_wf_init: "cache_wf ResponseCache_init"
  by (simp add: cache_wf_def ResponseCache_init_def)

lemma live_body_init [simp]: "live_body t ResponseCache_init k = None"
  by (simp add: live_body_def ResponseCache_init_def)

lemma erase_prefix_filter: "erase_prefix p xs = filter (\<lambda>kv. \<not> prefix p (fst kv)) xs"
  by (induction xs) (simp_all add: rfind_zero_prefix)

lemma map_of_erase_prefix:
  "map_of (erase_prefix p xs) k = (if prefix p k then None else map_of xs k)"
  using map_of_filter_key [of "\<lambda>k. \<not> prefix p k" xs k] by (simp add: erase_prefix_filter)

lemma live_body_cong: "entries c' = entries c \<Longrightarrow> live_body t c' = live_body t c"
  by (simp add: live_body_def fun_eq_iff)

lemma CacheGet_live:
  assumes "live_body t (snd (CacheGet now k c)) k' = Some v"
  shows "live_body t c k' = Some v"
  using assms
  by (auto simp: CacheGet_def live_body_def delete_conv' split: option.splits if_splits)

lemma CacheGet_keeps:
  assumes "now \<le> t"
  shows "live_body t (snd (CacheGet now k c)) = live_body t c"
  using assms
  by (auto simp: CacheGet_def live_body_def delete_conv' fun_eq_iff split: option.split)

lemma CacheSet_live:
  "live_body t (CacheSet now k v ttl c) = (live_body t c)(k := if t < now + ttl * SECOND then Some v else None)"
  by (auto simp: CacheSet_def live_body_def update_conv' fun_eq_iff)

interpretation rc: response_store CacheGet CacheSet InvalidatePrefix live_body cache_wf
proof unfold_locales
  fix c now k
  show "fst (CacheGet now k c) = live_body now c k"
    by (simp add: CacheGet_def live_body_def split: option.split)
next
  fix c t now k k' v
  show "live_body t (snd (CacheGet now k c)) k' = Some v \<Longrightarrow> live_body t c k' = Some v"
    by (rule CacheGet_live)
next
  fix c :: response_cache and now t k
  show "now \<le> t \<Longrightarrow> live_body t (snd (CacheGet now k c)) = live_body t c"
    by (rule CacheGet_keeps)
next
  fix c t now k v ttl
  show "live_body t (CacheSet now k v ttl c) =
      (live_body t c)(k := if t < now + ttl * SECOND then Some v else None)"
    by (rule CacheSet_live)
next
  fix c t p k
  show "live_body t (InvalidatePrefix p c) k = (if prefix p k then None else live_body t c k)"
    by (simp add: InvalidatePrefix_def live_body_def map_of_erase_prefix)
next
  fix t t' c k v
  show "t \<le> t' \<Longrightarrow> live_body t' c k = Some v \<Longrightarrow> live_body t c k = Some v"
    by (auto simp: live_body_def split: option.splits if_splits)
next
  fix c now k
  show "cache_wf c \<Longrightarrow> cache_wf (snd (CacheGet now k c))"
    by (auto simp: CacheGet_def cache_wf_def distinct_delete split: option.split)
next
  fix c now k v ttl
  show "cache_wf c \<Longrightarrow> cache_wf (CacheSet now k v ttl c)"
    by (simp add: CacheSet_def cache_wf_def distinct_update)
next
  fix c p
  show "cache_wf c \<Longrightarrow> cache_wf (InvalidatePrefix p c)"
    by (simp add: InvalidatePrefix_def cache_wf_def erase_prefix_filter distinct_map_fst_filter)
qed

end
