(* ===== verification/WindowLimit.thy ===== *)
theory WindowLimit
  imports Prelude
begin

text \<open>
  The contract of a fixed-window counter, and what follows from it for a whole sequence of
  requests: a window admits exactly its quota, and never more, as long as the clock does not
  go back.
\<close>

locale window_limiter =
  fixes admit :: "int \<Rightarrow> 'l \<Rightarrow> bool \<times> 'l"
    and window_of :: "int \<Rightarrow> int"
    and current :: "'l \<Rightarrow> int"
    and used :: "'l \<Rightarrow> int"
    and quota :: int
  assumes window_mono: "0 \<le> t \<Longrightarrow> t \<le> t' \<Longrightarrow> window_of t \<le> window_of t'"
    and window_nonneg: "0 \<le> t \<Longrightarrow> 0 \<le> window_of t"
    and admit_current: "current (snd (admit t l)) = window_of t"
    and admit_same: "current l = window_of t \<Longrightarrow>
      fst (admit t l) = (used l < quota) \<and> used (snd (admit t l)) = (if used l < quota then used l + 1 else used l)"
    and admit_new: "current l \<noteq> window_of t \<Longrightarrow>
      fst (admit t l) = (0 < quota) \<and> used (snd (admit t l)) = (if 0 < quota then 1 else 0)"
begin

fun admissions :: "int list \<Rightarrow> 'l \<Rightarrow> bool list" where
  "admissions [] l = []"
| "admissions (t # ts) l = fst (admit t l) # admissions ts (snd (admit t l))"

lemma length_admissions [simp]: "length (admissions ts l) = length ts"
  by (induction ts arbitrary: l) simp_all

text \<open>Inside one window the answers are yes until the quota is used up, then no.\<close>

lemma admissions_same_window:
  assumes "current l = w" and "\<forall>t\<in>set ts. window_of t = w" and "i < length ts"
  shows "admissions ts l ! i \<longleftrightarrow> used l + int i < quota"
  using assms
proof (induction ts arbitrary: l i)
  case Nil
  then show ?case by simp
next
  case (Cons t ts)
  from Cons.prems have same: "current l = window_of t" by simp
  show ?case
  proof (cases i)
    case 0
    with same admit_same show ?thesis by simp
  next
    case (Suc j)
    have "admissions ts (snd (admit t l)) ! j \<longleftrightarrow> used (snd (admit t l)) + int j < quota"
      using Cons.prems Suc by (intro Cons.IH) (simp_all add: admit_current)
    with Suc admit_same [OF same] show ?thesis by auto
  qed
qed

lemma admissions_new_window:
  assumes "current l \<noteq> w" and "\<forall>t\<in>set ts. window_of t = w" and "i < length ts"
  shows "admissions ts l ! i \<longleftrightarrow> int i < quota"
proof (cases ts)
  case Nil
  with assms show ?thesis by simp
next
  case (Cons t us)
  with assms have new: "current l \<noteq> window_of t" and w: "window_of t = w" by simp_all
  show ?thesis
  proof (cases i)
    case 0
    with Cons admit_new [OF new] show ?thesis by simp
  next
    case (Suc j)
    have u: "admissions us (snd (admit t l)) ! j \<longleftrightarrow> used (snd (admit t l)) + int j < quota"
    proof (rule admissions_same_window)
      show "current (snd (admit t l)) = w" by (simp add: admit_current w)
    qed (use assms Cons Suc in simp_all)
    with Cons Suc admit_new [OF new] show ?thesis by auto
  qed
qed

text \<open>The state after a run is that of its last window.\<close>

fun after_run :: "int list \<Rightarrow> 'l \<Rightarrow> 'l" where
  "after_run [] l = l"
| "after_run (t # ts) l = after_run ts (snd (admit t l))"

lemma admissions_append: "admissions (ts @ us) l = admissions ts l @ admissions us (after_run ts l)"
  by (induction ts arbitrary: l) simp_all

lemma current_after_run:
  "current (after_run ts l) = (if ts = [] then current l else window_of (last ts))"
  by (induction ts arbitrary: l) (simp_all add: admit_current)

lemma refused_in_window:
  assumes "current l \<noteq> w" and "\<forall>t\<in>set ts. window_of t = w" and "0 \<le> quota"
  shows "False \<in> set (admissions ts l) \<longleftrightarrow> quota < int (length ts)"
proof
  assume "False \<in> set (admissions ts l)"
  then obtain i where "i < length ts" "\<not> admissions ts l ! i" by (auto simp: in_set_conv_nth)
  with admissions_new_window [OF assms(1,2), of i] show "quota < int (length ts)" by simp
next
  assume long: "quota < int (length ts)"
  with assms(3) have i: "nat quota < length ts" by simp
  with admissions_new_window [OF assms(1,2) i] assms(3) have "\<not> admissions ts l ! nat quota" by simp
  with i show "False \<in> set (admissions ts l)" by (metis (full_types) length_admissions nth_mem)
qed

text \<open>The number of requests of a window that are admitted in a run.\<close>

fun admitted_in :: "int \<Rightarrow> int list \<Rightarrow> 'l \<Rightarrow> nat" where
  "admitted_in w [] l = 0"
| "admitted_in w (t # ts) l =
     (if window_of t = w \<and> fst (admit t l) then 1 else 0) + admitted_in w ts (snd (admit t l))"

lemma admitted_in_filter:
  "admitted_in w ts l = length (filter (\<lambda>(t, ok). window_of t = w \<and> ok) (zip ts (admissions ts l)))"
  by (induction ts arbitrary: l) simp_all

lemma admitted_in_bound:
  assumes "sorted ts" and "\<forall>t\<in>set ts. 0 \<le> t \<and> current l \<le> window_of t"
    and "used l \<le> quota" and "0 \<le> quota"
  shows "int (admitted_in w ts l) \<le> (if current l = w then quota - used l else if current l < w then quota else 0)"
  using assms
proof (induction ts arbitrary: l)
  case Nil
  then show ?case by simp
next
  case (Cons t ts)
  let ?l = "snd (admit t l)"
  from Cons.prems have t: "0 \<le> t" "current l \<le> window_of t" by simp_all
  have later: "\<forall>u\<in>set ts. 0 \<le> u \<and> current ?l \<le> window_of u"
    using Cons.prems t by (auto simp: admit_current intro: window_mono)
  show ?case
  proof (cases "current l = window_of t")
    case True
    note step = admit_same [OF True]
    have "used ?l \<le> quota" using step Cons.prems(3) by simp
    with Cons.IH [of ?l] later Cons.prems(1,4)
    have "int (admitted_in w ts ?l) \<le> (if window_of t = w then quota - used ?l else if window_of t < w then quota else 0)"
      by (simp add: admit_current split: if_splits)
    with True step Cons.prems(3,4) show ?thesis by (auto split: if_splits)
  next
    case False
    note step = admit_new [OF False]
    have "used ?l \<le> quota" using step Cons.prems(4) by simp
    with Cons.IH [of ?l] later Cons.prems(1,4)
    have "int (admitted_in w ts ?l) \<le> (if window_of t = w then quota - used ?l else if window_of t < w then quota else 0)"
      by (simp add: admit_current split: if_splits)
    with False t step Cons.prems(3,4) show ?thesis by (auto split: if_splits)
  qed
qed

corollary admitted_in_quota:
  assumes "sorted ts" and "\<forall>t\<in>set ts. 0 \<le> t" and "current l = 0" and "used l = 0"
    and "0 \<le> quota"
  shows "int (admitted_in w ts l) \<le> quota"
  using admitted_in_bound [of ts l w] assms by (auto simp: window_nonneg split: if_splits)

end

end
