(* ===== verification/RateLimiter.thy ===== *)
theory RateLimiter
  imports WindowLimit "HOL-Library.Signed_Division"
begin

text \<open>
  The class \<open>FixedWindowRateLimiter\<close> of \<open>src/src/performance/simple_performance.hpp\<close>. The
  time of a call is the system clock in nanoseconds since the epoch; \<open>duration_cast\<close> and \<open>/\<close>
  round towards zero. The method runs under one mutex, so it is one step on the state.
\<close>

section \<open>State and operation\<close>

record rate_limit_result =
  allowed :: bool
  limit :: int
  remaining :: int
  reset_epoch_seconds :: int

record bucket =
  window_start :: int
  bucket_count :: int

record rate_limiter =
  buckets :: "string \<rightharpoonup> bucket"

definition Bucket_init :: bucket where
  "Bucket_init = \<lparr>window_start = 0, bucket_count = 0\<rparr>"

definition RateLimiter_init :: rate_limiter where
  "RateLimiter_init = \<lparr>buckets = Map.empty\<rparr>"

definition now_seconds :: "int \<Rightarrow> int" where
  "now_seconds now = now sdiv 1000000000"

definition window_start_at :: "int \<Rightarrow> int \<Rightarrow> int" where
  "window_start_at now window = (now_seconds now sdiv window) * window"

text \<open>\<open>buckets_[key]\<close> inserts a default bucket when the key is new.\<close>

definition bucket_of :: "rate_limiter \<Rightarrow> string \<Rightarrow> bucket" where
  "bucket_of lim key = (case buckets lim key of None \<Rightarrow> Bucket_init | Some b \<Rightarrow> b)"

text \<open>Dividing by a window of zero seconds has no defined result.\<close>

definition Check :: "int \<Rightarrow> string \<Rightarrow> int \<Rightarrow> int \<Rightarrow> rate_limiter \<Rightarrow> rate_limit_result result \<times> rate_limiter" where
  "Check now key lmt window lim =
     (if window = 0 then (Inl UndefinedBehaviour, lim)
      else
        (let start = window_start_at now window;
             reset_at = start + window;
             b0 = bucket_of lim key;
             b1 = (if window_start b0 \<noteq> start then \<lparr>window_start = start, bucket_count = 0\<rparr> else b0)
         in if bucket_count b1 \<ge> lmt
            then (Inr \<lparr>allowed = False, limit = lmt, remaining = 0, reset_epoch_seconds = reset_at\<rparr>,
                  lim\<lparr>buckets := (buckets lim)(key \<mapsto> b1)\<rparr>)
            else (let b2 = b1\<lparr>bucket_count := bucket_count b1 + 1\<rparr>
                  in (Inr \<lparr>allowed = True, limit = lmt, remaining = lmt - bucket_count b2,
                           reset_epoch_seconds = reset_at\<rparr>,
                      lim\<lparr>buckets := (buckets lim)(key \<mapsto> b2)\<rparr>))))"

section \<open>Time and windows\<close>

lemma sdiv_nonneg: "0 \<le> (a::int) \<Longrightarrow> 0 < b \<Longrightarrow> a sdiv b = a div b"
  by (cases "a = 0") (simp_all add: signed_divide_int_def)

lemma now_seconds_nonneg [simp]: "0 \<le> now \<Longrightarrow> 0 \<le> now_seconds now"
  by (simp add: now_seconds_def sdiv_nonneg)

lemma now_seconds_mono: "0 \<le> t \<Longrightarrow> t \<le> t' \<Longrightarrow> now_seconds t \<le> now_seconds t'"
  by (simp add: now_seconds_def sdiv_nonneg zdiv_mono1)

lemma window_start_div:
  "0 \<le> now \<Longrightarrow> 0 < w \<Longrightarrow> window_start_at now w = (now_seconds now div w) * w"
  by (simp add: window_start_at_def sdiv_nonneg)

lemma window_start_bounds:
  assumes "0 \<le> now" "0 < w"
  shows "window_start_at now w \<le> now_seconds now" "now_seconds now < window_start_at now w + w"
    "0 \<le> window_start_at now w"
proof -
  have eq: "now_seconds now div w * w + now_seconds now mod w = now_seconds now" by simp
  have "0 \<le> now_seconds now mod w" "now_seconds now mod w < w" using assms(2) by simp_all
  with eq show "window_start_at now w \<le> now_seconds now" "now_seconds now < window_start_at now w + w"
    unfolding window_start_div [OF assms] by linarith+
  show "0 \<le> window_start_at now w"
    using assms by (simp add: window_start_div pos_imp_zdiv_nonneg_iff)
qed

lemma window_start_mono:
  assumes "0 \<le> t" "t \<le> t'" "0 < w"
  shows "window_start_at t w \<le> window_start_at t' w"
  using assms now_seconds_mono [OF assms(1,2)]
  by (simp add: window_start_div zdiv_mono1 mult_right_mono)

section \<open>The contract\<close>

text \<open>One key of the limiter with a fixed limit and a window of sixty seconds, as the service uses it.\<close>

definition admit_key :: "string \<Rightarrow> int \<Rightarrow> int \<Rightarrow> rate_limiter \<Rightarrow> bool \<times> rate_limiter" where
  "admit_key key quota now lim =
     (case Check now key quota 60 lim of
        (Inl e, lim') \<Rightarrow> (False, lim')
      | (Inr r, lim') \<Rightarrow> (allowed r, lim'))"

lemma bucket_of_upd [simp]:
  "bucket_of (lim\<lparr>buckets := (buckets lim)(key \<mapsto> b)\<rparr>) key' = (if key' = key then b else bucket_of lim key')"
  by (simp add: bucket_of_def)

interpretation key_limit: window_limiter "admit_key key quota" "\<lambda>t. window_start_at t 60"
  "\<lambda>lim. window_start (bucket_of lim key)" "\<lambda>lim. bucket_count (bucket_of lim key)" quota
  for key :: string and quota :: int
proof unfold_locales
  fix t t' :: int
  show "0 \<le> t \<Longrightarrow> t \<le> t' \<Longrightarrow> window_start_at t 60 \<le> window_start_at t' 60"
    by (rule window_start_mono) simp_all
next
  fix t :: int
  show "0 \<le> t \<Longrightarrow> 0 \<le> window_start_at t 60"
    by (rule window_start_bounds(3)) simp_all
next
  fix t lim
  show "window_start (bucket_of (snd (admit_key key quota t lim)) key) = window_start_at t 60"
    by (auto simp: admit_key_def Check_def Let_def)
next
  fix lim t
  assume "window_start (bucket_of lim key) = window_start_at t 60"
  then show "fst (admit_key key quota t lim) = (bucket_count (bucket_of lim key) < quota) \<and>
    bucket_count (bucket_of (snd (admit_key key quota t lim)) key) =
      (if bucket_count (bucket_of lim key) < quota then bucket_count (bucket_of lim key) + 1
       else bucket_count (bucket_of lim key))"
    by (auto simp: admit_key_def Check_def Let_def)
next
  fix lim t
  assume "window_start (bucket_of lim key) \<noteq> window_start_at t 60"
  then show "fst (admit_key key quota t lim) = (0 < quota) \<and>
    bucket_count (bucket_of (snd (admit_key key quota t lim)) key) = (if 0 < quota then 1 else 0)"
    by (auto simp: admit_key_def Check_def Let_def)
qed

end
