(* ===== verification/PerformanceProperties.thy ===== *)
theory PerformanceProperties
  imports ResponseCache RateLimiter
begin

text \<open>
  The properties of the cache and of the rate limiter by themselves, for any sequence of calls.
\<close>

section \<open>The cache\<close>

text \<open>After an insertion the key is answered with its body until the time to live is over and
  missed from then on, and every other key is answered as before.\<close>

theorem get_after_set:
  "fst (CacheGet t k' (CacheSet now k v ttl c)) =
     (if k' = k then (if t < now + ttl * SECOND then Some v else None) else fst (CacheGet t k' c))"
  by (simp add: CacheGet_def CacheSet_def update_conv' split: option.split)

text \<open>Invalidation by a prefix removes exactly the keys that start with it: they are missed
  and every other key is answered as before. The counters do not move.\<close>

theorem invalidate_exact:
  "fst (CacheGet t k (InvalidatePrefix p c)) = (if prefix p k then None else fst (CacheGet t k c)) \<and>
   hits (InvalidatePrefix p c) = hits c \<and> misses (InvalidatePrefix p c) = misses c"
  by (simp add: CacheGet_def InvalidatePrefix_def map_of_erase_prefix split: option.split)

text \<open>The calls on the cache, and the results of the lookups among them.\<close>

datatype cache_call =
    CallGet int string
  | CallSet int string string int
  | CallInvalidate string

fun run_calls :: "cache_call list \<Rightarrow> response_cache \<Rightarrow> string option list \<times> response_cache" where
  "run_calls [] c = ([], c)"
| "run_calls (CallGet now k # cs) c =
     (let (r, c1) = CacheGet now k c; (rs, c2) = run_calls cs c1 in (r # rs, c2))"
| "run_calls (CallSet now k v ttl # cs) c = run_calls cs (CacheSet now k v ttl c)"
| "run_calls (CallInvalidate p # cs) c = run_calls cs (InvalidatePrefix p c)"

definition successes :: "'a option list \<Rightarrow> nat" where
  "successes rs = length (filter (\<lambda>r. r \<noteq> None) rs)"

lemma successes_simps [simp]:
  "successes [] = 0" "successes (None # rs) = successes rs" "successes (Some x # rs) = Suc (successes rs)"
  by (simp_all add: successes_def)

lemma successes_le: "successes rs \<le> length rs"
  by (simp add: successes_def)

lemma CacheGet_counters:
  "CacheGet now k c = (Some v, c') \<Longrightarrow> hits c' = hits c + 1 \<and> misses c' = misses c"
  "CacheGet now k c = (None, c') \<Longrightarrow> hits c' = hits c \<and> misses c' = misses c + 1"
  by (auto simp: CacheGet_def split: option.splits if_splits)

text \<open>The statistics count: after any sequence of calls the hits have grown by the number of
  lookups that found a body and the misses by the number of those that did not, modulo the width
  of the counters.\<close>

theorem stats_count:
  "let (rs, c') = run_calls cs c
   in stats_hits (GetStats c') = hits c + of_nat (successes rs) \<and>
      stats_misses (GetStats c') = misses c + of_nat (length rs - successes rs)"
proof (induction cs c rule: run_calls.induct)
  case (2 now k cs c)
  obtain r c1 where get: "CacheGet now k c = (r, c1)" by fastforce
  obtain rs c2 where rest: "run_calls cs c1 = (rs, c2)" by fastforce
  from 2 [OF get [symmetric]] rest have IH: "hits c2 = hits c1 + of_nat (successes rs)"
    "misses c2 = misses c1 + of_nat (length rs - successes rs)"
    by (simp_all add: GetStats_def)
  show ?case
  proof (cases r)
    case None
    with CacheGet_counters(2) get have "hits c1 = hits c" "misses c1 = misses c + 1" by simp_all
    with IH get rest None successes_le [of rs] show ?thesis
      by (simp add: GetStats_def Suc_diff_le)
  next
    case (Some v)
    with CacheGet_counters(1) get have "hits c1 = hits c + 1" "misses c1 = misses c" by simp_all
    with IH get rest Some show ?thesis by (simp add: GetStats_def)
  qed
qed (simp_all add: GetStats_def CacheSet_def InvalidatePrefix_def)

lemma rounded_ratio:
  fixes rnd :: "real \<Rightarrow> real" and h n :: nat
  assumes "mono rnd" "rnd 0 = 0" "rnd 1 = 1" and "1 \<le> n" and "h \<le> n"
  shows "0 \<le> rnd (rnd (real h) / rnd (real n)) \<and> rnd (rnd (real h) / rnd (real n)) \<le> 1"
proof -
  have "1 \<le> rnd (real n)" using monoD [OF assms(1), of 1 "real n"] assms(3,4) by simp
  moreover have "0 \<le> rnd (real h)" using monoD [OF assms(1), of 0 "real h"] assms(2) by simp
  moreover have "rnd (real h) \<le> rnd (real n)" using assms(1,5) by (simp add: monoD)
  ultimately have q: "0 \<le> rnd (real h) / rnd (real n)" "rnd (real h) / rnd (real n) \<le> 1"
    by (simp_all add: divide_le_eq)
  show ?thesis
    using monoD [OF assms(1) q(1)] monoD [OF assms(1) q(2)] assms(2,3) by simp
qed

text \<open>The hit rate is a number between 0 and 1, for every monotone rounding that keeps 0 and 1,
  as long as the sum of the counters does not wrap around; with no lookup yet it is 0.\<close>

theorem hit_rate_bounds:
  assumes "mono rnd" and "rnd 0 = 0" and "rnd 1 = 1"
    and "unat (stats_hits s) + unat (stats_misses s) < 2 ^ 64"
  shows "0 \<le> HitRate rnd s \<and> HitRate rnd s \<le> 1"
proof (cases "stats_hits s + stats_misses s = 0")
  case True
  then show ?thesis by (simp add: HitRate_def)
next
  case False
  have sum: "unat (stats_hits s + stats_misses s) = unat (stats_hits s) + unat (stats_misses s)"
    using assms(4) by (simp add: unat_word_ariths)
  have "unat (stats_hits s + stats_misses s) \<noteq> 0" using False by (simp add: unat_eq_0)
  then have "1 \<le> unat (stats_hits s + stats_misses s)" by simp
  moreover have "unat (stats_hits s) \<le> unat (stats_hits s + stats_misses s)" using sum by simp
  ultimately have "0 \<le> rnd (rnd (real (unat (stats_hits s))) / rnd (real (unat (stats_hits s + stats_misses s)))) \<and>
      rnd (rnd (real (unat (stats_hits s))) / rnd (real (unat (stats_hits s + stats_misses s)))) \<le> 1"
    using rounded_ratio [OF assms(1-3)] by blast
  with False show ?thesis unfolding HitRate_def Let_def by (simp only: if_False)
qed

theorem hit_rate_bounds_witness:
  "0 \<le> HitRate (\<lambda>x. x) \<lparr>stats_hits = 3, stats_misses = 1, stats_entries = 2\<rparr> \<and>
   HitRate (\<lambda>x. x) \<lparr>stats_hits = 3, stats_misses = 1, stats_entries = 2\<rparr> \<le> 1"
  by (rule hit_rate_bounds) (simp_all add: mono_def)

section \<open>The limiter\<close>

text \<open>The answers to a list of calls for one key at the given times, with a window of a minute.\<close>

fun check_run :: "string \<Rightarrow> int \<Rightarrow> int list \<Rightarrow> rate_limiter \<Rightarrow> bool list" where
  "check_run key quota [] rl = []"
| "check_run key quota (t # ts) rl =
     (case Check t key quota 60 rl of
        (Inl e, rl') \<Rightarrow> False # check_run key quota ts rl'
      | (Inr r, rl') \<Rightarrow> allowed r # check_run key quota ts rl')"

lemma check_run_admissions:
  "check_run key quota ts rl = window_limiter.admissions (admit_key key quota) ts rl"
  by (induction ts arbitrary: rl) (auto simp: admit_key_def split: prod.split sum.split)

text \<open>The number of calls of a window that were allowed.\<close>

definition allowed_in :: "int \<Rightarrow> int list \<Rightarrow> bool list \<Rightarrow> nat" where
  "allowed_in w ts oks = length (filter (\<lambda>(t, ok). window_start_at t 60 = w \<and> ok) (zip ts oks))"

lemma bucket_of_init [simp]: "bucket_of RateLimiter_init key = Bucket_init"
  by (simp add: bucket_of_def RateLimiter_init_def)



text \<open>The limit is used up exactly: among calls for a key in a window not seen before, the first
  ones up to the limit are allowed and all later ones are refused.\<close>

theorem quota_exact:
  assumes "window_start (bucket_of rl key) \<noteq> w" and "\<forall>t\<in>set ts. window_start_at t 60 = w" and "i < length ts"
  shows "check_run key quota ts rl ! i \<longleftrightarrow> int i < quota"
  using key_limit.admissions_new_window [OF assms] by (simp add: check_run_admissions)

theorem quota_exact_witness:
  "check_run ''k'' 2 [60 * SECOND, 62 * SECOND, 61 * SECOND] RateLimiter_init ! 2 \<longleftrightarrow> int 2 < 2"
  by (rule quota_exact [where w = 60])
    (simp_all add: Bucket_init_def window_start_at_def now_seconds_def signed_divide_int_def)

text \<open>A clock that goes back defeats the limit: with a limit of one, three calls at 0:60, 0:00
  and 1:01 are all allowed, two of them in the same window.\<close>

theorem clock_going_back:
  "allowed_in 60 [60 * SECOND, 0, 61 * SECOND]
     (check_run ''k'' 1 [60 * SECOND, 0, 61 * SECOND] RateLimiter_init) = 2"
  by code_simp

text \<open>What the limiter reports: the reset time is the end of the current window, later than now
  and at most a window away; the remaining number is never negative, and zero when a call is
  refused.\<close>

theorem check_reports:
  assumes "0 \<le> now" and "0 < window" and "Check now key lmt window rl = (Inr r, rl')"
  shows "limit r = lmt \<and> now_seconds now < reset_epoch_seconds r \<and>
    reset_epoch_seconds r \<le> now_seconds now + window \<and>
    (allowed r \<longrightarrow> 0 \<le> remaining r) \<and> (\<not> allowed r \<longrightarrow> remaining r = 0)"
  using assms window_start_bounds [OF assms(1,2)]
  by (auto simp: Check_def Let_def split: if_splits)

theorem check_reports_witness:
  "\<exists>r rl'. Check (90 * SECOND) ''k'' 100 60 RateLimiter_init = (Inr r, rl') \<and>
     remaining r = 99 \<and> now_seconds (90 * SECOND) < reset_epoch_seconds r"
proof -
  let ?run = "Check (90 * SECOND) ''k'' 100 60 RateLimiter_init"
  have "case fst ?run of Inl e \<Rightarrow> False | Inr r \<Rightarrow> remaining r = 99" by code_simp
  then obtain r rl' where run: "?run = (Inr r, rl')" "remaining r = 99"
    by (cases ?run) (auto split: sum.splits)
  from check_reports [OF _ _ run(1)] run show ?thesis by auto
qed

text \<open>Keys are independent: a call for one key does not change the answers for another.\<close>

theorem keys_independent:
  assumes "key' \<noteq> key"
  shows "fst (Check now' key' lmt' window' (snd (Check now key lmt window rl))) =
    fst (Check now' key' lmt' window' rl)"
  using assms by (simp add: Check_def Let_def)

theorem keys_independent_witness:
  "fst (Check 7 ''b'' 1 60 (snd (Check 5 ''a'' 1 60 RateLimiter_init))) = fst (Check 7 ''b'' 1 60 RateLimiter_init)"
  by (rule keys_independent) simp

end
