(* ===== verification/Models.thy ===== *)
theory Models
  imports CppStd
begin

text \<open>
  The value types of \<open>src/src/models\<close>: the structs \<open>User\<close>, \<open>Driver\<close> and \<open>Ride\<close>
  that the storage hands to the request handlers, with the default values of their members.
\<close>

record user =
  user_id :: int
  user_login :: string
  user_password :: string
  user_full_name :: string

record driver =
  driver_id :: int
  driver_user_id :: int
  driver_car_model :: string
  driver_car_number :: string
  driver_license_number :: string
  driver_status :: string

record ride =
  ride_id :: int
  ride_passenger_id :: int
  ride_driver_id :: int
  ride_pickup_address :: string
  ride_destination_address :: string
  ride_status :: string

text \<open>The values of \<open>User{}\<close>, \<open>Driver{}\<close> and \<open>Ride{}\<close>.\<close>

definition User_init :: user where
  "User_init =
     \<lparr>user_id = 0, user_login = [], user_password = [], user_full_name = []\<rparr>"

definition Driver_init :: driver where
  "Driver_init =
     \<lparr>driver_id = 0, driver_user_id = 0, driver_car_model = [], driver_car_number = [],
      driver_license_number = [], driver_status = ''online''\<rparr>"

definition Ride_init :: ride where
  "Ride_init =
     \<lparr>ride_id = 0, ride_passenger_id = 0, ride_driver_id = 0, ride_pickup_address = [],
      ride_destination_address = [], ride_status = ''searching''\<rparr>"

end
