(* ===== verification/Database.thy ===== *)
theory Database
  imports Models "HOL-Library.Product_Lexorder"
begin

text \<open>
  The relational state behind the storage and the SQL statements of
  \<open>src/src/storage/taxi_storage.cpp\<close> over it. The tables have the columns, types and
  constraints of \<open>src/schema.sql\<close>. A statement maps the database to the rows it returns, or
  to the exception the driver raises, and the database after it. Texts are lists of bytes in
  UTF-8; \<open>lower\<close> depends on the locale of the server and is a parameter.
\<close>

section \<open>Tables\<close>

record user_row =
  ur_id :: int
  ur_login :: string
  ur_password :: string
  ur_full_name :: string
  ur_created_at :: int

record driver_row =
  dr_id :: int
  dr_user_id :: int
  dr_car_model :: string
  dr_car_number :: string
  dr_license_number :: string
  dr_status :: string

record ride_row =
  rr_id :: int
  rr_passenger_id :: int
  rr_driver_id :: "int option"
  rr_pickup_address :: string
  rr_destination_address :: string
  rr_status :: string
  rr_created_at :: int
  rr_completed_at :: "int option"

text \<open>The three tables and the next value of each identity sequence.\<close>

record database =
  users :: "user_row list"
  drivers :: "driver_row list"
  rides :: "ride_row list"
  users_id_seq :: int
  drivers_id_seq :: int
  rides_id_seq :: int

text \<open>The database right after \<open>schema.sql\<close>.\<close>

definition empty_database :: database where
  "empty_database =
     \<lparr>users = [], drivers = [], rides = [],
      users_id_seq = 1, drivers_id_seq = 1, rides_id_seq = 1\<rparr>"

section \<open>Text columns\<close>

text \<open>Lengths of \<open>VARCHAR(n)\<close> count characters: a UTF-8 continuation byte starts none.\<close>

definition is_continuation :: "char \<Rightarrow> bool" where
  "is_continuation c \<longleftrightarrow> 128 \<le> (of_char c :: nat) \<and> (of_char c :: nat) < 192"

definition char_length :: "string \<Rightarrow> nat" where
  "char_length s = length (filter (\<lambda>c. \<not> is_continuation c) s)"

fun char_take :: "nat \<Rightarrow> string \<Rightarrow> string" where
  "char_take n [] = []"
| "char_take n (c # cs) =
     (if is_continuation c then c # char_take n cs
      else (case n of 0 \<Rightarrow> [] | Suc m \<Rightarrow> c # char_take m cs))"

text \<open>
  Assignment to a \<open>VARCHAR(n)\<close> column: a text that is too long is rejected, unless all the
  characters in excess are spaces, which are cut.
\<close>

definition varchar :: "nat \<Rightarrow> string \<Rightarrow> string result" where
  "varchar n s =
     (if char_length s \<le> n then Inr s
      else if list_all (\<lambda>c. c = CHR '' '') (drop (length (char_take n s)) s)
      then Inr (char_take n s)
      else Inl PgDataTruncation)"

text \<open>\<open>btrim(s) <> ''\<close>: \<open>btrim\<close> removes spaces, and no other white space, on both ends.\<close>

definition btrim :: "string \<Rightarrow> string" where
  "btrim s = rev (dropWhile (\<lambda>c. c = CHR '' '') (rev (dropWhile (\<lambda>c. c = CHR '' '') s)))"

lemma btrim_eq_Nil: "btrim s = [] \<longleftrightarrow> list_all (\<lambda>c. c = CHR '' '') s"
proof (cases "dropWhile (\<lambda>c. c = CHR '' '') s")
  case Nil
  then have "list_all (\<lambda>c. c = CHR '' '') s"
    by (simp only: dropWhile_eq_Nil_conv list_all_iff)
  moreover from Nil have "btrim s = []"
    by (simp only: btrim_def rev.simps dropWhile.simps)
  ultimately show ?thesis by simp
next
  case (Cons c cs)
  then have "c \<in> set (dropWhile (\<lambda>c. c = CHR '' '') s)" by simp
  then have "c \<in> set s" by (rule set_dropWhileD)
  moreover from Cons have "c \<noteq> CHR '' ''"
    using hd_dropWhile [of "\<lambda>c. c = CHR '' ''" s] by simp
  ultimately have "c \<noteq> CHR '' ''" "c \<in> set s" by simp_all
  then show ?thesis
    using Cons by (auto simp: btrim_def list_all_iff dropWhile_append)
qed

text \<open>
  \<open>LIKE\<close> with the default escape character: \<open>%\<close> stands for any text, \<open>_\<close> for one
  character, and a backslash takes the next byte literally. A pattern that ends in an escape
  is an error of the statement; the only pattern of the service ends in \<open>%\<close>.
\<close>

fun like :: "string \<Rightarrow> string \<Rightarrow> bool" where
  "like [] s = (s = [])"
| "like (p # ps) s =
     (if p = CHR ''%'' then
        like ps s \<or> (case s of [] \<Rightarrow> False | _ # cs \<Rightarrow> like (p # ps) cs)
      else if p = CHR ''_'' then
        (case s of [] \<Rightarrow> False | _ # cs \<Rightarrow> like ps (dropWhile is_continuation cs))
      else if p = CHR 0x5C then
        (case ps of
           [] \<Rightarrow> False
         | q # qs \<Rightarrow> (case s of [] \<Rightarrow> False | c # cs \<Rightarrow> c = q \<and> like qs cs))
      else (case s of [] \<Rightarrow> False | c # cs \<Rightarrow> c = p \<and> like ps cs))"

declare like.simps [simp del]

definition plain_pattern :: "string \<Rightarrow> bool" where
  "plain_pattern m \<longleftrightarrow> list_all (\<lambda>c. c \<notin> {CHR ''%'', CHR ''_'', CHR 0x5C}) m"

lemma like_Nil [simp]: "like [] s \<longleftrightarrow> s = []"
  by (simp add: like.simps)

lemma like_percent: "like (CHR ''%'' # ps) s \<longleftrightarrow> (\<exists>a b. s = a @ b \<and> like ps b)"
proof (induction s)
  case Nil
  then show ?case by (simp add: like.simps)
next
  case (Cons c cs)
  then show ?case
    by (subst like.simps) (auto simp: Cons_eq_append_conv)
qed

lemma like_plain_append:
  "plain_pattern m \<Longrightarrow> like (m @ ps) s \<longleftrightarrow> (\<exists>t. s = m @ t \<and> like ps t)"
proof (induction m arbitrary: s)
  case Nil
  then show ?case by simp
next
  case (Cons c m)
  then have "plain_pattern m" "c \<noteq> CHR ''%''" "c \<noteq> CHR ''_''" "c \<noteq> CHR 0x5C"
    by (auto simp: plain_pattern_def)
  with Cons.IH show ?case
    by (cases s) (simp_all add: like.simps(2))
qed

text \<open>A mask without wildcards is searched as a substring.\<close>

lemma like_contains:
  assumes "plain_pattern m"
  shows "like (''%'' @ m @ ''%'') s \<longleftrightarrow> sublist m s"
  using assms by (auto simp: like_percent like_plain_append sublist_def)

section \<open>Constraints of the schema\<close>

definition not_blank :: "string \<Rightarrow> bool" where
  "not_blank s \<longleftrightarrow> btrim s \<noteq> []"

definition users_check :: "user_row \<Rightarrow> bool" where
  "users_check r \<longleftrightarrow>
     not_blank (ur_login r) \<and> not_blank (ur_password r) \<and> not_blank (ur_full_name r)"

definition drivers_check :: "driver_row \<Rightarrow> bool" where
  "drivers_check r \<longleftrightarrow>
     not_blank (dr_car_model r) \<and> not_blank (dr_car_number r) \<and> not_blank (dr_license_number r) \<and>
     dr_status r \<in> {''online'', ''busy'', ''offline''}"

definition rides_check :: "ride_row \<Rightarrow> bool" where
  "rides_check r \<longleftrightarrow>
     not_blank (rr_pickup_address r) \<and> not_blank (rr_destination_address r) \<and>
     rr_status r \<in> {''searching'', ''accepted'', ''completed'', ''cancelled''}"

text \<open>The texts of a row, cut or rejected by the widths of their columns.\<close>

definition users_columns :: "string \<Rightarrow> string \<Rightarrow> string \<Rightarrow> (string \<times> string \<times> string) result" where
  "users_columns login password full_name =
     (case (varchar 100 login, varchar 255 password, varchar 255 full_name) of
        (Inr l, Inr p, Inr f) \<Rightarrow> Inr (l, p, f)
      | _ \<Rightarrow> Inl PgDataTruncation)"

definition drivers_columns :: "string \<Rightarrow> string \<Rightarrow> string \<Rightarrow> (string \<times> string \<times> string) result" where
  "drivers_columns car_model car_number license_number =
     (case (varchar 100 car_model, varchar 30 car_number, varchar 50 license_number) of
        (Inr m, Inr n, Inr l) \<Rightarrow> Inr (m, n, l)
      | _ \<Rightarrow> Inl PgDataTruncation)"

definition rides_columns :: "string \<Rightarrow> string \<Rightarrow> (string \<times> string) result" where
  "rides_columns pickup_address destination_address =
     (case (varchar 255 pickup_address, varchar 255 destination_address) of
        (Inr p, Inr d) \<Rightarrow> Inr (p, d)
      | _ \<Rightarrow> Inl PgDataTruncation)"

section \<open>Result rows\<close>

text \<open>The columns the statements on each table select or return, in their order.\<close>

type_synonym user_res = "int \<times> string \<times> string \<times> string"
type_synonym driver_res = "int \<times> int \<times> string \<times> string \<times> string \<times> string"
type_synonym ride_res = "int \<times> int \<times> int \<times> string \<times> string \<times> string"

definition select_user :: "user_row \<Rightarrow> user_res" where
  "select_user r = (ur_id r, ur_login r, ur_password r, ur_full_name r)"

definition select_driver :: "driver_row \<Rightarrow> driver_res" where
  "select_driver r =
     (dr_id r, dr_user_id r, dr_car_model r, dr_car_number r, dr_license_number r, dr_status r)"

text \<open>\<open>COALESCE(driver_id, 0)\<close>: a ride without a driver shows the driver 0.\<close>

definition coalesce :: "'a option \<Rightarrow> 'a \<Rightarrow> 'a" where
  "coalesce x d = (case x of None \<Rightarrow> d | Some v \<Rightarrow> v)"

definition select_ride :: "ride_row \<Rightarrow> ride_res" where
  "select_ride r =
     (rr_id r, rr_passenger_id r, coalesce (rr_driver_id r) 0, rr_pickup_address r,
      rr_destination_address r, rr_status r)"

type_synonym 'a statement = "database \<Rightarrow> 'a list result \<times> database"

text \<open>A statement that reads.\<close>

definition query :: "(database \<Rightarrow> 'a list) \<Rightarrow> 'a statement" where
  "query f db = (Inr (f db), db)"

section \<open>Statements on users\<close>

text \<open>
  An \<open>INSERT\<close> draws the next value of the identity sequence, converts the texts, evaluates
  the \<open>CHECK\<close> constraints of the row, then the unique indexes, and last the foreign keys.
  The draw from the sequence is not undone when the statement fails.
\<close>

definition kInsertUser :: "int \<Rightarrow> string \<Rightarrow> string \<Rightarrow> string \<Rightarrow> user_res statement" where
  "kInsertUser now login password full_name db =
     (let nid = users_id_seq db; db1 = db\<lparr>users_id_seq := nid + 1\<rparr>
      in if nid > INT_MAX then (Inl PgSequenceLimit, db)
         else (case users_columns login password full_name of
             Inl e \<Rightarrow> (Inl e, db1)
           | Inr (l, p, f) \<Rightarrow>
               (let row = \<lparr>ur_id = nid, ur_login = l, ur_password = p, ur_full_name = f,
                           ur_created_at = now\<rparr>
                in if \<not> users_check row then (Inl PgCheckViolation, db1)
                   else if \<exists>r\<in>set (users db). ur_id r = nid \<or> ur_login r = l
                   then (Inl PgUniqueViolation, db1)
                   else (Inr [select_user row], db1\<lparr>users := users db @ [row]\<rparr>))))"

definition kSelectUserById :: "int \<Rightarrow> database \<Rightarrow> user_res list" where
  "kSelectUserById i db = map select_user (filter (\<lambda>r. ur_id r = i) (users db))"

definition kSelectUserByLogin :: "string \<Rightarrow> database \<Rightarrow> user_res list" where
  "kSelectUserByLogin login db = map select_user (filter (\<lambda>r. ur_login r = login) (users db))"

definition kFindUsersByMask :: "(string \<Rightarrow> string) \<Rightarrow> string \<Rightarrow> database \<Rightarrow> user_res list" where
  "kFindUsersByMask lower name_mask db =
     map select_user
       (sort_key ur_id
         (filter (\<lambda>r. like (''%'' @ lower name_mask @ ''%'') (lower (ur_full_name r))) (users db)))"

section \<open>Statements on drivers\<close>

definition kInsertDriver :: "int \<Rightarrow> string \<Rightarrow> string \<Rightarrow> string \<Rightarrow> driver_res statement" where
  "kInsertDriver uid car_model car_number license_number db =
     (let nid = drivers_id_seq db; db1 = db\<lparr>drivers_id_seq := nid + 1\<rparr>
      in if nid > INT_MAX then (Inl PgSequenceLimit, db)
         else (case drivers_columns car_model car_number license_number of
             Inl e \<Rightarrow> (Inl e, db1)
           | Inr (m, n, l) \<Rightarrow>
               (let row = \<lparr>dr_id = nid, dr_user_id = uid, dr_car_model = m, dr_car_number = n,
                           dr_license_number = l, dr_status = ''online''\<rparr>
                in if \<not> drivers_check row then (Inl PgCheckViolation, db1)
                   else if \<exists>r\<in>set (drivers db). dr_id r = nid \<or> dr_user_id r = uid \<or>
                             dr_car_number r = n \<or> dr_license_number r = l
                   then (Inl PgUniqueViolation, db1)
                   else if \<not> (\<exists>u\<in>set (users db). ur_id u = uid)
                   then (Inl PgForeignKeyViolation, db1)
                   else (Inr [select_driver row], db1\<lparr>drivers := drivers db @ [row]\<rparr>))))"

definition kSelectDriverById :: "int \<Rightarrow> database \<Rightarrow> driver_res list" where
  "kSelectDriverById i db = map select_driver (filter (\<lambda>r. dr_id r = i) (drivers db))"

definition kSelectDriverByUserId :: "int \<Rightarrow> database \<Rightarrow> driver_res list" where
  "kSelectDriverByUserId uid db = map select_driver (filter (\<lambda>r. dr_user_id r = uid) (drivers db))"

definition kSelectActiveDrivers :: "database \<Rightarrow> driver_res list" where
  "kSelectActiveDrivers db =
     map select_driver (sort_key dr_id (filter (\<lambda>r. dr_status r = ''online'') (drivers db)))"

text \<open>An \<open>UPDATE\<close> rewrites the rows its condition selects and returns them.\<close>

definition kUpdateDriverStatus :: "int \<Rightarrow> string \<Rightarrow> driver_res statement" where
  "kUpdateDriverStatus i status db =
     (case varchar 20 status of
        Inl e \<Rightarrow> (Inl e, db)
      | Inr st \<Rightarrow>
          (let upd = (\<lambda>r. r\<lparr>dr_status := st\<rparr>);
               rows = map upd (filter (\<lambda>r. dr_id r = i) (drivers db))
           in if list_all drivers_check rows
              then (Inr (map select_driver rows),
                    db\<lparr>drivers := map (\<lambda>r. if dr_id r = i then upd r else r) (drivers db)\<rparr>)
              else (Inl PgCheckViolation, db)))"

section \<open>Statements on rides\<close>

definition kInsertRide :: "int \<Rightarrow> int \<Rightarrow> string \<Rightarrow> string \<Rightarrow> ride_res statement" where
  "kInsertRide now passenger pickup_address destination_address db =
     (let nid = rides_id_seq db; db1 = db\<lparr>rides_id_seq := nid + 1\<rparr>
      in if nid > INT_MAX then (Inl PgSequenceLimit, db)
         else (case rides_columns pickup_address destination_address of
             Inl e \<Rightarrow> (Inl e, db1)
           | Inr (p, d) \<Rightarrow>
               (let row = \<lparr>rr_id = nid, rr_passenger_id = passenger, rr_driver_id = None,
                           rr_pickup_address = p, rr_destination_address = d,
                           rr_status = ''searching'', rr_created_at = now, rr_completed_at = None\<rparr>
                in if \<not> rides_check row then (Inl PgCheckViolation, db1)
                   else if \<exists>r\<in>set (rides db). rr_id r = nid then (Inl PgUniqueViolation, db1)
                   else if \<not> (\<exists>u\<in>set (users db). ur_id u = passenger)
                   then (Inl PgForeignKeyViolation, db1)
                   else (Inr [select_ride row], db1\<lparr>rides := rides db @ [row]\<rparr>))))"

definition kSelectRideById :: "int \<Rightarrow> database \<Rightarrow> ride_res list" where
  "kSelectRideById i db = map select_ride (filter (\<lambda>r. rr_id r = i) (rides db))"

text \<open>\<open>ORDER BY created_at DESC, id DESC\<close>.\<close>

definition kSelectRidesByUserId :: "int \<Rightarrow> database \<Rightarrow> ride_res list" where
  "kSelectRidesByUserId uid db =
     map select_ride
       (sort_key (\<lambda>r. (- rr_created_at r, - rr_id r))
         (filter (\<lambda>r. rr_passenger_id r = uid) (rides db)))"

definition kSelectActiveRides :: "database \<Rightarrow> ride_res list" where
  "kSelectActiveRides db =
     map select_ride
       (sort_key rr_id (filter (\<lambda>r. rr_status r \<in> {''searching'', ''accepted''}) (rides db)))"

text \<open>
  The two statements with data-modifying \<open>WITH\<close> parts. All parts read the rows as they were
  when the statement started, and each part sees the rows an earlier part returned.
\<close>

definition accept_driver :: "int \<Rightarrow> driver_row \<Rightarrow> bool" where
  "accept_driver did r \<longleftrightarrow> dr_id r = did \<and> dr_status r = ''online''"

definition accept_ride :: "int \<Rightarrow> int list \<Rightarrow> ride_row \<Rightarrow> bool" where
  "accept_ride rid updated_driver r \<longleftrightarrow>
     rr_id r = rid \<and> rr_status r = ''searching'' \<and> updated_driver \<noteq> []"

definition kAcceptRide :: "int \<Rightarrow> int \<Rightarrow> database \<Rightarrow> ride_res list \<times> database" where
  "kAcceptRide rid did db =
     (let updated_driver = map dr_id (filter (accept_driver did) (drivers db));
          drivers' = map (\<lambda>r. if accept_driver did r then r\<lparr>dr_status := ''busy''\<rparr> else r) (drivers db);
          upd = (\<lambda>r. r\<lparr>rr_driver_id := Some did, rr_status := ''accepted''\<rparr>);
          updated_ride = map upd (filter (accept_ride rid updated_driver) (rides db));
          rides' = map (\<lambda>r. if accept_ride rid updated_driver r then upd r else r) (rides db)
      in (map select_ride updated_ride, db\<lparr>drivers := drivers', rides := rides'\<rparr>))"

definition complete_ride :: "int \<Rightarrow> ride_row \<Rightarrow> bool" where
  "complete_ride rid r \<longleftrightarrow> rr_id r = rid \<and> rr_status r = ''accepted''"

text \<open>
  The scalar subquery \<open>(SELECT driver_id FROM updated_ride)\<close> reads the column
  \<open>COALESCE(driver_id, 0) AS driver_id\<close> of the row returned, and is \<open>NULL\<close>, equal to no
  id, when there is none.
\<close>

definition kCompleteRide :: "int \<Rightarrow> int \<Rightarrow> database \<Rightarrow> ride_res list \<times> database" where
  "kCompleteRide now rid db =
     (let upd = (\<lambda>r. r\<lparr>rr_status := ''completed'', rr_completed_at := Some now\<rparr>);
          updated_ride = map (select_ride \<circ> upd) (filter (complete_ride rid) (rides db));
          rides' = map (\<lambda>r. if complete_ride rid r then upd r else r) (rides db);
          did = (case updated_ride of [] \<Rightarrow> None | (_, _, d, _) # _ \<Rightarrow> Some d);
          drivers' = map (\<lambda>r. if did = Some (dr_id r) then r\<lparr>dr_status := ''online''\<rparr> else r) (drivers db)
      in (updated_ride, db\<lparr>rides := rides', drivers := drivers'\<rparr>))"

lemmas insert_defs = kInsertUser_def kInsertDriver_def kInsertRide_def

lemmas select_defs =
  kSelectUserById_def kSelectUserByLogin_def kFindUsersByMask_def kSelectDriverById_def
  kSelectDriverByUserId_def kSelectActiveDrivers_def kSelectRideById_def
  kSelectRidesByUserId_def kSelectActiveRides_def

end
