(* ===== verification/DatabaseInvariant.thy ===== *)
theory DatabaseInvariant
  imports Database
begin

text \<open>
  What the schema promises of the tables: keys and unique columns, the range of the
  identities, the widths and checks of every row, the foreign keys. Every statement keeps
  it, whatever it is called with and whether it succeeds or raises.
\<close>

section \<open>The invariant\<close>

definition users_fit :: "user_row \<Rightarrow> bool" where
  "users_fit r \<longleftrightarrow>
     char_length (ur_login r) \<le> 100 \<and> char_length (ur_password r) \<le> 255 \<and>
     char_length (ur_full_name r) \<le> 255"

definition drivers_fit :: "driver_row \<Rightarrow> bool" where
  "drivers_fit r \<longleftrightarrow>
     char_length (dr_car_model r) \<le> 100 \<and> char_length (dr_car_number r) \<le> 30 \<and>
     char_length (dr_license_number r) \<le> 50 \<and> char_length (dr_status r) \<le> 20"

definition rides_fit :: "ride_row \<Rightarrow> bool" where
  "rides_fit r \<longleftrightarrow>
     char_length (rr_pickup_address r) \<le> 255 \<and> char_length (rr_destination_address r) \<le> 255 \<and>
     char_length (rr_status r) \<le> 20"

definition users_inv :: "database \<Rightarrow> bool" where
  "users_inv db \<longleftrightarrow>
     distinct (map ur_id (users db)) \<and> distinct (map ur_login (users db)) \<and>
     users_id_seq db \<le> INT_MAX + 1 \<and>
     (\<forall>r\<in>set (users db). users_check r \<and> users_fit r \<and> 1 \<le> ur_id r \<and> ur_id r < users_id_seq db)"

definition drivers_inv :: "database \<Rightarrow> bool" where
  "drivers_inv db \<longleftrightarrow>
     distinct (map dr_id (drivers db)) \<and> distinct (map dr_user_id (drivers db)) \<and>
     distinct (map dr_car_number (drivers db)) \<and> distinct (map dr_license_number (drivers db)) \<and>
     drivers_id_seq db \<le> INT_MAX + 1 \<and>
     (\<forall>r\<in>set (drivers db). drivers_check r \<and> drivers_fit r \<and> 1 \<le> dr_id r \<and>
        dr_id r < drivers_id_seq db \<and> dr_user_id r \<in> ur_id ` set (users db))"

definition rides_inv :: "database \<Rightarrow> bool" where
  "rides_inv db \<longleftrightarrow>
     distinct (map rr_id (rides db)) \<and> rides_id_seq db \<le> INT_MAX + 1 \<and>
     (\<forall>r\<in>set (rides db). rides_check r \<and> rides_fit r \<and> 1 \<le> rr_id r \<and>
        rr_id r < rides_id_seq db \<and> rr_passenger_id r \<in> ur_id ` set (users db) \<and>
        (\<forall>d. rr_driver_id r = Some d \<longrightarrow> d \<in> dr_id ` set (drivers db)))"

definition sequences_start :: "database \<Rightarrow> bool" where
  "sequences_start db \<longleftrightarrow> 1 \<le> users_id_seq db \<and> 1 \<le> drivers_id_seq db \<and> 1 \<le> rides_id_seq db"

definition db_inv :: "database \<Rightarrow> bool" where
  "db_inv db \<longleftrightarrow> sequences_start db \<and> users_inv db \<and> drivers_inv db \<and> rides_inv db"

lemmas db_inv_defs = db_inv_def sequences_start_def users_inv_def drivers_inv_def rides_inv_def

lemma db_inv_empty: "db_inv empty_database"
  by (simp add: db_inv_defs empty_database_def)

section \<open>Widths\<close>

lemma char_length_le: "char_length s \<le> length s"
  by (simp add: char_length_def)

lemma status_fits: "length s \<le> n \<Longrightarrow> char_length s \<le> n"
  using char_length_le [of s] by simp

lemma char_length_char_take: "char_length (char_take n s) \<le> n"
  by (induction n s rule: char_take.induct) (auto simp: char_length_def split: nat.split)

lemma varchar_fits: "varchar n s = Inr t \<Longrightarrow> char_length t \<le> n"
  by (auto simp: varchar_def char_length_char_take split: if_splits)

lemma varchar_short: "char_length s \<le> n \<Longrightarrow> varchar n s = Inr s"
  by (simp add: varchar_def)

section \<open>What an insert does\<close>

text \<open>
  The outcome of an insert, by cases: the exhausted sequence changes nothing, every other
  failure only moves the sequence, and success appends one row that obeys every constraint.
\<close>

lemma kInsertUser_cases:
  assumes "kInsertUser now login password full_name db = (res, db')"
  obtains (Fail) e where "res = Inl e" "db' = db \<or> users_id_seq db \<le> INT_MAX \<and> db' = db\<lparr>users_id_seq := users_id_seq db + 1\<rparr>"
    | (Ok) row where "res = Inr [select_user row]"
        "db' = db\<lparr>users_id_seq := users_id_seq db + 1, users := users db @ [row]\<rparr>"
        "users_id_seq db \<le> INT_MAX" "ur_id row = users_id_seq db" "ur_created_at row = now"
        "users_columns login password full_name = Inr (ur_login row, ur_password row, ur_full_name row)"
        "users_check row" "ur_id row \<notin> ur_id ` set (users db)" "ur_login row \<notin> ur_login ` set (users db)"
proof (cases res)
  case (Inl e)
  with assms Fail show thesis
    by (auto simp: kInsertUser_def Let_def split: if_splits sum.splits)
next
  case (Inr rows)
  with assms show thesis
    by (auto simp: kInsertUser_def Let_def image_iff split: if_splits sum.splits intro!: Ok)
qed

lemma kInsertDriver_cases:
  assumes "kInsertDriver uid car_model car_number license_number db = (res, db')"
  obtains (Fail) e where "res = Inl e" "db' = db \<or> drivers_id_seq db \<le> INT_MAX \<and> db' = db\<lparr>drivers_id_seq := drivers_id_seq db + 1\<rparr>"
    | (Ok) row where "res = Inr [select_driver row]"
        "db' = db\<lparr>drivers_id_seq := drivers_id_seq db + 1, drivers := drivers db @ [row]\<rparr>"
        "drivers_id_seq db \<le> INT_MAX" "dr_id row = drivers_id_seq db" "dr_user_id row = uid"
        "drivers_columns car_model car_number license_number =
           Inr (dr_car_model row, dr_car_number row, dr_license_number row)"
        "dr_status row = ''online''" "drivers_check row" "uid \<in> ur_id ` set (users db)"
        "dr_id row \<notin> dr_id ` set (drivers db)" "dr_user_id row \<notin> dr_user_id ` set (drivers db)"
        "dr_car_number row \<notin> dr_car_number ` set (drivers db)"
        "dr_license_number row \<notin> dr_license_number ` set (drivers db)"
proof (cases res)
  case (Inl e)
  with assms Fail show thesis
    by (auto simp: kInsertDriver_def Let_def split: if_splits sum.splits)
next
  case (Inr rows)
  with assms show thesis
    by (auto simp: kInsertDriver_def Let_def image_iff split: if_splits sum.splits intro!: Ok)
qed

lemma kInsertRide_cases:
  assumes "kInsertRide now passenger pickup_address destination_address db = (res, db')"
  obtains (Fail) e where "res = Inl e" "db' = db \<or> rides_id_seq db \<le> INT_MAX \<and> db' = db\<lparr>rides_id_seq := rides_id_seq db + 1\<rparr>"
    | (Ok) row where "res = Inr [select_ride row]"
        "db' = db\<lparr>rides_id_seq := rides_id_seq db + 1, rides := rides db @ [row]\<rparr>"
        "rides_id_seq db \<le> INT_MAX" "rr_id row = rides_id_seq db" "rr_passenger_id row = passenger"
        "rides_columns pickup_address destination_address =
           Inr (rr_pickup_address row, rr_destination_address row)"
        "rr_driver_id row = None" "rr_status row = ''searching''" "rr_created_at row = now"
        "rr_completed_at row = None" "rides_check row" "passenger \<in> ur_id ` set (users db)"
        "rr_id row \<notin> rr_id ` set (rides db)"
proof (cases res)
  case (Inl e)
  with assms Fail show thesis
    by (auto simp: kInsertRide_def Let_def split: if_splits sum.splits)
next
  case (Inr rows)
  with assms show thesis
    by (auto simp: kInsertRide_def Let_def image_iff split: if_splits sum.splits intro!: Ok)
qed

lemma users_columns_fit:
  "users_columns login password full_name = Inr (ur_login r, ur_password r, ur_full_name r) \<Longrightarrow> users_fit r"
  by (auto simp: users_columns_def users_fit_def varchar_fits split: sum.splits)

lemma drivers_columns_fit:
  "drivers_columns m n l = Inr (dr_car_model r, dr_car_number r, dr_license_number r) \<Longrightarrow>
   dr_status r = ''online'' \<Longrightarrow> drivers_fit r"
  by (auto simp: drivers_columns_def drivers_fit_def varchar_fits status_fits split: sum.splits)

lemma rides_columns_fit:
  "rides_columns p d = Inr (rr_pickup_address r, rr_destination_address r) \<Longrightarrow>
   rr_status r = ''searching'' \<Longrightarrow> rides_fit r"
  by (auto simp: rides_columns_def rides_fit_def varchar_fits status_fits split: sum.splits)

section \<open>Every statement keeps the invariant\<close>

lemma db_inv_users_seq: "db_inv db \<Longrightarrow> users_id_seq db \<le> INT_MAX \<Longrightarrow> db_inv (db\<lparr>users_id_seq := users_id_seq db + 1\<rparr>)"
  by (fastforce simp: db_inv_defs)

lemma db_inv_drivers_seq: "db_inv db \<Longrightarrow> drivers_id_seq db \<le> INT_MAX \<Longrightarrow> db_inv (db\<lparr>drivers_id_seq := drivers_id_seq db + 1\<rparr>)"
  by (fastforce simp: db_inv_defs)

lemma db_inv_rides_seq: "db_inv db \<Longrightarrow> rides_id_seq db \<le> INT_MAX \<Longrightarrow> db_inv (db\<lparr>rides_id_seq := rides_id_seq db + 1\<rparr>)"
  by (fastforce simp: db_inv_defs)

lemma kInsertUser_inv:
  assumes "db_inv db" and "kInsertUser now login password full_name db = (res, db')"
  shows "db_inv db'"
  using assms(2)
proof (cases rule: kInsertUser_cases)
  case (Fail e)
  with assms(1) show ?thesis by (auto intro: db_inv_users_seq)
next
  case (Ok row)
  then have "users_fit row" by (simp add: users_columns_fit)
  with Ok assms(1) show ?thesis
    by (auto simp: db_inv_defs)
qed

lemma kInsertDriver_inv:
  assumes "db_inv db" and "kInsertDriver uid m n l db = (res, db')"
  shows "db_inv db'"
  using assms(2)
proof (cases rule: kInsertDriver_cases)
  case (Fail e)
  with assms(1) show ?thesis by (auto intro: db_inv_drivers_seq)
next
  case (Ok row)
  then have "drivers_fit row" by (simp add: drivers_columns_fit)
  with Ok assms(1) show ?thesis
    by (auto simp: db_inv_defs)
qed

lemma kInsertRide_inv:
  assumes "db_inv db" and "kInsertRide now passenger p d db = (res, db')"
  shows "db_inv db'"
  using assms(2)
proof (cases rule: kInsertRide_cases)
  case (Fail e)
  with assms(1) show ?thesis by (auto intro: db_inv_rides_seq)
next
  case (Ok row)
  then have "rides_fit row" by (simp add: rides_columns_fit)
  with Ok assms(1) show ?thesis
    by (auto simp: db_inv_defs)
qed

text \<open>
  An update that leaves the keys of a table alone and only writes checked values keeps the
  invariant. The two lemmas cover all the updates of the service.
\<close>

lemma db_inv_update_drivers:
  assumes inv: "db_inv db"
    and keys: "\<And>r. dr_id (g r) = dr_id r" "\<And>r. dr_user_id (g r) = dr_user_id r"
      "\<And>r. dr_car_number (g r) = dr_car_number r" "\<And>r. dr_license_number (g r) = dr_license_number r"
    and ok: "\<And>r. r \<in> set (drivers db) \<Longrightarrow> P r \<Longrightarrow> drivers_check (g r) \<and> drivers_fit (g r)"
  shows "db_inv (db\<lparr>drivers := map (\<lambda>r. if P r then g r else r) (drivers db)\<rparr>)"
proof -
  let ?ds = "map (\<lambda>r. if P r then g r else r) (drivers db)"
  have cols: "map dr_id ?ds = map dr_id (drivers db)" "map dr_user_id ?ds = map dr_user_id (drivers db)"
    "map dr_car_number ?ds = map dr_car_number (drivers db)"
    "map dr_license_number ?ds = map dr_license_number (drivers db)"
    using keys by simp_all
  have ids: "dr_id ` set ?ds = dr_id ` set (drivers db)"
    using keys(1) by (rule image_map_if)
  from inv have "\<forall>r\<in>set ?ds. drivers_check r \<and> drivers_fit r \<and> 1 \<le> dr_id r \<and>
      dr_id r < drivers_id_seq db \<and> dr_user_id r \<in> ur_id ` set (users db)"
    using ok keys by (auto simp: db_inv_defs)
  with inv cols ids show ?thesis
    by (simp add: db_inv_defs del: map_map set_map)
qed

lemma db_inv_update_rides:
  assumes inv: "db_inv db"
    and keys: "\<And>r. rr_id (g r) = rr_id r" "\<And>r. rr_passenger_id (g r) = rr_passenger_id r"
    and ok: "\<And>r. r \<in> set (rides db) \<Longrightarrow> P r \<Longrightarrow> rides_check (g r) \<and> rides_fit (g r)"
    and drv: "\<And>r d. r \<in> set (rides db) \<Longrightarrow> P r \<Longrightarrow> rr_driver_id (g r) = Some d \<Longrightarrow> d \<in> dr_id ` set (drivers db)"
  shows "db_inv (db\<lparr>rides := map (\<lambda>r. if P r then g r else r) (rides db)\<rparr>)"
proof -
  let ?rs = "map (\<lambda>r. if P r then g r else r) (rides db)"
  have cols: "map rr_id ?rs = map rr_id (rides db)"
    using keys by simp
  from inv have "\<forall>r\<in>set ?rs. rides_check r \<and> rides_fit r \<and> 1 \<le> rr_id r \<and>
        rr_id r < rides_id_seq db \<and> rr_passenger_id r \<in> ur_id ` set (users db) \<and>
        (\<forall>d. rr_driver_id r = Some d \<longrightarrow> d \<in> dr_id ` set (drivers db))"
    using ok keys drv by (auto simp: db_inv_defs)
  with inv cols show ?thesis
    by (simp add: db_inv_defs del: map_map set_map)
qed

lemma kUpdateDriverStatus_inv:
  assumes inv: "db_inv db" and upd: "kUpdateDriverStatus i status db = (res, db')"
  shows "db_inv db'"
proof (cases "varchar 20 status")
  case (Inl e)
  with upd inv show ?thesis by (simp add: kUpdateDriverStatus_def)
next
  case (Inr st)
  let ?upd = "\<lambda>r. r\<lparr>dr_status := st\<rparr>"
  show ?thesis
  proof (cases "list_all drivers_check (map ?upd (filter (\<lambda>r. dr_id r = i) (drivers db)))")
    case True
    with upd Inr have "db' = db\<lparr>drivers := map (\<lambda>r. if dr_id r = i then ?upd r else r) (drivers db)\<rparr>"
      by (simp add: kUpdateDriverStatus_def Let_def)
    moreover have "drivers_check (?upd r) \<and> drivers_fit (?upd r)"
      if "r \<in> set (drivers db)" "dr_id r = i" for r
      using that True inv varchar_fits [OF Inr] by (auto simp: list_all_iff db_inv_defs drivers_fit_def)
    ultimately show ?thesis
      by (simp add: db_inv_update_drivers [OF inv])
  next
    case False
    with upd Inr inv show ?thesis by (auto simp: kUpdateDriverStatus_def)
  qed
qed

lemma db_inv_kAcceptRide:
  assumes inv: "db_inv db"
  shows "db_inv (snd (kAcceptRide rid did db))"
proof -
  let ?ud = "map dr_id (filter (accept_driver did) (drivers db))"
  let ?db1 = "db\<lparr>drivers := map (\<lambda>r. if accept_driver did r then r\<lparr>dr_status := ''busy''\<rparr> else r) (drivers db)\<rparr>"
  let ?upd = "\<lambda>r. r\<lparr>rr_driver_id := Some did, rr_status := ''accepted''\<rparr>"
  have inv1: "db_inv ?db1"
    using inv by (intro db_inv_update_drivers) (auto simp: db_inv_defs drivers_check_def drivers_fit_def status_fits)
  have did: "did \<in> dr_id ` set (drivers ?db1)" if "?ud \<noteq> []"
  proof -
    from that obtain r where "r \<in> set (drivers db)" "accept_driver did r"
      by (auto simp: filter_empty_conv)
    then have "did \<in> dr_id ` set (drivers db)" by (auto simp: accept_driver_def)
    moreover have "dr_id ` set (drivers ?db1) = dr_id ` set (drivers db)"
      by (simp add: image_map_if del: set_map list.set_map)
    ultimately show ?thesis by simp
  qed
  have "db_inv (?db1\<lparr>rides := map (\<lambda>r. if accept_ride rid ?ud r then ?upd r else r) (rides ?db1)\<rparr>)"
  proof (rule db_inv_update_rides [OF inv1])
    fix r d
    assume r: "r \<in> set (rides ?db1)" and acc: "accept_ride rid ?ud r"
    show "rides_check (?upd r) \<and> rides_fit (?upd r)"
      using r inv by (auto simp: db_inv_defs rides_check_def rides_fit_def status_fits)
    from acc have "?ud \<noteq> []" by (simp add: accept_ride_def)
    then show "rr_driver_id (?upd r) = Some d \<Longrightarrow> d \<in> dr_id ` set (drivers ?db1)"
      using did by simp
  qed simp_all
  then show ?thesis by (simp add: kAcceptRide_def Let_def)
qed

lemma db_inv_kCompleteRide:
  assumes inv: "db_inv db"
  shows "db_inv (snd (kCompleteRide now rid db))"
proof -
  let ?upd = "\<lambda>r. r\<lparr>rr_status := ''completed'', rr_completed_at := Some now\<rparr>"
  let ?rs = "map (select_ride \<circ> ?upd) (filter (complete_ride rid) (rides db))"
  let ?did = "case ?rs of [] \<Rightarrow> None | (_, _, d, _) # _ \<Rightarrow> Some d"
  let ?db1 = "db\<lparr>rides := map (\<lambda>r. if complete_ride rid r then ?upd r else r) (rides db)\<rparr>"
  have inv1: "db_inv ?db1"
    using inv by (intro db_inv_update_rides) (auto simp: db_inv_defs rides_check_def rides_fit_def status_fits)
  have "db_inv (?db1\<lparr>drivers := map (\<lambda>r. if ?did = Some (dr_id r) then r\<lparr>dr_status := ''online''\<rparr> else r) (drivers ?db1)\<rparr>)"
    using inv by (intro db_inv_update_drivers [OF inv1]) (auto simp: db_inv_defs drivers_check_def drivers_fit_def status_fits)
  then show ?thesis by (simp add: kCompleteRide_def Let_def)
qed

end
