(* ===== verification/TaxiStorage.thy ===== *)
theory TaxiStorage
  imports DatabaseInvariant
begin

text \<open>
  The class \<open>TaxiStorage\<close> of \<open>src/src/storage\<close>: its state (the database behind
  \<open>pg_cluster_\<close>, the counter and the map of tokens), the parsing of result rows and every
  public operation. The driver of the database may fail on any statement; where it does is
  part of the environment of the call.
\<close>

section \<open>State\<close>

record taxi_storage =
  pg_cluster :: database
  next_token_id :: int
  tokens :: "string \<rightharpoonup> int"

definition TaxiStorage_ctor :: "database \<Rightarrow> taxi_storage" where
  "TaxiStorage_ctor db = \<lparr>pg_cluster = db, next_token_id = 1, tokens = Map.empty\<rparr>"

text \<open>
  The environment of one call: the clock and the \<open>lower\<close> function of the server, and
  whether the connection fails. It may be lost before the statement (or the transaction) takes
  effect, or after the server applied it and before the client heard of it.
\<close>

datatype pg_fault = NoFault | FaultBefore | FaultAfter

record pg_env =
  pg_now :: int
  pg_lower :: "string \<Rightarrow> string"
  pg_fault :: pg_fault

section \<open>Running statements\<close>

definition Execute :: "pg_env \<Rightarrow> 'a statement \<Rightarrow> taxi_storage \<Rightarrow> 'a list result \<times> taxi_storage" where
  "Execute env stmt st =
     (case pg_fault env of
        FaultBefore \<Rightarrow> (Inl PgConnectionFailure, st)
      | NoFault \<Rightarrow> (let (res, db) = stmt (pg_cluster st) in (res, st\<lparr>pg_cluster := db\<rparr>))
      | FaultAfter \<Rightarrow>
          (let (res, db) = stmt (pg_cluster st) in (Inl PgConnectionFailure, st\<lparr>pg_cluster := db\<rparr>)))"

text \<open>
  A transaction works on a copy of the database that only \<open>Commit\<close> publishes.
\<close>

definition Begin :: "pg_env \<Rightarrow> taxi_storage \<Rightarrow> database result" where
  "Begin env st =
     (if pg_fault env = FaultBefore then Inl PgConnectionFailure else Inr (pg_cluster st))"

definition Rollback :: "pg_env \<Rightarrow> taxi_storage \<Rightarrow> unit result \<times> taxi_storage" where
  "Rollback env st =
     (if pg_fault env = FaultAfter then (Inl PgConnectionFailure, st) else (Inr (), st))"

definition Commit :: "pg_env \<Rightarrow> database \<Rightarrow> taxi_storage \<Rightarrow> unit result \<times> taxi_storage" where
  "Commit env work st =
     (if pg_fault env = FaultAfter then (Inl PgConnectionFailure, st\<lparr>pg_cluster := work\<rparr>)
      else (Inr (), st\<lparr>pg_cluster := work\<rparr>))"

section \<open>Parsing result rows\<close>

definition ParseUser :: "user_res \<Rightarrow> user" where
  "ParseUser row =
     (case row of (i, login, password, full_name) \<Rightarrow>
        User_init\<lparr>user_id := i, user_login := login, user_password := password,
                  user_full_name := full_name\<rparr>)"

definition ParseDriver :: "driver_res \<Rightarrow> driver" where
  "ParseDriver row =
     (case row of (i, uid, model, num, license, status) \<Rightarrow>
        Driver_init\<lparr>driver_id := i, driver_user_id := uid, driver_car_model := model,
                    driver_car_number := num, driver_license_number := license,
                    driver_status := status\<rparr>)"

definition ParseRide :: "ride_res \<Rightarrow> ride" where
  "ParseRide row =
     (case row of (i, passenger, did, pickup, destination, status) \<Rightarrow>
        Ride_init\<lparr>ride_id := i, ride_passenger_id := passenger, ride_driver_id := did,
                  ride_pickup_address := pickup, ride_destination_address := destination,
                  ride_status := status\<rparr>)"

text \<open>\<open>if (res.IsEmpty()) return std::nullopt; return Parse(res[0]);\<close>\<close>

definition first_row :: "('a \<Rightarrow> 'b) \<Rightarrow> 'a list \<Rightarrow> 'b option" where
  "first_row parse res = (case res of [] \<Rightarrow> None | row # _ \<Rightarrow> Some (parse row))"

text \<open>The loop that pushes every parsed row to the back of a vector.\<close>

fun parse_rows :: "('a \<Rightarrow> 'b) \<Rightarrow> 'a list \<Rightarrow> 'b list \<Rightarrow> 'b list" where
  "parse_rows parse [] acc = acc"
| "parse_rows parse (row # rows) acc = parse_rows parse rows (acc @ [parse row])"

lemma parse_rows_map: "parse_rows parse rows acc = acc @ map parse rows"
  by (induction rows arbitrary: acc) auto

section \<open>Users and tokens\<close>

definition CreateUser :: "pg_env \<Rightarrow> string \<Rightarrow> string \<Rightarrow> string \<Rightarrow> taxi_storage \<Rightarrow>
    user option result \<times> taxi_storage" where
  "CreateUser env login password full_name st =
     (case Execute env (kInsertUser (pg_now env) login password full_name) st of
        (Inr res, st') \<Rightarrow> (Inr (first_row ParseUser res), st')
      | (Inl PgUniqueViolation, st') \<Rightarrow> (Inr None, st')
      | (Inl e, st') \<Rightarrow> (Inl e, st'))"

definition GetUserById :: "pg_env \<Rightarrow> int \<Rightarrow> taxi_storage \<Rightarrow> user option result" where
  "GetUserById env i st =
     map_sum id (first_row ParseUser) (fst (Execute env (query (kSelectUserById i)) st))"

definition GetUserByLogin :: "pg_env \<Rightarrow> string \<Rightarrow> taxi_storage \<Rightarrow> user option result" where
  "GetUserByLogin env login st =
     map_sum id (first_row ParseUser) (fst (Execute env (query (kSelectUserByLogin login)) st))"

definition FindUsersByNameMask :: "pg_env \<Rightarrow> string \<Rightarrow> taxi_storage \<Rightarrow> user list result" where
  "FindUsersByNameMask env name_mask st =
     map_sum id (\<lambda>res. parse_rows ParseUser res [])
       (fst (Execute env (query (kFindUsersByMask (pg_lower env) name_mask)) st))"

definition MakeToken :: "int \<Rightarrow> int \<Rightarrow> string" where
  "MakeToken uid token_id = ''token-'' @ std_to_string uid @ ''-'' @ std_to_string token_id"

text \<open>
  \<open>next_token_id_++\<close> on the largest \<open>int\<close> overflows, which C++ leaves undefined.
\<close>

definition Login :: "pg_env \<Rightarrow> string \<Rightarrow> string \<Rightarrow> taxi_storage \<Rightarrow> string option result \<times> taxi_storage" where
  "Login env login password st =
     (case GetUserByLogin env login st of
        Inl e \<Rightarrow> (Inl e, st)
      | Inr None \<Rightarrow> (Inr None, st)
      | Inr (Some user) \<Rightarrow>
          if user_password user \<noteq> password then (Inr None, st)
          else if next_token_id st = INT_MAX then (Inl UndefinedBehaviour, st)
          else (let token = MakeToken (user_id user) (next_token_id st)
                in (Inr (Some token),
                    st\<lparr>next_token_id := next_token_id st + 1,
                       tokens := (tokens st)(token \<mapsto> user_id user)\<rparr>)))"

definition IsTokenValid :: "taxi_storage \<Rightarrow> string \<Rightarrow> bool" where
  "IsTokenValid st token \<longleftrightarrow> tokens st token \<noteq> None"

section \<open>Drivers\<close>

definition CreateDriver :: "pg_env \<Rightarrow> int \<Rightarrow> string \<Rightarrow> string \<Rightarrow> string \<Rightarrow> taxi_storage \<Rightarrow>
    driver option result \<times> taxi_storage" where
  "CreateDriver env uid car_model car_number license_number st =
     (case Execute env (kInsertDriver uid car_model car_number license_number) st of
        (Inr res, st') \<Rightarrow> (Inr (first_row ParseDriver res), st')
      | (Inl PgUniqueViolation, st') \<Rightarrow> (Inr None, st')
      | (Inl PgForeignKeyViolation, st') \<Rightarrow> (Inr None, st')
      | (Inl e, st') \<Rightarrow> (Inl e, st'))"

definition GetDriverById :: "pg_env \<Rightarrow> int \<Rightarrow> taxi_storage \<Rightarrow> driver option result" where
  "GetDriverById env i st =
     map_sum id (first_row ParseDriver) (fst (Execute env (query (kSelectDriverById i)) st))"

definition GetDriverByUserId :: "pg_env \<Rightarrow> int \<Rightarrow> taxi_storage \<Rightarrow> driver option result" where
  "GetDriverByUserId env uid st =
     map_sum id (first_row ParseDriver) (fst (Execute env (query (kSelectDriverByUserId uid)) st))"

definition GetActiveDrivers :: "pg_env \<Rightarrow> taxi_storage \<Rightarrow> driver list result" where
  "GetActiveDrivers env st =
     map_sum id (\<lambda>res. parse_rows ParseDriver res [])
       (fst (Execute env (query kSelectActiveDrivers) st))"

definition UpdateDriverStatus :: "pg_env \<Rightarrow> int \<Rightarrow> string \<Rightarrow> taxi_storage \<Rightarrow>
    driver option result \<times> taxi_storage" where
  "UpdateDriverStatus env i status st =
     (case Execute env (kUpdateDriverStatus i status) st of
        (Inr res, st') \<Rightarrow> (Inr (first_row ParseDriver res), st')
      | (Inl e, st') \<Rightarrow> (Inl e, st'))"

section \<open>Rides\<close>

definition CreateRide :: "pg_env \<Rightarrow> int \<Rightarrow> string \<Rightarrow> string \<Rightarrow> taxi_storage \<Rightarrow>
    ride option result \<times> taxi_storage" where
  "CreateRide env passenger pickup_address destination_address st =
     (case Execute env (kInsertRide (pg_now env) passenger pickup_address destination_address) st of
        (Inr res, st') \<Rightarrow> (Inr (first_row ParseRide res), st')
      | (Inl PgForeignKeyViolation, st') \<Rightarrow> (Inr None, st')
      | (Inl e, st') \<Rightarrow> (Inl e, st'))"

definition GetRideById :: "pg_env \<Rightarrow> int \<Rightarrow> taxi_storage \<Rightarrow> ride option result" where
  "GetRideById env i st =
     map_sum id (first_row ParseRide) (fst (Execute env (query (kSelectRideById i)) st))"

definition GetRidesByUserId :: "pg_env \<Rightarrow> int \<Rightarrow> taxi_storage \<Rightarrow> ride list result" where
  "GetRidesByUserId env uid st =
     map_sum id (\<lambda>res. parse_rows ParseRide res [])
       (fst (Execute env (query (kSelectRidesByUserId uid)) st))"

definition GetActiveRides :: "pg_env \<Rightarrow> taxi_storage \<Rightarrow> ride list result" where
  "GetActiveRides env st =
     map_sum id (\<lambda>res. parse_rows ParseRide res [])
       (fst (Execute env (query kSelectActiveRides) st))"

definition AcceptRide :: "pg_env \<Rightarrow> int \<Rightarrow> int \<Rightarrow> taxi_storage \<Rightarrow> ride option result \<times> taxi_storage" where
  "AcceptRide env rid did st =
     (case Begin env st of
        Inl e \<Rightarrow> (Inl e, st)
      | Inr txn \<Rightarrow>
          (let (res, work) = kAcceptRide rid did txn
           in case res of
                [] \<Rightarrow> (case Rollback env st of
                         (Inl e, st') \<Rightarrow> (Inl e, st')
                       | (Inr _, st') \<Rightarrow> (Inr None, st'))
              | row # _ \<Rightarrow> (case Commit env work st of
                         (Inl e, st') \<Rightarrow> (Inl e, st')
                       | (Inr _, st') \<Rightarrow> (Inr (Some (ParseRide row)), st'))))"

definition CompleteRide :: "pg_env \<Rightarrow> int \<Rightarrow> taxi_storage \<Rightarrow> ride option result \<times> taxi_storage" where
  "CompleteRide env rid st =
     (case Begin env st of
        Inl e \<Rightarrow> (Inl e, st)
      | Inr txn \<Rightarrow>
          (let (res, work) = kCompleteRide (pg_now env) rid txn
           in case res of
                [] \<Rightarrow> (case Rollback env st of
                         (Inl e, st') \<Rightarrow> (Inl e, st')
                       | (Inr _, st') \<Rightarrow> (Inr None, st'))
              | row # _ \<Rightarrow> (case Commit env work st of
                         (Inl e, st') \<Rightarrow> (Inl e, st')
                       | (Inr _, st') \<Rightarrow> (Inr (Some (ParseRide row)), st'))))"

lemmas read_defs =
  GetUserById_def GetUserByLogin_def FindUsersByNameMask_def GetDriverById_def
  GetDriverByUserId_def GetActiveDrivers_def GetRideById_def GetRidesByUserId_def
  GetActiveRides_def

lemmas transaction_defs = Begin_def Rollback_def Commit_def

end
