(* ===== verification/Http.thy ===== *)
theory Http
  imports TaxiStorage ResponseCache RateLimiter
begin

text \<open>
  What the request handlers see of the framework: requests, responses, the JSON library and the
  clocks. The framework and the JSON library are not part of the repository. A request gives
  its parts by name, with the empty string for a missing one, as the accessors do; the JSON
  library is a parameter: reading a text or a member may throw, and a value that the handlers
  build with \<open>ValueBuilder\<close> is printed by an unknown function.
\<close>

section \<open>Requests and responses\<close>

record request =
  request_method :: string
  GetRequestPath :: string
  GetHeader :: "string \<Rightarrow> string"
  GetArg :: "string \<Rightarrow> string"
  GetPathArg :: "string \<Rightarrow> string"
  RequestBody :: string

record response =
  resp_status :: nat
  resp_content_type :: string
  resp_headers :: "string \<rightharpoonup> string"
  resp_data :: string

definition SetStatus :: "nat \<Rightarrow> response \<Rightarrow> response" where
  "SetStatus n resp = resp\<lparr>resp_status := n\<rparr>"

definition SetContentType :: "string \<Rightarrow> response \<Rightarrow> response" where
  "SetContentType s resp = resp\<lparr>resp_content_type := s\<rparr>"

definition SetHeader :: "string \<Rightarrow> string \<Rightarrow> response \<Rightarrow> response" where
  "SetHeader h v resp = resp\<lparr>resp_headers := (resp_headers resp)(h \<mapsto> v)\<rparr>"

definition SetData :: "string \<Rightarrow> response \<Rightarrow> response" where
  "SetData s resp = resp\<lparr>resp_data := s\<rparr>"

lemmas response_defs = SetStatus_def SetContentType_def SetHeader_def SetData_def

text \<open>The response object a request starts with.\<close>

definition empty_response :: response where
  "empty_response = \<lparr>resp_status = 200, resp_content_type = [], resp_headers = Map.empty, resp_data = []\<rparr>"

section \<open>JSON\<close>

text \<open>The values the handlers build; the members of an object keep their order.\<close>

datatype jval =
    JInt int
  | JStr string
  | JArr "jval list"
  | JObj "(string \<times> jval) list"

text \<open>
  \<open>FromString\<close> parses a body, \<open>as_string\<close> and \<open>as_int\<close> stand for
  \<open>json[key].As<std::string>()\<close> and \<open>json[key].As<int>()\<close>, \<open>has_member\<close> for
  \<open>HasMember\<close>; \<open>None\<close> is an exception. \<open>ToString\<close> prints a built value.
\<close>

record 'j json_lib =
  FromString :: "string \<Rightarrow> 'j option"
  as_string :: "'j \<Rightarrow> string \<Rightarrow> string option"
  as_int :: "'j \<Rightarrow> string \<Rightarrow> int option"
  has_member :: "'j \<Rightarrow> string \<Rightarrow> bool option"
  ToString :: "jval \<Rightarrow> string"

section \<open>The state of the service\<close>

text \<open>
  The storage component, the process-wide cache of \<open>GetCache()\<close> and the process-wide limiter
  of \<open>GetRateLimiter()\<close>.
\<close>

record service =
  storage :: taxi_storage
  cache :: response_cache
  limiter :: rate_limiter

text \<open>
  The environment of one request: the readings of the steady clock by \<open>Get\<close> and by \<open>Set\<close> of
  the cache, the reading of the system clock, and the environment of the database call.
\<close>

record req_env =
  steady_get :: int
  steady_set :: int
  system_now :: int
  env_pg :: pg_env

text \<open>
  A handler changes the response it was given, returns the body or throws, and leaves the
  service in a new state.
\<close>

type_synonym 'j handler =
  "'j json_lib \<Rightarrow> req_env \<Rightarrow> request \<Rightarrow> response \<Rightarrow> service \<Rightarrow> string result \<times> response \<times> service"

definition error_body :: "'j json_lib \<Rightarrow> string \<Rightarrow> string" where
  "error_body lib msg = ToString lib (JObj [(''error'', JStr msg)])"

end
