(* ===== verification/AuthMiddleware.thy ===== *)
theory AuthMiddleware
  imports Http
begin

text \<open>
  The middleware of \<open>src/src/middlewares/auth_middleware.cpp\<close>, which every request passes
  before its handler: public paths go through, all others need a bearer token that the storage
  has issued. \<open>next\<close> stands for the rest of the pipeline, \<open>store\<close> finds the storage in the
  state of the server.
\<close>

definition StartsWith :: "string \<Rightarrow> string \<Rightarrow> bool" where
  "StartsWith value p \<longleftrightarrow> rfind value p 0 = Some 0"

definition IsPublicRequest :: "request \<Rightarrow> bool" where
  "IsPublicRequest req =
     (let path = GetRequestPath req
      in if path = ''/ping'' then True
         else if path = ''/users'' then True
         else if path = ''/auth/login'' then True
         else if path = ''/mongo/users'' then True
         else if StartsWith path ''/tests/'' then True
         else False)"

definition kBearerPrefix :: string where
  "kBearerPrefix = ''Bearer ''"

text \<open>The bodies of the two refusals, written out in the source as JSON text.\<close>

definition missing_header_body :: string where
  "missing_header_body =
     ''{'' @ [CHR 0x22] @ ''error'' @ [CHR 0x22] @ '':'' @ [CHR 0x22] @
     ''missing or invalid Authorization header'' @ [CHR 0x22] @ ''}''"

definition invalid_token_body :: string where
  "invalid_token_body =
     ''{'' @ [CHR 0x22] @ ''error'' @ [CHR 0x22] @ '':'' @ [CHR 0x22] @ ''invalid token'' @ [CHR 0x22] @ ''}''"

definition unauthorized :: "string \<Rightarrow> response \<Rightarrow> response" where
  "unauthorized body resp = SetData body (SetContentType ''application/json'' (SetStatus 401 resp))"

definition AuthMiddleware_HandleRequest ::
    "('w \<Rightarrow> taxi_storage) \<Rightarrow> (request \<Rightarrow> response \<Rightarrow> 'w \<Rightarrow> response result \<times> 'w) \<Rightarrow>
     request \<Rightarrow> response \<Rightarrow> 'w \<Rightarrow> response result \<times> 'w" where
  "AuthMiddleware_HandleRequest store next req resp w =
     (if IsPublicRequest req then next req resp w
      else
        (let auth_header = GetHeader req ''Authorization''
         in if length auth_header \<le> length kBearerPrefix \<or>
               \<not> compare_prefix auth_header (length kBearerPrefix) kBearerPrefix
            then (Inr (unauthorized missing_header_body resp), w)
            else
              (let token = substr_from auth_header (length kBearerPrefix)
               in if \<not> IsTokenValid (store w) token
                  then (Inr (unauthorized invalid_token_body resp), w)
                  else next req resp w)))"

text \<open>The token a request carries, if its header has the form the middleware accepts.\<close>

definition bearer_token :: "request \<Rightarrow> string option" where
  "bearer_token req =
     (let h = GetHeader req ''Authorization''
      in if length kBearerPrefix < length h \<and> prefix kBearerPrefix h
         then Some (drop (length kBearerPrefix) h) else None)"

definition authorized :: "taxi_storage \<Rightarrow> request \<Rightarrow> bool" where
  "authorized st req \<longleftrightarrow>
     IsPublicRequest req \<or>
     (case bearer_token req of None \<Rightarrow> False | Some token \<Rightarrow> IsTokenValid st token)"

definition refusal_body :: "request \<Rightarrow> string" where
  "refusal_body req = (if bearer_token req = None then missing_header_body else invalid_token_body)"

lemma compare_prefix_iff: "compare_prefix s (length p) p \<longleftrightarrow> prefix p s"
  by (auto simp: compare_prefix_def prefix_def) (metis append_take_drop_id)

text \<open>The middleware, in terms of who is authorized.\<close>

lemma AuthMiddleware_pass:
  "authorized (store w) req \<Longrightarrow> AuthMiddleware_HandleRequest store next req resp w = next req resp w"
  by (auto simp: AuthMiddleware_HandleRequest_def authorized_def bearer_token_def Let_def
      compare_prefix_iff substr_from_def split: if_splits)

lemma AuthMiddleware_refuse:
  "\<not> authorized (store w) req \<Longrightarrow>
   AuthMiddleware_HandleRequest store next req resp w = (Inr (unauthorized (refusal_body req) resp), w)"
  by (auto simp: refusal_body_def AuthMiddleware_HandleRequest_def authorized_def bearer_token_def Let_def
      compare_prefix_iff substr_from_def split: if_splits)

lemma IsPublicRequest_iff:
  "IsPublicRequest req \<longleftrightarrow>
     GetRequestPath req \<in> {''/ping'', ''/users'', ''/auth/login'', ''/mongo/users''} \<or>
     prefix ''/tests/'' (GetRequestPath req)"
  by (auto simp: IsPublicRequest_def StartsWith_def rfind_zero_prefix Let_def)

end
