(* ===== verification/UserHandlers.thy ===== *)
theory UserHandlers
  imports Http
begin

text \<open>
  The handlers of \<open>POST /users\<close>, \<open>GET /users\<close> and \<open>POST /auth/login\<close>
  (\<open>src/src/handlers/users_create.cpp\<close>, \<open>users_get.cpp\<close>, \<open>auth_login.cpp\<close>).
\<close>

section \<open>Bodies\<close>

definition user_json :: "user \<Rightarrow> jval" where
  "user_json u =
     JObj [(''id'', JInt (user_id u)), (''login'', JStr (user_login u)),
           (''full_name'', JStr (user_full_name u))]"

definition user_body :: "'j json_lib \<Rightarrow> user \<Rightarrow> string" where
  "user_body lib u = ToString lib (user_json u)"

text \<open>The loop that pushes one item per user to the array.\<close>

fun push_users :: "user list \<Rightarrow> jval list \<Rightarrow> jval list" where
  "push_users [] acc = acc"
| "push_users (u # us) acc = push_users us (acc @ [user_json u])"

definition users_body :: "'j json_lib \<Rightarrow> user list \<Rightarrow> string" where
  "users_body lib us = ToString lib (JArr (push_users us []))"

lemma push_users_map: "push_users us acc = acc @ map user_json us"
  by (induction us arbitrary: acc) simp_all

section \<open>POST /users\<close>

definition UsersCreate_HandleRequestThrow :: "'j handler" where
  "UsersCreate_HandleRequestThrow lib env req resp0 sv =
     (let resp = SetContentType ''application/json'' resp0
      in case FromString lib (RequestBody req) of
           None \<Rightarrow> (Inl JsonException, resp, sv)
         | Some json \<Rightarrow>
             (case (as_string lib json ''login'', as_string lib json ''password'',
                    as_string lib json ''full_name'') of
                (Some login, Some password, Some full_name) \<Rightarrow>
                  if login = [] \<or> password = [] \<or> full_name = []
                  then (Inr (error_body lib ''login, password and full_name are required''),
                        SetStatus 400 resp, sv)
                  else (case CreateUser (env_pg env) login password full_name (storage sv) of
                      (Inl e, st) \<Rightarrow> (Inl e, resp, sv\<lparr>storage := st\<rparr>)
                    | (Inr None, st) \<Rightarrow>
                        (Inr (error_body lib ''user already exists''), SetStatus 409 resp,
                         sv\<lparr>storage := st\<rparr>)
                    | (Inr (Some user), st) \<Rightarrow>
                        (Inr (user_body lib user), SetStatus 201 resp,
                         sv\<lparr>storage := st, cache := InvalidatePrefix ''users:'' (cache sv)\<rparr>))
              | _ \<Rightarrow> (Inl JsonException, resp, sv)))"

section \<open>GET /users\<close>

definition users_cache_key :: "bool \<Rightarrow> string \<Rightarrow> string \<Rightarrow> string" where
  "users_cache_key has_login login name_mask =
     (if has_login then ''users:login:'' @ login else ''users:name_mask:'' @ name_mask)"

definition UsersGet_HandleRequestThrow :: "'j handler" where
  "UsersGet_HandleRequestThrow lib env req resp0 sv =
     (let resp = SetContentType ''application/json'' resp0;
          login = GetArg req ''login'';
          name_mask = GetArg req ''name_mask'';
          has_login = (login \<noteq> []);
          has_name_mask = (name_mask \<noteq> [])
      in if has_login = has_name_mask
         then (Inr (error_body lib ''use exactly one query parameter: login or name_mask''),
               SetStatus 400 resp, sv)
         else
           (let key = users_cache_key has_login login name_mask;
                (cached, c) = CacheGet (steady_get env) key (cache sv);
                sv1 = sv\<lparr>cache := c\<rparr>
            in case cached of
                 Some body \<Rightarrow> (Inr body, SetHeader ''X-Cache'' ''HIT'' resp, sv1)
               | None \<Rightarrow>
                   (let resp1 = SetHeader ''X-Cache'' ''MISS'' resp
                    in if has_login
                       then (case GetUserByLogin (env_pg env) login (storage sv) of
                           Inl e \<Rightarrow> (Inl e, resp1, sv1)
                         | Inr None \<Rightarrow>
                             (Inr (error_body lib ''user not found''), SetStatus 404 resp1, sv1)
                         | Inr (Some user) \<Rightarrow>
                             (let body = user_body lib user
                              in (Inr body, resp1,
                                  sv1\<lparr>cache := CacheSet (steady_set env) key body 60 c\<rparr>)))
                       else (case FindUsersByNameMask (env_pg env) name_mask (storage sv) of
                           Inl e \<Rightarrow> (Inl e, resp1, sv1)
                         | Inr us \<Rightarrow>
                             (let body = users_body lib us
                              in (Inr body, resp1,
                                  sv1\<lparr>cache := CacheSet (steady_set env) key body 60 c\<rparr>))))))"

section \<open>POST /auth/login\<close>

definition token_body :: "'j json_lib \<Rightarrow> string \<Rightarrow> string" where
  "token_body lib token = ToString lib (JObj [(''token'', JStr token)])"

definition AuthLogin_HandleRequestThrow :: "'j handler" where
  "AuthLogin_HandleRequestThrow lib env req resp0 sv =
     (let resp = SetContentType ''application/json'' resp0
      in case FromString lib (RequestBody req) of
           None \<Rightarrow> (Inl JsonException, resp, sv)
         | Some json \<Rightarrow>
             (case (as_string lib json ''login'', as_string lib json ''password'') of
                (Some login, Some password) \<Rightarrow>
                  if login = [] \<or> password = []
                  then (Inr (error_body lib ''login and password are required''),
                        SetStatus 400 resp, sv)
                  else (case Login (env_pg env) login password (storage sv) of
                      (Inl e, st) \<Rightarrow> (Inl e, resp, sv\<lparr>storage := st\<rparr>)
                    | (Inr None, st) \<Rightarrow>
                        (Inr (error_body lib ''invalid credentials''), SetStatus 401 resp,
                         sv\<lparr>storage := st\<rparr>)
                    | (Inr (Some token), st) \<Rightarrow>
                        (Inr (token_body lib token), resp, sv\<lparr>storage := st\<rparr>))
              | _ \<Rightarrow> (Inl JsonException, resp, sv)))"

end
