(* ===== verification/RideHandlers.thy ===== *)
theory RideHandlers
  imports Http
begin

text \<open>
  The handlers of \<open>POST /drivers\<close>, \<open>POST /rides\<close>, \<open>GET /rides\<close>,
  \<open>PATCH /rides/{id}/accept\<close> and \<open>PATCH /rides/{id}/complete\<close>
  (\<open>drivers_create.cpp\<close>, \<open>rides_create.cpp\<close>, \<open>rides_get.cpp\<close>, \<open>rides_accept.cpp\<close>,
  \<open>rides_complete.cpp\<close> of \<open>src/src/handlers\<close>).
\<close>

section \<open>Bodies\<close>

definition driver_json :: "driver \<Rightarrow> jval" where
  "driver_json d =
     JObj [(''id'', JInt (driver_id d)), (''user_id'', JInt (driver_user_id d)),
           (''car_model'', JStr (driver_car_model d)), (''car_number'', JStr (driver_car_number d)),
           (''license_number'', JStr (driver_license_number d)), (''status'', JStr (driver_status d))]"

definition MakeRideJson :: "ride \<Rightarrow> jval" where
  "MakeRideJson r =
     JObj [(''id'', JInt (ride_id r)), (''passenger_id'', JInt (ride_passenger_id r)),
           (''driver_id'', JInt (ride_driver_id r)),
           (''pickup_address'', JStr (ride_pickup_address r)),
           (''destination_address'', JStr (ride_destination_address r)),
           (''status'', JStr (ride_status r))]"

definition driver_body :: "'j json_lib \<Rightarrow> driver \<Rightarrow> string" where
  "driver_body lib d = ToString lib (driver_json d)"

definition ride_body :: "'j json_lib \<Rightarrow> ride \<Rightarrow> string" where
  "ride_body lib r = ToString lib (MakeRideJson r)"

fun push_rides :: "ride list \<Rightarrow> jval list \<Rightarrow> jval list" where
  "push_rides [] acc = acc"
| "push_rides (r # rs) acc = push_rides rs (acc @ [MakeRideJson r])"

definition rides_body :: "'j json_lib \<Rightarrow> ride list \<Rightarrow> string" where
  "rides_body lib rs = ToString lib (JArr (push_rides rs []))"

lemma push_rides_map: "push_rides rs acc = acc @ map MakeRideJson rs"
  by (induction rs arbitrary: acc) simp_all

section \<open>POST /drivers\<close>

definition DriversCreate_HandleRequestThrow :: "'j handler" where
  "DriversCreate_HandleRequestThrow lib env req resp0 sv =
     (let resp = SetContentType ''application/json'' resp0
      in case FromString lib (RequestBody req) of
           None \<Rightarrow> (Inl JsonException, resp, sv)
         | Some json \<Rightarrow>
             (case (as_int lib json ''user_id'', as_string lib json ''car_model'',
                    as_string lib json ''car_number'', as_string lib json ''license_number'') of
                (Some uid, Some car_model, Some car_number, Some license_number) \<Rightarrow>
                  if uid \<le> 0 \<or> car_model = [] \<or> car_number = [] \<or> license_number = []
                  then (Inr (error_body lib
                          ''user_id, car_model, car_number and license_number are required''),
                        SetStatus 400 resp, sv)
                  else (case CreateDriver (env_pg env) uid car_model car_number license_number (storage sv) of
                      (Inl e, st) \<Rightarrow> (Inl e, resp, sv\<lparr>storage := st\<rparr>)
                    | (Inr None, st) \<Rightarrow>
                        (Inr (error_body lib ''driver cannot be created''), SetStatus 409 resp,
                         sv\<lparr>storage := st\<rparr>)
                    | (Inr (Some d), st) \<Rightarrow>
                        (Inr (driver_body lib d), SetStatus 201 resp,
                         sv\<lparr>storage := st, cache := InvalidatePrefix ''drivers:'' (cache sv)\<rparr>))
              | _ \<Rightarrow> (Inl JsonException, resp, sv)))"

section \<open>POST /rides\<close>

definition RidesCreate_HandleRequestThrow :: "'j handler" where
  "RidesCreate_HandleRequestThrow lib env req resp0 sv =
     (let resp = SetContentType ''application/json'' resp0
      in case FromString lib (RequestBody req) of
           None \<Rightarrow> (Inl JsonException, resp, sv)
         | Some json \<Rightarrow>
             (case (as_int lib json ''passenger_id'', as_string lib json ''pickup_address'',
                    as_string lib json ''destination_address'') of
                (Some passenger, Some pickup_address, Some destination_address) \<Rightarrow>
                  if passenger \<le> 0 \<or> pickup_address = [] \<or> destination_address = []
                  then (Inr (error_body lib
                          ''passenger_id, pickup_address and destination_address are required''),
                        SetStatus 400 resp, sv)
                  else (case CreateRide (env_pg env) passenger pickup_address destination_address (storage sv) of
                      (Inl e, st) \<Rightarrow> (Inl e, resp, sv\<lparr>storage := st\<rparr>)
                    | (Inr None, st) \<Rightarrow>
                        (Inr (error_body lib ''ride cannot be created''), SetStatus 409 resp,
                         sv\<lparr>storage := st\<rparr>)
                    | (Inr (Some r), st) \<Rightarrow>
                        (Inr (ride_body lib r), SetStatus 201 resp,
                         sv\<lparr>storage := st, cache := InvalidatePrefix ''rides:'' (cache sv)\<rparr>))
              | _ \<Rightarrow> (Inl JsonException, resp, sv)))"

section \<open>PATCH /rides/{id}/accept and PATCH /rides/{id}/complete\<close>

definition RidesAccept_HandleRequestThrow :: "'j handler" where
  "RidesAccept_HandleRequestThrow lib env req resp0 sv =
     (let resp = SetContentType ''application/json'' resp0
      in case FromString lib (RequestBody req) of
           None \<Rightarrow> (Inl JsonException, resp, sv)
         | Some json \<Rightarrow>
             (case as_int lib json ''driver_id'' of
                None \<Rightarrow> (Inl JsonException, resp, sv)
              | Some did \<Rightarrow>
                  (let ride_id_arg = GetPathArg req ''id''
                   in if ride_id_arg = []
                      then (Inr (error_body lib ''ride id is required in path''), SetStatus 400 resp, sv)
                      else (case stoi ride_id_arg of
                          Inl e \<Rightarrow> (Inl e, resp, sv)
                        | Inr rid \<Rightarrow>
                            if did \<le> 0
                            then (Inr (error_body lib ''driver_id is required''), SetStatus 400 resp, sv)
                            else (case AcceptRide (env_pg env) rid did (storage sv) of
                                (Inl e, st) \<Rightarrow> (Inl e, resp, sv\<lparr>storage := st\<rparr>)
                              | (Inr None, st) \<Rightarrow>
                                  (Inr (error_body lib ''ride cannot be accepted''), SetStatus 409 resp,
                                   sv\<lparr>storage := st\<rparr>)
                              | (Inr (Some r), st) \<Rightarrow>
                                  (Inr (ride_body lib r), resp,
                                   sv\<lparr>storage := st, cache := InvalidatePrefix ''rides:'' (cache sv)\<rparr>))))))"

definition RidesComplete_HandleRequestThrow :: "'j handler" where
  "RidesComplete_HandleRequestThrow lib env req resp0 sv =
     (let resp = SetContentType ''application/json'' resp0;
          ride_id_arg = GetPathArg req ''id''
      in if ride_id_arg = []
         then (Inr (error_body lib ''ride id is required in path''), SetStatus 400 resp, sv)
         else (case stoi ride_id_arg of
             Inl e \<Rightarrow> (Inl e, resp, sv)
           | Inr rid \<Rightarrow>
               (case CompleteRide (env_pg env) rid (storage sv) of
                   (Inl e, st) \<Rightarrow> (Inl e, resp, sv\<lparr>storage := st\<rparr>)
                 | (Inr None, st) \<Rightarrow>
                     (Inr (error_body lib ''ride cannot be completed''), SetStatus 409 resp,
                      sv\<lparr>storage := st\<rparr>)
                 | (Inr (Some r), st) \<Rightarrow>
                     (Inr (ride_body lib r), resp,
                      sv\<lparr>storage := st, cache := InvalidatePrefix ''rides:'' (cache sv)\<rparr>))))"

section \<open>GET /rides\<close>

definition kActiveRidesLimitPerMinute :: int where
  "kActiveRidesLimitPerMinute = 100"

abbreviation ACTIVE_RIDES_KEY :: string where
  "ACTIVE_RIDES_KEY \<equiv> ''GET:/rides?status=active''"

definition SetRateLimitHeaders :: "rate_limit_result \<Rightarrow> response \<Rightarrow> response" where
  "SetRateLimitHeaders r resp =
     SetHeader ''X-RateLimit-Reset'' (std_to_string (reset_epoch_seconds r))
       (SetHeader ''X-RateLimit-Remaining'' (std_to_string (remaining r))
         (SetHeader ''X-RateLimit-Limit'' (std_to_string (limit r)) resp))"

text \<open>
  The part of the handler from the construction of the key on: the lookup in the cache and, on
  a miss, the query, the body and its insertion.
\<close>

definition RidesGet_cached :: "'j json_lib \<Rightarrow> req_env \<Rightarrow> bool \<Rightarrow> string \<Rightarrow> response \<Rightarrow> service \<Rightarrow>
    string result \<times> response \<times> service" where
  "RidesGet_cached lib env is_history_query user_id_arg resp sv =
     (let key = (if is_history_query then ''rides:history:'' @ user_id_arg else ''rides:active'');
          (cached, c) = CacheGet (steady_get env) key (cache sv);
          sv1 = sv\<lparr>cache := c\<rparr>
      in case cached of
           Some body \<Rightarrow> (Inr body, SetHeader ''X-Cache'' ''HIT'' resp, sv1)
         | None \<Rightarrow>
             (let resp1 = SetHeader ''X-Cache'' ''MISS'' resp
              in if is_history_query
                 then (case stoi user_id_arg of
                     Inl e \<Rightarrow> (Inl e, resp1, sv1)
                   | Inr uid \<Rightarrow>
                       (case GetRidesByUserId (env_pg env) uid (storage sv) of
                           Inl e \<Rightarrow> (Inl e, resp1, sv1)
                         | Inr rs \<Rightarrow>
                             (let body = rides_body lib rs
                              in (Inr body, resp1,
                                  sv1\<lparr>cache := CacheSet (steady_set env) key body 60 c\<rparr>))))
                 else (case GetActiveRides (env_pg env) (storage sv) of
                     Inl e \<Rightarrow> (Inl e, resp1, sv1)
                   | Inr rs \<Rightarrow>
                       (let body = rides_body lib rs
                        in (Inr body, resp1,
                            sv1\<lparr>cache := CacheSet (steady_set env) key body 15 c\<rparr>)))))"

definition RidesGet_HandleRequestThrow :: "'j handler" where
  "RidesGet_HandleRequestThrow lib env req resp0 sv =
     (let resp = SetContentType ''application/json'' resp0;
          user_id_arg = GetArg req ''user_id'';
          status = GetArg req ''status'';
          is_history_query = (user_id_arg \<noteq> []);
          is_active_query = (user_id_arg = [] \<and> status = ''active'')
      in if \<not> is_history_query \<and> \<not> is_active_query
         then (Inr (error_body lib ''user_id or status=active query parameter is required''),
               SetStatus 400 resp, sv)
         else if is_active_query
         then (case Check (system_now env) ACTIVE_RIDES_KEY kActiveRidesLimitPerMinute 60 (limiter sv) of
             (Inl e, rl) \<Rightarrow> (Inl e, resp, sv\<lparr>limiter := rl\<rparr>)
           | (Inr r, rl) \<Rightarrow>
               (let resp1 = SetRateLimitHeaders r resp; sv1 = sv\<lparr>limiter := rl\<rparr>
                in if \<not> allowed r
                   then (Inr (error_body lib ''too many requests''),
                         SetStatus 429 (SetHeader ''Retry-After'' ''60'' resp1), sv1)
                   else RidesGet_cached lib env is_history_query user_id_arg resp1 sv1))
         else RidesGet_cached lib env is_history_query user_id_arg resp sv)"

end
