(* ===== verification/MongoHandlers.thy ===== *)
theory MongoHandlers
  imports Http
begin

text \<open>
  The handlers of \<open>POST /mongo/users\<close> and \<open>GET /mongo/users\<close>
  (\<open>src/src/handlers/mongo_users_create.cpp\<close>, \<open>mongo_users_get.cpp\<close>). The MongoDB driver is
  not part of the repository: the state of the collection, its queries and insertion and the
  access to the documents it returns are parameters, each of which may throw.
\<close>

section \<open>Documents and the driver\<close>

text \<open>The documents the handlers build with \<open>MakeDoc\<close> and \<open>MakeArray\<close>.\<close>

datatype bson =
    BStr string
  | BDate int
  | BArr "bson list"
  | BDoc "(string \<times> bson) list"

record ('m, 'd) mongo_lib =
  FindOne :: "'m \<Rightarrow> bson \<Rightarrow> 'd option result"
  Find :: "'m \<Rightarrow> bson \<Rightarrow> 'd list result"
  InsertOne :: "'m \<Rightarrow> bson \<Rightarrow> unit result \<times> 'm"
  doc_HasMember :: "'d \<Rightarrow> string \<Rightarrow> bool result"
  doc_string :: "'d \<Rightarrow> string \<Rightarrow> string result"
  doc_sub :: "'d \<Rightarrow> string \<Rightarrow> 'd result"

text \<open>A body written in the source as JSON text: \<open>{"error":"msg"}\<close>.\<close>

definition raw_error :: "string \<Rightarrow> string" where
  "raw_error msg =
     ''{'' @ [CHR 0x22] @ ''error'' @ [CHR 0x22] @ '':'' @ [CHR 0x22] @ msg @ [CHR 0x22] @ ''}''"

section \<open>POST /mongo/users\<close>

text \<open>A full match of \<open>^[a-z0-9._-]+$\<close>.\<close>

definition login_char :: "char \<Rightarrow> bool" where
  "login_char c \<longleftrightarrow>
     (97 \<le> (of_char c :: nat) \<and> (of_char c :: nat) \<le> 122) \<or>
     (48 \<le> (of_char c :: nat) \<and> (of_char c :: nat) \<le> 57) \<or>
     c = CHR ''.'' \<or> c = CHR ''_'' \<or> c = CHR ''-''"

definition IsValidLogin :: "string \<Rightarrow> bool" where
  "IsValidLogin login \<longleftrightarrow> login \<noteq> [] \<and> list_all login_char login"

text \<open>\<open>!HasMember(a) || !HasMember(b) || ...\<close>, from the left: \<open>Some True\<close> when none is missing.\<close>

fun has_members :: "'j json_lib \<Rightarrow> 'j \<Rightarrow> string list \<Rightarrow> bool option" where
  "has_members lib json [] = Some True"
| "has_members lib json (k # ks) =
     (case has_member lib json k of
        None \<Rightarrow> None
      | Some False \<Rightarrow> Some False
      | Some True \<Rightarrow> has_members lib json ks)"

text \<open>A default, replaced by the member when the body has it.\<close>

definition optional_member :: "'j json_lib \<Rightarrow> 'j \<Rightarrow> string \<Rightarrow> string \<Rightarrow> string option" where
  "optional_member lib json key dflt =
     (case has_member lib json key of
        None \<Rightarrow> None
      | Some False \<Rightarrow> Some dflt
      | Some True \<Rightarrow> as_string lib json key)"

definition login_query :: "string \<Rightarrow> bson" where
  "login_query login = BDoc [(''login'', BStr login)]"

definition mongo_user_doc :: "string \<Rightarrow> string \<Rightarrow> string \<Rightarrow> string \<Rightarrow> int \<Rightarrow> string \<Rightarrow> string \<Rightarrow> string \<Rightarrow> bson" where
  "mongo_user_doc login password first_name last_name now status email phone =
     BDoc [(''login'', BStr login), (''password'', BStr password),
           (''first_name'', BStr first_name), (''last_name'', BStr last_name),
           (''created_at'', BDate now), (''status'', BStr status),
           (''profile'', BDoc [(''email'', BStr email), (''phone'', BStr phone)])]"

definition mongo_created_json :: "string \<Rightarrow> string \<Rightarrow> string \<Rightarrow> string \<Rightarrow> string \<Rightarrow> string \<Rightarrow> jval" where
  "mongo_created_json login first_name last_name status email phone =
     JObj [(''login'', JStr login), (''first_name'', JStr first_name),
           (''last_name'', JStr last_name), (''status'', JStr status),
           (''profile'', JObj [(''email'', JStr email), (''phone'', JStr phone)]),
           (''source'', JStr ''mongo'')]"

text \<open>
  The part after validation: the check for the login, the insertion and the answer. \<open>None\<close>
  is an exception that leaves it; the state of the collection is kept.
\<close>

definition mongo_insert :: "'j json_lib \<Rightarrow> ('m, 'd) mongo_lib \<Rightarrow> int \<Rightarrow> string \<Rightarrow> string \<Rightarrow> string \<Rightarrow>
    string \<Rightarrow> string \<Rightarrow> string \<Rightarrow> string \<Rightarrow> response \<Rightarrow> 'm \<Rightarrow> (string \<times> response) option \<times> 'm" where
  "mongo_insert lib ml now login password first_name last_name status email phone resp m =
     (case FindOne ml m (login_query login) of
        Inl e \<Rightarrow> (None, m)
      | Inr (Some d) \<Rightarrow> (Some (raw_error ''mongo user already exists'', SetStatus 409 resp), m)
      | Inr None \<Rightarrow>
          (case InsertOne ml m
              (mongo_user_doc login password first_name last_name now status email phone) of
             (Inl e, m') \<Rightarrow> (None, m')
           | (Inr _, m') \<Rightarrow>
               (Some (ToString lib (mongo_created_json login first_name last_name status email phone),
                      SetStatus 201 resp), m')))"

text \<open>The body of the second \<open>try\<close>.\<close>

definition mongo_create_body :: "'j json_lib \<Rightarrow> ('m, 'd) mongo_lib \<Rightarrow> int \<Rightarrow> 'j \<Rightarrow> response \<Rightarrow> 'm \<Rightarrow>
    (string \<times> response) option \<times> 'm" where
  "mongo_create_body lib ml now body resp m =
     (case has_members lib body [''login'', ''password'', ''first_name'', ''last_name''] of
        None \<Rightarrow> (None, m)
      | Some False \<Rightarrow>
          (Some (raw_error ''login, password, first_name and last_name are required'',
                 SetStatus 400 resp), m)
      | Some True \<Rightarrow>
          (case (as_string lib body ''login'', as_string lib body ''password'',
                 as_string lib body ''first_name'', as_string lib body ''last_name'') of
             (Some login, Some password, Some first_name, Some last_name) \<Rightarrow>
               if login = [] \<or> password = [] \<or> first_name = [] \<or> last_name = []
               then (Some (raw_error ''fields must not be empty'', SetStatus 400 resp), m)
               else if \<not> IsValidLogin login
               then (Some (raw_error ''login must contain only a-z, 0-9, ., _, -'',
                           SetStatus 400 resp), m)
               else if length password < 6
               then (Some (raw_error ''password must be at least 6 characters'',
                           SetStatus 400 resp), m)
               else (case optional_member lib body ''status'' ''active'' of
                   None \<Rightarrow> (None, m)
                 | Some status \<Rightarrow>
                     if status \<noteq> ''active'' \<and> status \<noteq> ''blocked''
                     then (Some (raw_error ''status must be active or blocked'',
                                 SetStatus 400 resp), m)
                     else (case (optional_member lib body ''email'' (login @ ''@example.com''),
                                 optional_member lib body ''phone'' ''+79990000000'') of
                         (Some email, Some phone) \<Rightarrow>
                           mongo_insert lib ml now login password first_name last_name status
                             email phone resp m
                       | _ \<Rightarrow> (None, m)))
           | _ \<Rightarrow> (None, m)))"

definition MongoUsersCreate_HandleRequestThrow ::
    "'j json_lib \<Rightarrow> ('m, 'd) mongo_lib \<Rightarrow> req_env \<Rightarrow> request \<Rightarrow> response \<Rightarrow> 'm \<Rightarrow>
     string \<times> response \<times> 'm" where
  "MongoUsersCreate_HandleRequestThrow lib ml env req resp0 m =
     (let resp = SetContentType ''application/json'' resp0
      in case FromString lib (RequestBody req) of
           None \<Rightarrow> (raw_error ''invalid json'', SetStatus 400 resp, m)
         | Some body \<Rightarrow>
             (case mongo_create_body lib ml (system_now env) body resp m of
                (Some (out, resp'), m') \<Rightarrow> (out, resp', m')
              | (None, m') \<Rightarrow> (raw_error ''failed to create mongo user'', SetStatus 500 resp, m')))"

section \<open>GET /mongo/users\<close>

text \<open>One optional text member of a document, copied under its own name.\<close>

definition copy_member :: "('m, 'd) mongo_lib \<Rightarrow> 'd \<Rightarrow> string \<Rightarrow> (string \<times> jval) list result" where
  "copy_member ml doc key =
     (case doc_HasMember ml doc key of
        Inl e \<Rightarrow> Inl e
      | Inr False \<Rightarrow> Inr []
      | Inr True \<Rightarrow> (case doc_string ml doc key of Inl e \<Rightarrow> Inl e | Inr s \<Rightarrow> Inr [(key, JStr s)]))"

fun copy_members :: "('m, 'd) mongo_lib \<Rightarrow> 'd \<Rightarrow> string list \<Rightarrow> (string \<times> jval) list result" where
  "copy_members ml doc [] = Inr []"
| "copy_members ml doc (k # ks) =
     (case copy_member ml doc k of
        Inl e \<Rightarrow> Inl e
      | Inr x \<Rightarrow> (case copy_members ml doc ks of Inl e \<Rightarrow> Inl e | Inr y \<Rightarrow> Inr (x @ y)))"

text \<open>\<open>builder["profile"]\<close> comes into being with its first member.\<close>

definition copy_profile :: "('m, 'd) mongo_lib \<Rightarrow> 'd \<Rightarrow> (string \<times> jval) list result" where
  "copy_profile ml doc =
     (case doc_HasMember ml doc ''profile'' of
        Inl e \<Rightarrow> Inl e
      | Inr False \<Rightarrow> Inr []
      | Inr True \<Rightarrow>
          (case doc_sub ml doc ''profile'' of
             Inl e \<Rightarrow> Inl e
           | Inr profile \<Rightarrow>
               (case copy_members ml profile [''email'', ''phone''] of
                  Inl e \<Rightarrow> Inl e
                | Inr [] \<Rightarrow> Inr []
                | Inr ms \<Rightarrow> Inr [(''profile'', JObj ms)])))"

definition MakeUserJson :: "('m, 'd) mongo_lib \<Rightarrow> 'd \<Rightarrow> jval result" where
  "MakeUserJson ml doc =
     (case copy_members ml doc [''login'', ''first_name'', ''last_name'', ''status''] of
        Inl e \<Rightarrow> Inl e
      | Inr ms \<Rightarrow>
          (case copy_profile ml doc of
             Inl e \<Rightarrow> Inl e
           | Inr ps \<Rightarrow> Inr (JObj (ms @ ps @ [(''source'', JStr ''mongo'')]))))"

fun push_docs :: "('m, 'd) mongo_lib \<Rightarrow> 'd list \<Rightarrow> jval list \<Rightarrow> jval list result" where
  "push_docs ml [] acc = Inr acc"
| "push_docs ml (d # ds) acc =
     (case MakeUserJson ml d of Inl e \<Rightarrow> Inl e | Inr j \<Rightarrow> push_docs ml ds (acc @ [j]))"

definition name_query :: "string \<Rightarrow> bson" where
  "name_query name_mask =
     (let regex = BDoc [(''$regex'', BStr name_mask), (''$options'', BStr ''i'')]
      in BDoc [(''$or'', BArr [BDoc [(''first_name'', regex)], BDoc [(''last_name'', regex)]])])"

definition mongo_get_body :: "'j json_lib \<Rightarrow> ('m, 'd) mongo_lib \<Rightarrow> string \<Rightarrow> string \<Rightarrow> response \<Rightarrow> 'm \<Rightarrow>
    (string \<times> response) option" where
  "mongo_get_body lib ml login name_mask resp m =
     (if login \<noteq> []
      then (case FindOne ml m (login_query login) of
          Inl e \<Rightarrow> None
        | Inr None \<Rightarrow> Some (raw_error ''mongo user not found'', SetStatus 404 resp)
        | Inr (Some d) \<Rightarrow>
            (case MakeUserJson ml d of
               Inl e \<Rightarrow> None
             | Inr j \<Rightarrow> Some (ToString lib j, SetStatus 200 resp)))
      else (case Find ml m (name_query name_mask) of
          Inl e \<Rightarrow> None
        | Inr ds \<Rightarrow>
            (case push_docs ml ds [] of
               Inl e \<Rightarrow> None
             | Inr js \<Rightarrow> Some (ToString lib (JArr js), SetStatus 200 resp))))"

definition MongoUsersGet_HandleRequestThrow ::
    "'j json_lib \<Rightarrow> ('m, 'd) mongo_lib \<Rightarrow> request \<Rightarrow> response \<Rightarrow> 'm \<Rightarrow> string \<times> response" where
  "MongoUsersGet_HandleRequestThrow lib ml req resp0 m =
     (let resp = SetContentType ''application/json'' resp0;
          login = GetArg req ''login'';
          name_mask = GetArg req ''name_mask'';
          has_login = (login \<noteq> []);
          has_name_mask = (name_mask \<noteq> [])
      in if has_login = has_name_mask
         then (raw_error ''use exactly one query parameter: login or name_mask'', SetStatus 400 resp)
         else (case mongo_get_body lib ml login name_mask resp m of
             Some out \<Rightarrow> out
           | None \<Rightarrow> (raw_error ''failed to read mongo users'', SetStatus 500 resp)))"

end
