(* ===== verification/Server.thy ===== *)
theory Server
  imports AuthMiddleware UserHandlers RideHandlers MongoHandlers
begin

text \<open>
  The service as a whole: the state of all components, the endpoints of
  \<open>src/configs/static_config.yaml\<close> with their handlers, and one request through the
  middleware to its handler. The router of the framework is a parameter, and so are the
  handlers the framework brings (ping and the test control).
\<close>

section \<open>State\<close>

record 'm server =
  svc :: service
  mongo_users :: 'm

definition service_init :: "database \<Rightarrow> service" where
  "service_init db =
     \<lparr>storage = TaxiStorage_ctor db, cache = ResponseCache_init, limiter = RateLimiter_init\<rparr>"

definition server_init :: "database \<Rightarrow> 'm \<Rightarrow> 'm server" where
  "server_init db m = \<lparr>svc = service_init db, mongo_users = m\<rparr>"

text \<open>The database behind a server, and its storage.\<close>

definition server_db :: "'m server \<Rightarrow> database" where
  "server_db s = pg_cluster (storage (svc s))"

definition server_storage :: "'m server \<Rightarrow> taxi_storage" where
  "server_storage s = storage (svc s)"

section \<open>Endpoints\<close>

text \<open>The components appended in \<open>main.cpp\<close> that answer requests.\<close>

datatype endpoint =
    EP_UsersCreate | EP_UsersGet | EP_AuthLogin | EP_DriversCreate | EP_RidesCreate | EP_RidesGet
  | EP_RidesAccept | EP_RidesComplete | EP_MongoUsersCreate | EP_MongoUsersGet

text \<open>The external parts: JSON, the driver of MongoDB, the router and the framework's handlers.\<close>

record ('j, 'm, 'd) platform =
  pf_json :: "'j json_lib"
  pf_mongo :: "('m, 'd) mongo_lib"
  pf_route :: "request \<Rightarrow> endpoint option"
  pf_framework :: "request \<Rightarrow> response \<Rightarrow> response result"

text \<open>The framework puts the body a handler returned into the response.\<close>

definition finish :: "string result \<Rightarrow> response \<Rightarrow> response result" where
  "finish r resp = (case r of Inl e \<Rightarrow> Inl e | Inr body \<Rightarrow> Inr (SetData body resp))"

definition run_sql :: "'j handler \<Rightarrow> 'j json_lib \<Rightarrow> req_env \<Rightarrow> request \<Rightarrow> response \<Rightarrow> 'm server \<Rightarrow>
    response result \<times> 'm server" where
  "run_sql h lib env req resp s =
     (let (r, resp', sv) = h lib env req resp (svc s) in (finish r resp', s\<lparr>svc := sv\<rparr>))"

fun sql_handler :: "endpoint \<Rightarrow> 'j handler option" where
  "sql_handler EP_UsersCreate = Some UsersCreate_HandleRequestThrow"
| "sql_handler EP_UsersGet = Some UsersGet_HandleRequestThrow"
| "sql_handler EP_AuthLogin = Some AuthLogin_HandleRequestThrow"
| "sql_handler EP_DriversCreate = Some DriversCreate_HandleRequestThrow"
| "sql_handler EP_RidesCreate = Some RidesCreate_HandleRequestThrow"
| "sql_handler EP_RidesGet = Some RidesGet_HandleRequestThrow"
| "sql_handler EP_RidesAccept = Some RidesAccept_HandleRequestThrow"
| "sql_handler EP_RidesComplete = Some RidesComplete_HandleRequestThrow"
| "sql_handler EP_MongoUsersCreate = None"
| "sql_handler EP_MongoUsersGet = None"

definition dispatch :: "('j, 'm, 'd) platform \<Rightarrow> req_env \<Rightarrow> request \<Rightarrow> response \<Rightarrow> 'm server \<Rightarrow>
    response result \<times> 'm server" where
  "dispatch pf env req resp s =
     (case pf_route pf req of
        None \<Rightarrow> (pf_framework pf req resp, s)
      | Some ep \<Rightarrow>
          (case sql_handler ep of
             Some h \<Rightarrow> run_sql h (pf_json pf) env req resp s
           | None \<Rightarrow>
               if ep = EP_MongoUsersCreate
               then (let (body, resp', m) =
                       MongoUsersCreate_HandleRequestThrow (pf_json pf) (pf_mongo pf) env req resp (mongo_users s)
                     in (Inr (SetData body resp'), s\<lparr>mongo_users := m\<rparr>))
               else (let (body, resp') =
                       MongoUsersGet_HandleRequestThrow (pf_json pf) (pf_mongo pf) req resp (mongo_users s)
                     in (Inr (SetData body resp'), s))))"

text \<open>One request: the middleware, then the handler the router chose.\<close>

definition handle :: "('j, 'm, 'd) platform \<Rightarrow> req_env \<Rightarrow> request \<Rightarrow> 'm server \<Rightarrow>
    response result \<times> 'm server" where
  "handle pf env req s =
     AuthMiddleware_HandleRequest server_storage (dispatch pf env) req empty_response s"

type_synonym operation = "req_env \<times> request"

definition server_step :: "('j, 'm, 'd) platform \<Rightarrow> operation \<Rightarrow> 'm server \<Rightarrow> 'm server" where
  "server_step pf op s = snd (handle pf (fst op) (snd op) s)"

text \<open>The states the service passes through while it answers a list of requests.\<close>

definition server_run :: "('j, 'm, 'd) platform \<Rightarrow> operation list \<Rightarrow> 'm server \<Rightarrow> 'm server" where
  "server_run pf ops s = fold (server_step pf) ops s"

section \<open>The configured paths\<close>

text \<open>
  The paths of \<open>static_config.yaml\<close>; the framework also accepts one trailing slash. A path
  argument stands for any text here, which makes what is required of the router weaker.
\<close>

definition fixed_path :: "string \<Rightarrow> string \<Rightarrow> bool" where
  "fixed_path p path \<longleftrightarrow> path = p \<or> path = p @ ''/''"

definition ride_path :: "string \<Rightarrow> string \<Rightarrow> bool" where
  "ride_path action path \<longleftrightarrow>
     prefix ''/rides/'' path \<and> (suffix (''/'' @ action) path \<or> suffix (''/'' @ action @ ''/'') path)"

fun endpoint_path :: "endpoint \<Rightarrow> string \<Rightarrow> bool" where
  "endpoint_path EP_UsersCreate = fixed_path ''/users''"
| "endpoint_path EP_UsersGet = fixed_path ''/users''"
| "endpoint_path EP_AuthLogin = fixed_path ''/auth/login''"
| "endpoint_path EP_DriversCreate = fixed_path ''/drivers''"
| "endpoint_path EP_RidesCreate = fixed_path ''/rides''"
| "endpoint_path EP_RidesGet = fixed_path ''/rides''"
| "endpoint_path EP_RidesAccept = ride_path ''accept''"
| "endpoint_path EP_RidesComplete = ride_path ''complete''"
| "endpoint_path EP_MongoUsersCreate = fixed_path ''/mongo/users''"
| "endpoint_path EP_MongoUsersGet = fixed_path ''/mongo/users''"

definition routes_as_configured :: "(request \<Rightarrow> endpoint option) \<Rightarrow> bool" where
  "routes_as_configured rt \<longleftrightarrow>
     (\<forall>req ep. rt req = Some ep \<longrightarrow> endpoint_path ep (GetRequestPath req))"

fun protected_endpoint :: "endpoint \<Rightarrow> bool" where
  "protected_endpoint EP_DriversCreate = True"
| "protected_endpoint EP_RidesCreate = True"
| "protected_endpoint EP_RidesGet = True"
| "protected_endpoint EP_RidesAccept = True"
| "protected_endpoint EP_RidesComplete = True"
| "protected_endpoint _ = False"

lemma protected_not_public:
  assumes "routes_as_configured rt" and "rt req = Some ep" and "protected_endpoint ep"
  shows "\<not> IsPublicRequest req"
proof -
  from assms have "endpoint_path ep (GetRequestPath req)"
    by (simp add: routes_as_configured_def)
  with assms(3) show ?thesis
    by (cases ep) (auto simp: IsPublicRequest_iff fixed_path_def ride_path_def prefix_def)
qed

lemma handle_cases:
  obtains (Passed) "authorized (server_storage s) req"
      "handle pf env req s = dispatch pf env req empty_response s"
    | (Refused) "\<not> authorized (server_storage s) req"
      "handle pf env req s = (Inr (unauthorized (refusal_body req) empty_response), s)"
  using AuthMiddleware_pass [of server_storage s req] AuthMiddleware_refuse [of server_storage s req]
  unfolding handle_def by metis

end
