(* ===== verification/StorageFacts.thy ===== *)
theory StorageFacts
  imports TaxiStorage
begin

text \<open>
  What each operation of the storage does to the state and what it answers, by cases over its
  branches and over the faults of the connection. The handlers, the invariants of the server
  and the coherence of the cache all rest on these lemmas.
\<close>

section \<open>Frames\<close>

definition same_tables :: "database \<Rightarrow> database \<Rightarrow> bool" where
  "same_tables db db' \<longleftrightarrow> users db' = users db \<and> drivers db' = drivers db \<and> rides db' = rides db"

lemma same_tables_refl [simp]: "same_tables db db"
  by (simp add: same_tables_def)

lemma same_tables_seq [simp]:
  "same_tables db (db\<lparr>users_id_seq := n\<rparr>)" "same_tables db (db\<lparr>drivers_id_seq := n\<rparr>)"
  "same_tables db (db\<lparr>rides_id_seq := n\<rparr>)"
  by (simp_all add: same_tables_def)

lemma same_tables_users: "same_tables db db' \<Longrightarrow> users db' = users db"
  and same_tables_drivers: "same_tables db db' \<Longrightarrow> drivers db' = drivers db"
  and same_tables_rides: "same_tables db db' \<Longrightarrow> rides db' = rides db"
  by (simp_all add: same_tables_def)

text \<open>The token part of the state is only written by \<open>Login\<close>.\<close>

lemma Execute_tokens:
  "Execute env stmt st = (res, st') \<Longrightarrow> tokens st' = tokens st \<and> next_token_id st' = next_token_id st"
  by (auto simp: Execute_def Let_def split: pg_fault.splits prod.splits)

lemma CreateUser_tokens [frame_simps]:
  "CreateUser env l p f st = (res, st') \<Longrightarrow> tokens st' = tokens st \<and> next_token_id st' = next_token_id st"
  by (auto simp: CreateUser_def split: prod.splits sum.splits exn.splits dest: Execute_tokens)

lemma CreateDriver_tokens [frame_simps]:
  "CreateDriver env u m n l st = (res, st') \<Longrightarrow> tokens st' = tokens st \<and> next_token_id st' = next_token_id st"
  by (auto simp: CreateDriver_def split: prod.splits sum.splits exn.splits dest: Execute_tokens)

lemma CreateRide_tokens [frame_simps]:
  "CreateRide env u p d st = (res, st') \<Longrightarrow> tokens st' = tokens st \<and> next_token_id st' = next_token_id st"
  by (auto simp: CreateRide_def split: prod.splits sum.splits exn.splits dest: Execute_tokens)

lemma AcceptRide_tokens [frame_simps]:
  "AcceptRide env r d st = (res, st') \<Longrightarrow> tokens st' = tokens st \<and> next_token_id st' = next_token_id st"
  by (auto simp: AcceptRide_def transaction_defs Let_def split: sum.splits prod.splits list.splits if_splits)

lemma CompleteRide_tokens [frame_simps]:
  "CompleteRide env r st = (res, st') \<Longrightarrow> tokens st' = tokens st \<and> next_token_id st' = next_token_id st"
  by (auto simp: CompleteRide_def transaction_defs Let_def split: sum.splits prod.splits list.splits if_splits)

lemma Login_pg_cluster [frame_simps]:
  "Login env l p st = (res, st') \<Longrightarrow> pg_cluster st' = pg_cluster st"
  by (auto simp: Login_def Let_def split: sum.splits option.splits if_splits)

section \<open>Reads\<close>

lemma Execute_query:
  "fst (Execute env (query f) st) =
     (if pg_fault env = NoFault then Inr (f (pg_cluster st)) else Inl PgConnectionFailure)"
  by (simp add: Execute_def query_def split: pg_fault.split)

lemma read_results:
  "GetUserById env i st =
     (if pg_fault env = NoFault then Inr (first_row ParseUser (kSelectUserById i (pg_cluster st)))
      else Inl PgConnectionFailure)"
  "GetUserByLogin env login st =
     (if pg_fault env = NoFault then Inr (first_row ParseUser (kSelectUserByLogin login (pg_cluster st)))
      else Inl PgConnectionFailure)"
  "FindUsersByNameMask env name_mask st =
     (if pg_fault env = NoFault
      then Inr (map ParseUser (kFindUsersByMask (pg_lower env) name_mask (pg_cluster st)))
      else Inl PgConnectionFailure)"
  "GetDriverById env i st =
     (if pg_fault env = NoFault then Inr (first_row ParseDriver (kSelectDriverById i (pg_cluster st)))
      else Inl PgConnectionFailure)"
  "GetDriverByUserId env i st =
     (if pg_fault env = NoFault then Inr (first_row ParseDriver (kSelectDriverByUserId i (pg_cluster st)))
      else Inl PgConnectionFailure)"
  "GetActiveDrivers env st =
     (if pg_fault env = NoFault then Inr (map ParseDriver (kSelectActiveDrivers (pg_cluster st)))
      else Inl PgConnectionFailure)"
  "GetRideById env i st =
     (if pg_fault env = NoFault then Inr (first_row ParseRide (kSelectRideById i (pg_cluster st)))
      else Inl PgConnectionFailure)"
  "GetRidesByUserId env i st =
     (if pg_fault env = NoFault then Inr (map ParseRide (kSelectRidesByUserId i (pg_cluster st)))
      else Inl PgConnectionFailure)"
  "GetActiveRides env st =
     (if pg_fault env = NoFault then Inr (map ParseRide (kSelectActiveRides (pg_cluster st)))
      else Inl PgConnectionFailure)"
  by (simp_all add: read_defs Execute_query parse_rows_map)

section \<open>Inserts\<close>

text \<open>
  An insert either answers without a row and leaves the tables alone, or it appended the row;
  then it answers with the row, unless the connection was lost after the server applied it.
\<close>

lemma CreateUser_cases:
  assumes "CreateUser env login password full_name st = (res, st')"
  obtains (None) "same_tables (pg_cluster st) (pg_cluster st')" "\<And>u. res \<noteq> Inr (Some u)"
    | (Ok) row where "users (pg_cluster st') = users (pg_cluster st) @ [row]"
        "drivers (pg_cluster st') = drivers (pg_cluster st)" "rides (pg_cluster st') = rides (pg_cluster st)"
        "users_columns login password full_name = Inr (ur_login row, ur_password row, ur_full_name row)"
        "ur_id row = users_id_seq (pg_cluster st)"
        "res = Inr (Some (ParseUser (select_user row))) \<and> pg_fault env = NoFault \<or>
         res = Inl PgConnectionFailure \<and> pg_fault env = FaultAfter"
proof -
  obtain r db where ins: "kInsertUser (pg_now env) login password full_name (pg_cluster st) = (r, db)"
    by fastforce
  from ins show thesis
  proof (cases rule: kInsertUser_cases)
    case (Fail e)
    with assms ins show thesis
      by (intro None) (auto simp: CreateUser_def Execute_def split: pg_fault.splits exn.splits)
  next
    case (Ok row)
    with assms ins show thesis
      by (cases "pg_fault env") (auto simp: CreateUser_def Execute_def first_row_def intro: None that(2))
  qed
qed

lemma CreateDriver_cases:
  assumes "CreateDriver env uid m n l st = (res, st')"
  obtains (None) "same_tables (pg_cluster st) (pg_cluster st')" "\<And>u. res \<noteq> Inr (Some u)"
    | (Ok) row where "drivers (pg_cluster st') = drivers (pg_cluster st) @ [row]"
        "users (pg_cluster st') = users (pg_cluster st)" "rides (pg_cluster st') = rides (pg_cluster st)"
        "drivers_columns m n l = Inr (dr_car_model row, dr_car_number row, dr_license_number row)"
        "dr_id row = drivers_id_seq (pg_cluster st)" "dr_user_id row = uid" "dr_status row = ''online''"
        "res = Inr (Some (ParseDriver (select_driver row))) \<and> pg_fault env = NoFault \<or>
         res = Inl PgConnectionFailure \<and> pg_fault env = FaultAfter"
proof -
  obtain r db where ins: "kInsertDriver uid m n l (pg_cluster st) = (r, db)"
    by fastforce
  from ins show thesis
  proof (cases rule: kInsertDriver_cases)
    case (Fail e)
    with assms ins show thesis
      by (intro None) (auto simp: CreateDriver_def Execute_def split: pg_fault.splits exn.splits)
  next
    case (Ok row)
    with assms ins show thesis
      by (cases "pg_fault env") (auto simp: CreateDriver_def Execute_def first_row_def intro: None that(2))
  qed
qed

lemma CreateRide_cases:
  assumes "CreateRide env passenger p d st = (res, st')"
  obtains (None) "same_tables (pg_cluster st) (pg_cluster st')" "\<And>u. res \<noteq> Inr (Some u)"
    | (Ok) row where "rides (pg_cluster st') = rides (pg_cluster st) @ [row]"
        "users (pg_cluster st') = users (pg_cluster st)" "drivers (pg_cluster st') = drivers (pg_cluster st)"
        "rides_columns p d = Inr (rr_pickup_address row, rr_destination_address row)"
        "rr_id row = rides_id_seq (pg_cluster st)" "rr_passenger_id row = passenger"
        "rr_driver_id row = None" "rr_status row = ''searching''" "rr_completed_at row = None"
        "rr_created_at row = pg_now env"
        "res = Inr (Some (ParseRide (select_ride row))) \<and> pg_fault env = NoFault \<or>
         res = Inl PgConnectionFailure \<and> pg_fault env = FaultAfter"
proof -
  obtain r db where ins: "kInsertRide (pg_now env) passenger p d (pg_cluster st) = (r, db)"
    by fastforce
  from ins show thesis
  proof (cases rule: kInsertRide_cases)
    case (Fail e)
    with assms ins show thesis
      by (intro None) (auto simp: CreateRide_def Execute_def split: pg_fault.splits exn.splits)
  next
    case (Ok row)
    with assms ins show thesis
      by (cases "pg_fault env") (auto simp: CreateRide_def Execute_def first_row_def intro: None that(2))
  qed
qed

section \<open>The schema invariant over the operations\<close>

lemma Execute_inv:
  assumes "db_inv (pg_cluster st)" and "Execute env stmt st = (res, st')"
    and "\<And>r db'. stmt (pg_cluster st) = (r, db') \<Longrightarrow> db_inv db'"
  shows "db_inv (pg_cluster st')"
  using assms by (auto simp: Execute_def Let_def split: pg_fault.splits prod.splits)

lemma CreateUser_inv:
  assumes "db_inv (pg_cluster st)" and "CreateUser env l p f st = (res, st')"
  shows "db_inv (pg_cluster st')"
proof -
  obtain r s where ex: "Execute env (kInsertUser (pg_now env) l p f) st = (r, s)" by fastforce
  with assms(2) have "st' = s"
    by (auto simp: CreateUser_def split: sum.splits exn.splits)
  with Execute_inv [OF assms(1) ex] kInsertUser_inv [OF assms(1)] show ?thesis by blast
qed

lemma CreateDriver_inv:
  assumes "db_inv (pg_cluster st)" and "CreateDriver env u m n l st = (res, st')"
  shows "db_inv (pg_cluster st')"
proof -
  obtain r s where ex: "Execute env (kInsertDriver u m n l) st = (r, s)" by fastforce
  with assms(2) have "st' = s"
    by (auto simp: CreateDriver_def split: sum.splits exn.splits)
  with Execute_inv [OF assms(1) ex] kInsertDriver_inv [OF assms(1)] show ?thesis by blast
qed

lemma CreateRide_inv:
  assumes "db_inv (pg_cluster st)" and "CreateRide env u p d st = (res, st')"
  shows "db_inv (pg_cluster st')"
proof -
  obtain r s where ex: "Execute env (kInsertRide (pg_now env) u p d) st = (r, s)" by fastforce
  with assms(2) have "st' = s"
    by (auto simp: CreateRide_def split: sum.splits exn.splits)
  with Execute_inv [OF assms(1) ex] kInsertRide_inv [OF assms(1)] show ?thesis by blast
qed

lemma UpdateDriverStatus_inv:
  assumes "db_inv (pg_cluster st)" and "UpdateDriverStatus env i s st = (res, st')"
  shows "db_inv (pg_cluster st')"
proof -
  obtain r s' where ex: "Execute env (kUpdateDriverStatus i s) st = (r, s')" by fastforce
  with assms(2) have "st' = s'"
    by (auto simp: UpdateDriverStatus_def split: sum.splits)
  with Execute_inv [OF assms(1) ex] kUpdateDriverStatus_inv [OF assms(1)] show ?thesis by blast
qed

text \<open>A transaction leaves the state alone or publishes the whole effect of its statement.\<close>

lemma AcceptRide_cases:
  assumes "AcceptRide env rid did st = (res, st')"
  obtains (Unchanged) "st' = st" "\<And>r. res \<noteq> Inr (Some r)"
        "res = Inr None \<Longrightarrow> fst (kAcceptRide rid did (pg_cluster st)) = []"
    | (Committed) row rows where "fst (kAcceptRide rid did (pg_cluster st)) = row # rows"
        "st' = st\<lparr>pg_cluster := snd (kAcceptRide rid did (pg_cluster st))\<rparr>"
        "res = Inr (Some (ParseRide row)) \<and> pg_fault env = NoFault \<or>
         res = Inl PgConnectionFailure \<and> pg_fault env = FaultAfter"
  using assms
  by (cases "pg_fault env"; cases "fst (kAcceptRide rid did (pg_cluster st))")
    (auto simp: AcceptRide_def transaction_defs Let_def case_prod_unfold)

lemma CompleteRide_cases:
  assumes "CompleteRide env rid st = (res, st')"
  obtains (Unchanged) "st' = st" "\<And>r. res \<noteq> Inr (Some r)"
        "res = Inr None \<Longrightarrow> fst (kCompleteRide (pg_now env) rid (pg_cluster st)) = []"
    | (Committed) row rows where "fst (kCompleteRide (pg_now env) rid (pg_cluster st)) = row # rows"
        "st' = st\<lparr>pg_cluster := snd (kCompleteRide (pg_now env) rid (pg_cluster st))\<rparr>"
        "res = Inr (Some (ParseRide row)) \<and> pg_fault env = NoFault \<or>
         res = Inl PgConnectionFailure \<and> pg_fault env = FaultAfter"
  using assms
  by (cases "pg_fault env"; cases "fst (kCompleteRide (pg_now env) rid (pg_cluster st))")
    (auto simp: CompleteRide_def transaction_defs Let_def case_prod_unfold)

lemma AcceptRide_inv:
  assumes "db_inv (pg_cluster st)" and "AcceptRide env r d st = (res, st')"
  shows "db_inv (pg_cluster st')"
  using assms(2) by (cases rule: AcceptRide_cases) (simp_all add: assms(1) db_inv_kAcceptRide)

lemma CompleteRide_inv:
  assumes "db_inv (pg_cluster st)" and "CompleteRide env r st = (res, st')"
  shows "db_inv (pg_cluster st')"
  using assms(2) by (cases rule: CompleteRide_cases) (simp_all add: assms(1) db_inv_kCompleteRide)

lemma Login_inv:
  "db_inv (pg_cluster st) \<Longrightarrow> Login env l p st = (res, st') \<Longrightarrow> db_inv (pg_cluster st')"
  by (simp add: Login_pg_cluster)

section \<open>Login\<close>

lemma Login_cases:
  assumes "Login env login password st = (res, st')"
  obtains (Rejected) "st' = st" "\<And>t. res \<noteq> Inr (Some t)"
    | (Issued) u where "GetUserByLogin env login st = Inr (Some u)" "user_password u = password"
        "next_token_id st \<noteq> INT_MAX" "res = Inr (Some (MakeToken (user_id u) (next_token_id st)))"
        "st' = st\<lparr>next_token_id := next_token_id st + 1,
                  tokens := (tokens st)(MakeToken (user_id u) (next_token_id st) \<mapsto> user_id u)\<rparr>"
  using assms by (auto simp: Login_def Let_def split: sum.splits option.splits if_splits)

end
