(* ===== verification/Dispatch.thy ===== *)
theory Dispatch
  imports Prelude
begin

text \<open>
  The abstract specification of ride dispatching: a board with the phase of every ride and the
  availability of every driver, and the steps a dispatcher may take on it. The properties the
  service is meant to have (a driver serves one ride at a time, a driver is busy exactly while
  serving, a ride only moves forward and keeps its driver) are proved here of the board; the
  locale at the end carries them to anything that refines it.
\<close>

section \<open>The board\<close>

datatype phase = Searching | Accepted int | Completed int | Cancelled

datatype availability = Online | Busy | Offline

record board =
  ride_phase :: "int \<rightharpoonup> phase"
  driver_avail :: "int \<rightharpoonup> availability"

text \<open>The driver a ride has been given.\<close>

fun phase_driver :: "phase \<Rightarrow> int option" where
  "phase_driver Searching = None"
| "phase_driver (Accepted d) = Some d"
| "phase_driver (Completed d) = Some d"
| "phase_driver Cancelled = None"

text \<open>The order of the life of a ride.\<close>

datatype ride_stage = StageSearching | StageAccepted | StageClosed

fun stage_rank :: "ride_stage \<Rightarrow> nat" where
  "stage_rank StageSearching = 0"
| "stage_rank StageAccepted = 1"
| "stage_rank StageClosed = 2"

lemma stage_rank_inject: "stage_rank x = stage_rank y \<longleftrightarrow> x = y"
  by (cases x; cases y) simp_all

instantiation ride_stage :: linorder
begin

definition less_eq_ride_stage :: "ride_stage \<Rightarrow> ride_stage \<Rightarrow> bool" where
  "less_eq_ride_stage x y \<longleftrightarrow> stage_rank x \<le> stage_rank y"

definition less_ride_stage :: "ride_stage \<Rightarrow> ride_stage \<Rightarrow> bool" where
  "less_ride_stage x y \<longleftrightarrow> stage_rank x < stage_rank y"

instance
  by standard (auto simp: less_eq_ride_stage_def less_ride_stage_def stage_rank_inject)

end

fun phase_stage :: "phase \<Rightarrow> ride_stage" where
  "phase_stage Searching = StageSearching"
| "phase_stage (Accepted d) = StageAccepted"
| "phase_stage (Completed d) = StageClosed"
| "phase_stage Cancelled = StageClosed"

lemma stage_le_simps [simp]:
  "StageSearching \<le> s" "s \<le> StageClosed" "StageAccepted \<le> s \<longleftrightarrow> s \<noteq> StageSearching"
  "StageClosed \<le> s \<longleftrightarrow> s = StageClosed"
  by (cases s; simp add: less_eq_ride_stage_def)+

section \<open>Steps\<close>

definition board_accept :: "int \<Rightarrow> int \<Rightarrow> board \<Rightarrow> board option" where
  "board_accept r d b =
     (if ride_phase b r = Some Searching \<and> driver_avail b d = Some Online
      then Some (b\<lparr>ride_phase := (ride_phase b)(r \<mapsto> Accepted d),
                   driver_avail := (driver_avail b)(d \<mapsto> Busy)\<rparr>)
      else None)"

definition board_complete :: "int \<Rightarrow> board \<Rightarrow> board option" where
  "board_complete r b =
     (case ride_phase b r of
        Some (Accepted d) \<Rightarrow>
          Some (b\<lparr>ride_phase := (ride_phase b)(r \<mapsto> Completed d),
                  driver_avail := (driver_avail b)(d \<mapsto> Online)\<rparr>)
      | _ \<Rightarrow> None)"

inductive board_step :: "board \<Rightarrow> board \<Rightarrow> bool" where
  stutter: "board_step b b"
| new_driver: "driver_avail b d = None \<Longrightarrow>
     board_step b (b\<lparr>driver_avail := (driver_avail b)(d \<mapsto> Online)\<rparr>)"
| new_ride: "ride_phase b r = None \<Longrightarrow>
     board_step b (b\<lparr>ride_phase := (ride_phase b)(r \<mapsto> Searching)\<rparr>)"
| accept: "board_accept r d b = Some b' \<Longrightarrow> board_step b b'"
| complete: "board_complete r b = Some b' \<Longrightarrow> board_step b b'"

inductive_cases board_stepE: "board_step b b'"

section \<open>Invariant\<close>

definition board_ok :: "board \<Rightarrow> bool" where
  "board_ok b \<longleftrightarrow>
     (\<forall>d. driver_avail b d = Some Busy \<longleftrightarrow> (\<exists>r. ride_phase b r = Some (Accepted d))) \<and>
     (\<forall>r r' d. ride_phase b r = Some (Accepted d) \<longrightarrow> ride_phase b r' = Some (Accepted d) \<longrightarrow> r = r')"

lemma board_ok_empty: "board_ok \<lparr>ride_phase = Map.empty, driver_avail = Map.empty\<rparr>"
  by (simp add: board_ok_def)

lemma board_accept_ok:
  assumes "board_ok b" and "board_accept r d b = Some b'"
  shows "board_ok b'"
proof -
  from assms(2) have r: "ride_phase b r = Some Searching" and d: "driver_avail b d = Some Online"
    and b': "b' = b\<lparr>ride_phase := (ride_phase b)(r \<mapsto> Accepted d),
                    driver_avail := (driver_avail b)(d \<mapsto> Busy)\<rparr>"
    by (auto simp: board_accept_def split: if_splits)
  from assms(1) d have free: "ride_phase b q \<noteq> Some (Accepted d)" for q
    by (fastforce simp: board_ok_def)
  show ?thesis
    using assms(1) r free by (auto simp: board_ok_def b') force+
qed

lemma board_complete_ok:
  assumes "board_ok b" and "board_complete r b = Some b'"
  shows "board_ok b'"
proof -
  from assms(2) obtain d where r: "ride_phase b r = Some (Accepted d)"
    and b': "b' = b\<lparr>ride_phase := (ride_phase b)(r \<mapsto> Completed d),
                    driver_avail := (driver_avail b)(d \<mapsto> Online)\<rparr>"
    by (auto simp: board_complete_def split: option.splits phase.splits)
  from assms(1) r have only: "ride_phase b q = Some (Accepted d) \<Longrightarrow> q = r" for q
    unfolding board_ok_def by blast
  show ?thesis
    using assms(1) r only by (auto simp: board_ok_def b') force+
qed

lemma board_step_ok: "board_step b b' \<Longrightarrow> board_ok b \<Longrightarrow> board_ok b'"
proof (induction rule: board_step.induct)
  case (new_driver b d)
  then have "ride_phase b r \<noteq> Some (Accepted d)" for r
    by (fastforce simp: board_ok_def)
  with new_driver show ?case by (auto simp: board_ok_def)
next
  case (new_ride b r)
  then show ?case by (auto simp: board_ok_def) force+
qed (auto intro: board_accept_ok board_complete_ok)

text \<open>A step never loses a ride, never moves one back, and never changes its driver.\<close>

definition phase_le :: "phase \<Rightarrow> phase \<Rightarrow> bool" where
  "phase_le p q \<longleftrightarrow>
     phase_stage p \<le> phase_stage q \<and> (phase_driver p \<noteq> None \<longrightarrow> phase_driver q = phase_driver p)"

lemma phase_le_refl [simp]: "phase_le p p"
  by (simp add: phase_le_def)

lemma phase_le_trans: "phase_le p q \<Longrightarrow> phase_le q s \<Longrightarrow> phase_le p s"
  by (auto simp: phase_le_def)

lemma board_step_phase:
  "board_step b b' \<Longrightarrow> ride_phase b r = Some p \<Longrightarrow> \<exists>q. ride_phase b' r = Some q \<and> phase_le p q"
  by (erule board_stepE)
    (auto simp: board_accept_def board_complete_def phase_le_def
      split: if_splits option.splits phase.splits)

text \<open>A driver who is busy without a ride stays so: nothing but the end of a ride of his frees him.\<close>

definition stuck :: "int \<Rightarrow> board \<Rightarrow> bool" where
  "stuck d b \<longleftrightarrow> driver_avail b d = Some Busy \<and> (\<forall>r. ride_phase b r \<noteq> Some (Accepted d))"

lemma board_step_stuck: "board_step b b' \<Longrightarrow> stuck d b \<Longrightarrow> stuck d b'"
  by (erule board_stepE)
    (auto simp: stuck_def board_accept_def board_complete_def split: if_splits option.splits phase.splits)

section \<open>The interface to an implementation\<close>

text \<open>
  A system whose well-formed states show a board, and whose every operation is a step of it.
\<close>

locale board_refinement =
  fixes show_board :: "'s \<Rightarrow> board"
    and wf :: "'s \<Rightarrow> bool"
    and step :: "'op \<Rightarrow> 's \<Rightarrow> 's"
  assumes step_wf: "wf s \<Longrightarrow> wf (step op s)"
    and step_board: "wf s \<Longrightarrow> board_step (show_board s) (show_board (step op s))"
begin

lemma run_wf: "wf s \<Longrightarrow> wf (fold step ops s)"
  by (induction ops arbitrary: s) (simp_all add: step_wf)

text \<open>What every step of the board keeps, every run keeps.\<close>

lemma run_keeps:
  assumes "\<And>b b'. board_step b b' \<Longrightarrow> K b \<Longrightarrow> K b'"
  shows "wf s \<Longrightarrow> K (show_board s) \<Longrightarrow> K (show_board (fold step ops s))"
  by (induction ops arbitrary: s) (auto intro: step_wf assms step_board)

lemma run_ok: "wf s \<Longrightarrow> board_ok (show_board s) \<Longrightarrow> board_ok (show_board (fold step ops s))"
  by (rule run_keeps) (rule board_step_ok)

lemma run_exclusive:
  assumes "wf s" "board_ok (show_board s)"
    and "ride_phase (show_board (fold step ops s)) r = Some (Accepted d)"
    and "ride_phase (show_board (fold step ops s)) r' = Some (Accepted d)"
  shows "r = r'"
  using run_ok [OF assms(1,2)] assms(3,4) unfolding board_ok_def by blast

lemma run_busy:
  assumes "wf s" "board_ok (show_board s)"
  shows "driver_avail (show_board (fold step ops s)) d = Some Busy \<longleftrightarrow>
    (\<exists>r. ride_phase (show_board (fold step ops s)) r = Some (Accepted d))"
  using run_ok [OF assms] unfolding board_ok_def by blast

lemma run_phase:
  assumes "wf s" and "ride_phase (show_board s) r = Some p"
  shows "\<exists>q. ride_phase (show_board (fold step ops s)) r = Some q \<and> phase_le p q"
  using assms
proof (induction ops arbitrary: s p)
  case Nil
  then show ?case by simp
next
  case (Cons op ops)
  obtain q where q: "ride_phase (show_board (step op s)) r = Some q" "phase_le p q"
    using board_step_phase [OF step_board [OF Cons.prems(1)] Cons.prems(2)] by blast
  with Cons.IH [OF step_wf [OF Cons.prems(1)] q(1)] show ?case
    by (auto intro: phase_le_trans)
qed

end

end
