(* ===== verification/DispatchRefinement.thy ===== *)
theory DispatchRefinement
  imports StorageFacts Dispatch
begin

text \<open>
  The database as a dispatch board. \<open>show_board\<close> reads the phase of every ride and the
  availability of every driver off the tables; the statements that accept and complete a ride
  compute exactly the steps of the board, and every operation of the storage that the service
  calls is a step of the board.
\<close>

section \<open>Reading the board off the tables\<close>

definition ride_of :: "database \<Rightarrow> int \<Rightarrow> ride_row option" where
  "ride_of db i = find (\<lambda>r. rr_id r = i) (rides db)"

definition driver_of :: "database \<Rightarrow> int \<Rightarrow> driver_row option" where
  "driver_of db i = find (\<lambda>r. dr_id r = i) (drivers db)"

definition phase_of :: "ride_row \<Rightarrow> phase" where
  "phase_of r =
     (if rr_status r = ''searching'' then Searching
      else if rr_status r = ''accepted'' then Accepted (coalesce (rr_driver_id r) 0)
      else if rr_status r = ''completed'' then Completed (coalesce (rr_driver_id r) 0)
      else Cancelled)"

definition avail_of :: "driver_row \<Rightarrow> availability" where
  "avail_of r =
     (if dr_status r = ''online'' then Online
      else if dr_status r = ''busy'' then Busy
      else Offline)"

definition show_board :: "database \<Rightarrow> board" where
  "show_board db =
     \<lparr>ride_phase = (\<lambda>i. map_option phase_of (ride_of db i)),
      driver_avail = (\<lambda>i. map_option avail_of (driver_of db i))\<rparr>"

lemma show_board_same_tables: "same_tables db db' \<Longrightarrow> show_board db' = show_board db"
  by (simp add: show_board_def ride_of_def driver_of_def same_tables_def)

lemma phase_of_eq_Searching: "phase_of r = Searching \<longleftrightarrow> rr_status r = ''searching''"
  by (simp add: phase_of_def)

lemma avail_of_eq_Online: "avail_of r = Online \<longleftrightarrow> dr_status r = ''online''"
  by (simp add: avail_of_def)

lemma phase_of_eq_Accepted:
  "phase_of r = Accepted d \<longleftrightarrow> rr_status r = ''accepted'' \<and> coalesce (rr_driver_id r) 0 = d"
  by (auto simp: phase_of_def)

section \<open>The shape of a ride\<close>

text \<open>
  What the columns of a ride say together: no driver while it is searching, a driver from the
  moment it is accepted, and a time of completion exactly when it is completed. The service
  never cancels a ride.
\<close>

definition ride_shape :: "ride_row \<Rightarrow> bool" where
  "ride_shape r \<longleftrightarrow>
     rr_status r \<in> {''searching'', ''accepted'', ''completed''} \<and>
     (rr_driver_id r = None \<longleftrightarrow> rr_status r = ''searching'') \<and>
     (rr_completed_at r \<noteq> None \<longleftrightarrow> rr_status r = ''completed'')"

definition rides_shape :: "database \<Rightarrow> bool" where
  "rides_shape db \<longleftrightarrow> (\<forall>r\<in>set (rides db). ride_shape r)"

definition dispatch_wf :: "database \<Rightarrow> bool" where
  "dispatch_wf db \<longleftrightarrow> db_inv db \<and> rides_shape db"

lemma dispatch_wf_empty: "dispatch_wf empty_database"
  by (simp add: dispatch_wf_def db_inv_empty rides_shape_def) (simp add: empty_database_def)

section \<open>The accepting statement\<close>

lemma ride_of_Some: "db_inv db \<Longrightarrow> ride_of db i = Some r \<longleftrightarrow> r \<in> set (rides db) \<and> rr_id r = i"
  by (simp add: ride_of_def find_key_distinct db_inv_defs)

lemma driver_of_Some: "db_inv db \<Longrightarrow> driver_of db i = Some r \<longleftrightarrow> r \<in> set (drivers db) \<and> dr_id r = i"
  by (simp add: driver_of_def find_key_distinct db_inv_defs)

lemma filter_and_key:
  "filter (\<lambda>x. f x = k \<and> Q x) xs = filter Q (filter (\<lambda>x. f x = k) xs)"
  by (simp add: conj_commute)

lemma accept_driver_filter:
  assumes "db_inv db"
  shows "filter (accept_driver did) (drivers db) =
    (case driver_of db did of None \<Rightarrow> [] | Some r \<Rightarrow> if dr_status r = ''online'' then [r] else [])"
proof -
  have "filter (accept_driver did) (drivers db) =
      filter (\<lambda>r. dr_status r = ''online'') (filter (\<lambda>r. dr_id r = did) (drivers db))"
    by (simp add: accept_driver_def [abs_def] conj_commute)
  with assms show ?thesis
    by (simp add: filter_key_find db_inv_defs driver_of_def split: option.split)
qed

lemma accept_ride_filter:
  assumes "db_inv db" and "ud \<noteq> []"
  shows "filter (accept_ride rid ud) (rides db) =
    (case ride_of db rid of None \<Rightarrow> [] | Some r \<Rightarrow> if rr_status r = ''searching'' then [r] else [])"
proof -
  have "filter (accept_ride rid ud) (rides db) =
      filter (\<lambda>r. rr_status r = ''searching'') (filter (\<lambda>r. rr_id r = rid) (rides db))"
    using assms(2) by (simp add: accept_ride_def [abs_def] conj_commute)
  with assms(1) show ?thesis
    by (simp add: filter_key_find db_inv_defs ride_of_def split: option.split)
qed

lemma complete_ride_filter:
  assumes "db_inv db"
  shows "filter (complete_ride rid) (rides db) =
    (case ride_of db rid of None \<Rightarrow> [] | Some r \<Rightarrow> if rr_status r = ''accepted'' then [r] else [])"
proof -
  have "filter (complete_ride rid) (rides db) =
      filter (\<lambda>r. rr_status r = ''accepted'') (filter (\<lambda>r. rr_id r = rid) (rides db))"
    by (simp add: complete_ride_def [abs_def] conj_commute)
  with assms show ?thesis
    by (simp add: filter_key_find db_inv_defs ride_of_def split: option.split)
qed

text \<open>The rows the statement returns: the accepted ride, when both guards hold.\<close>

lemma kAcceptRide_rows:
  assumes "db_inv db"
  shows "fst (kAcceptRide rid did db) =
    (case (ride_of db rid, driver_of db did) of
       (Some r, Some d) \<Rightarrow>
         if rr_status r = ''searching'' \<and> dr_status d = ''online''
         then [select_ride (r\<lparr>rr_driver_id := Some did, rr_status := ''accepted''\<rparr>)] else []
     | _ \<Rightarrow> [])"
proof (cases "filter (accept_driver did) (drivers db) = []")
  case True
  then show ?thesis
    using accept_driver_filter [OF assms, of did]
    by (auto simp: kAcceptRide_def Let_def accept_ride_def split: option.splits if_splits)
next
  case False
  then show ?thesis
    using accept_driver_filter [OF assms, of did]
    by (auto simp: kAcceptRide_def Let_def accept_ride_filter [OF assms] split: option.splits if_splits)
qed

text \<open>The rows after the statement: one ride and one driver are rewritten, no other.\<close>

lemma kAcceptRide_lookup:
  assumes inv: "db_inv db" and ret: "fst (kAcceptRide rid did db) \<noteq> []"
  shows "ride_of (snd (kAcceptRide rid did db)) i =
      (if i = rid then map_option (\<lambda>r. r\<lparr>rr_driver_id := Some did, rr_status := ''accepted''\<rparr>) (ride_of db i)
       else ride_of db i)"
    and "driver_of (snd (kAcceptRide rid did db)) i =
      (if i = did then map_option (\<lambda>r. r\<lparr>dr_status := ''busy''\<rparr>) (driver_of db i) else driver_of db i)"
proof -
  from ret obtain r d where r: "ride_of db rid = Some r" "rr_status r = ''searching''"
    and d: "driver_of db did = Some d" "dr_status d = ''online''"
    by (auto simp: kAcceptRide_rows [OF inv] split: option.splits if_splits)
  have ud: "map dr_id (filter (accept_driver did) (drivers db)) \<noteq> []"
    by (simp add: accept_driver_filter [OF inv] d)
  with r show "ride_of (snd (kAcceptRide rid did db)) i =
      (if i = rid then map_option (\<lambda>r. r\<lparr>rr_driver_id := Some did, rr_status := ''accepted''\<rparr>) (ride_of db i)
       else ride_of db i)"
    by (simp add: kAcceptRide_def Let_def ride_of_def accept_ride_def find_map_key del: filter_empty_conv)
  from d show "driver_of (snd (kAcceptRide rid did db)) i =
      (if i = did then map_option (\<lambda>r. r\<lparr>dr_status := ''busy''\<rparr>) (driver_of db i) else driver_of db i)"
    by (simp add: kAcceptRide_def Let_def driver_of_def accept_driver_def find_map_key)
qed

lemma kAcceptRide_board:
  assumes inv: "db_inv db" and ret: "fst (kAcceptRide rid did db) \<noteq> []"
  shows "board_accept rid did (show_board db) = Some (show_board (snd (kAcceptRide rid did db)))"
proof -
  from ret obtain r d where "ride_of db rid = Some r" "rr_status r = ''searching''"
    "driver_of db did = Some d" "dr_status d = ''online''"
    by (auto simp: kAcceptRide_rows [OF inv] split: option.splits if_splits)
  then show ?thesis
    by (auto simp: board_accept_def show_board_def kAcceptRide_lookup [OF inv ret] phase_of_def
        avail_of_def coalesce_def fun_eq_iff)
qed

lemma kAcceptRide_refused:
  assumes inv: "db_inv db" and ret: "fst (kAcceptRide rid did db) = []"
  shows "board_accept rid did (show_board db) = None"
  using ret
  by (auto simp: kAcceptRide_rows [OF inv] board_accept_def show_board_def phase_of_eq_Searching
      avail_of_eq_Online split: option.splits if_splits)

section \<open>The completing statement\<close>

lemma kCompleteRide_rows:
  assumes "db_inv db"
  shows "fst (kCompleteRide now rid db) =
    (case ride_of db rid of
       Some r \<Rightarrow>
         if rr_status r = ''accepted''
         then [select_ride (r\<lparr>rr_status := ''completed'', rr_completed_at := Some now\<rparr>)] else []
     | None \<Rightarrow> [])"
  by (simp add: kCompleteRide_def Let_def complete_ride_filter [OF assms] split: option.split)

lemma kCompleteRide_lookup:
  assumes wf: "dispatch_wf db" and r: "ride_of db rid = Some r" "rr_status r = ''accepted''"
    and did: "rr_driver_id r = Some did"
  shows "ride_of (snd (kCompleteRide now rid db)) i =
      (if i = rid then map_option (\<lambda>r. r\<lparr>rr_status := ''completed'', rr_completed_at := Some now\<rparr>) (ride_of db i)
       else ride_of db i)"
    and "driver_of (snd (kCompleteRide now rid db)) i =
      (if i = did then map_option (\<lambda>r. r\<lparr>dr_status := ''online''\<rparr>) (driver_of db i)
       else driver_of db i)"
proof -
  from wf have inv: "db_inv db" by (simp add: dispatch_wf_def)
  have flt: "filter (complete_ride rid) (rides db) = [r]"
    by (simp add: complete_ride_filter [OF inv] r)
  from r show "ride_of (snd (kCompleteRide now rid db)) i =
      (if i = rid then map_option (\<lambda>r. r\<lparr>rr_status := ''completed'', rr_completed_at := Some now\<rparr>) (ride_of db i)
       else ride_of db i)"
    by (simp add: kCompleteRide_def Let_def ride_of_def complete_ride_def find_map_key)
  show "driver_of (snd (kCompleteRide now rid db)) i =
      (if i = did then map_option (\<lambda>r. r\<lparr>dr_status := ''online''\<rparr>) (driver_of db i)
       else driver_of db i)"
    using find_map_key [of dr_id "\<lambda>r. r\<lparr>dr_status := ''online''\<rparr>" i did "\<lambda>_. True" "drivers db"]
    by (simp add: kCompleteRide_def Let_def driver_of_def flt select_ride_def did coalesce_def
        eq_commute [of did])
qed

lemma accepted_driver_known:
  assumes wf: "dispatch_wf db" and r: "ride_of db rid = Some r" "rr_status r = ''accepted''"
  obtains did d where "rr_driver_id r = Some did" "driver_of db did = Some d"
proof -
  from wf have inv: "db_inv db" by (simp add: dispatch_wf_def)
  from r wf inv obtain did where did: "rr_driver_id r = Some did"
    by (auto simp: dispatch_wf_def rides_shape_def ride_shape_def ride_of_Some)
  with r inv have "did \<in> dr_id ` set (drivers db)"
    by (auto simp: db_inv_defs ride_of_Some [OF inv])
  then obtain d where "driver_of db did = Some d"
    by (cases "driver_of db did") (auto simp: driver_of_def find_key_None)
  with did that show thesis by blast
qed

lemma kCompleteRide_board:
  assumes wf: "dispatch_wf db" and ret: "fst (kCompleteRide now rid db) \<noteq> []"
  shows "board_complete rid (show_board db) = Some (show_board (snd (kCompleteRide now rid db)))"
proof -
  from wf have inv: "db_inv db" by (simp add: dispatch_wf_def)
  from ret obtain r where r: "ride_of db rid = Some r" "rr_status r = ''accepted''"
    by (auto simp: kCompleteRide_rows [OF inv] split: option.splits if_splits)
  with wf obtain did d where did: "rr_driver_id r = Some did" "driver_of db did = Some d"
    by (rule accepted_driver_known)
  with r show ?thesis
    by (auto simp: board_complete_def show_board_def kCompleteRide_lookup [OF wf r did(1)] phase_of_def
        avail_of_def coalesce_def fun_eq_iff)
qed

lemma kCompleteRide_refused:
  assumes inv: "db_inv db" and ret: "fst (kCompleteRide now rid db) = []"
  shows "board_complete rid (show_board db) = None"
  using ret
  by (auto simp: kCompleteRide_rows [OF inv] board_complete_def show_board_def phase_of_def
      split: option.splits if_splits)

section \<open>The operations are steps of the board\<close>

lemma rides_shape_kAcceptRide: "rides_shape db \<Longrightarrow> rides_shape (snd (kAcceptRide rid did db))"
  by (auto simp: rides_shape_def ride_shape_def kAcceptRide_def Let_def accept_ride_def)

lemma rides_shape_kCompleteRide: "rides_shape db \<Longrightarrow> rides_shape (snd (kCompleteRide now rid db))"
  by (auto simp: rides_shape_def ride_shape_def kCompleteRide_def Let_def complete_ride_def)

lemma CreateUser_board:
  assumes wf: "dispatch_wf (pg_cluster st)" and run: "CreateUser env l p f st = (res, st')"
  shows "dispatch_wf (pg_cluster st') \<and> show_board (pg_cluster st') = show_board (pg_cluster st)"
proof -
  from run have "rides (pg_cluster st') = rides (pg_cluster st)"
    "drivers (pg_cluster st') = drivers (pg_cluster st)"
    by (cases rule: CreateUser_cases; simp add: same_tables_def)+
  with wf CreateUser_inv [OF _ run] show ?thesis
    by (simp add: dispatch_wf_def rides_shape_def show_board_def ride_of_def driver_of_def)
qed

lemma CreateDriver_board:
  assumes wf: "dispatch_wf (pg_cluster st)" and run: "CreateDriver env u m n l st = (res, st')"
  shows "dispatch_wf (pg_cluster st') \<and> board_step (show_board (pg_cluster st)) (show_board (pg_cluster st'))"
proof -
  from wf CreateDriver_inv [OF _ run] have inv: "db_inv (pg_cluster st)" "db_inv (pg_cluster st')"
    by (simp_all add: dispatch_wf_def)
  from run show ?thesis
  proof (cases rule: CreateDriver_cases)
    case None
    with wf inv show ?thesis
      by (simp add: show_board_same_tables same_tables_rides dispatch_wf_def rides_shape_def board_step.stutter)
  next
    case (Ok row)
    let ?b = "show_board (pg_cluster st)"
    from inv(2) Ok(1) have new: "find (\<lambda>r. dr_id r = dr_id row) (drivers (pg_cluster st)) = None"
      by (auto simp: find_key_None db_inv_defs)
    with Ok have "show_board (pg_cluster st') = ?b\<lparr>driver_avail := (driver_avail ?b)(dr_id row \<mapsto> Online)\<rparr>"
      by (auto simp: show_board_def driver_of_def ride_of_def avail_of_def find_append fun_eq_iff split: option.split)
    moreover have "driver_avail ?b (dr_id row) = None"
      using new by (simp add: show_board_def driver_of_def)
    ultimately show ?thesis
      using wf inv Ok by (auto simp: dispatch_wf_def rides_shape_def intro: board_step.new_driver)
  qed
qed

lemma CreateRide_board:
  assumes wf: "dispatch_wf (pg_cluster st)" and run: "CreateRide env u p d st = (res, st')"
  shows "dispatch_wf (pg_cluster st') \<and> board_step (show_board (pg_cluster st)) (show_board (pg_cluster st'))"
proof -
  from wf CreateRide_inv [OF _ run] have inv: "db_inv (pg_cluster st)" "db_inv (pg_cluster st')"
    by (simp_all add: dispatch_wf_def)
  from run show ?thesis
  proof (cases rule: CreateRide_cases)
    case None
    with wf inv show ?thesis
      by (simp add: show_board_same_tables same_tables_rides dispatch_wf_def rides_shape_def board_step.stutter)
  next
    case (Ok row)
    let ?b = "show_board (pg_cluster st)"
    from inv(2) Ok(1) have new: "find (\<lambda>r. rr_id r = rr_id row) (rides (pg_cluster st)) = None"
      by (auto simp: find_key_None db_inv_defs)
    with Ok have "show_board (pg_cluster st') = ?b\<lparr>ride_phase := (ride_phase ?b)(rr_id row \<mapsto> Searching)\<rparr>"
      by (auto simp: show_board_def driver_of_def ride_of_def phase_of_def find_append fun_eq_iff split: option.split)
    moreover have "ride_phase ?b (rr_id row) = None"
      using new by (simp add: show_board_def ride_of_def)
    ultimately show ?thesis
      using wf inv Ok
      by (auto simp: dispatch_wf_def rides_shape_def ride_shape_def intro: board_step.new_ride)
  qed
qed

lemma AcceptRide_board:
  assumes wf: "dispatch_wf (pg_cluster st)" and run: "AcceptRide env rid did st = (res, st')"
  shows "dispatch_wf (pg_cluster st') \<and> board_step (show_board (pg_cluster st)) (show_board (pg_cluster st'))"
  using run
proof (cases rule: AcceptRide_cases)
  case Unchanged
  with wf show ?thesis by (simp add: board_step.stutter)
next
  case (Committed row rows)
  from wf have inv: "db_inv (pg_cluster st)" and shape: "rides_shape (pg_cluster st)"
    by (simp_all add: dispatch_wf_def)
  from Committed kAcceptRide_board [OF inv] have
    "board_accept rid did (show_board (pg_cluster st)) = Some (show_board (pg_cluster st'))" by simp
  with Committed inv shape show ?thesis
    by (simp add: dispatch_wf_def db_inv_kAcceptRide rides_shape_kAcceptRide board_step.accept)
qed

lemma CompleteRide_board:
  assumes wf: "dispatch_wf (pg_cluster st)" and run: "CompleteRide env rid st = (res, st')"
  shows "dispatch_wf (pg_cluster st') \<and> board_step (show_board (pg_cluster st)) (show_board (pg_cluster st'))"
  using run
proof (cases rule: CompleteRide_cases)
  case Unchanged
  with wf show ?thesis by (simp add: board_step.stutter)
next
  case (Committed row rows)
  from wf have inv: "db_inv (pg_cluster st)" and shape: "rides_shape (pg_cluster st)"
    by (simp_all add: dispatch_wf_def)
  from Committed kCompleteRide_board [OF wf] have
    "board_complete rid (show_board (pg_cluster st)) = Some (show_board (pg_cluster st'))" by simp
  with Committed inv shape show ?thesis
    by (simp add: dispatch_wf_def db_inv_kCompleteRide rides_shape_kCompleteRide board_step.complete)
qed

end
