(* ===== verification/HandlerEffects.thy ===== *)
theory HandlerEffects
  imports Server DispatchRefinement
begin

text \<open>
  The effect of every handler on the service, as one equation per handler that writes: which
  operation of the storage it called, with which arguments, if any, and what became of the
  cache. From them follows, for any request, what can have become of the storage.
\<close>

lemmas handler_splits = option.splits sum.splits prod.splits if_splits

section \<open>Arguments that pass validation\<close>

text \<open>
  The arguments a request gives to the storage, if its handler gets as far as calling it:
  the body parses, every member has the right type and no guard of the handler fires.
\<close>

definition create_user_args :: "'j json_lib \<Rightarrow> request \<Rightarrow> (string \<times> string \<times> string) option" where
  "create_user_args lib req =
     (case FromString lib (RequestBody req) of
        None \<Rightarrow> None
      | Some json \<Rightarrow>
          (case (as_string lib json ''login'', as_string lib json ''password'',
                 as_string lib json ''full_name'') of
             (Some l, Some p, Some f) \<Rightarrow> if l = [] \<or> p = [] \<or> f = [] then None else Some (l, p, f)
           | _ \<Rightarrow> None))"

definition login_request :: "'j json_lib \<Rightarrow> request \<Rightarrow> (string \<times> string) option" where
  "login_request lib req =
     (case FromString lib (RequestBody req) of
        None \<Rightarrow> None
      | Some json \<Rightarrow>
          (case (as_string lib json ''login'', as_string lib json ''password'') of
             (Some l, Some p) \<Rightarrow> if l = [] \<or> p = [] then None else Some (l, p)
           | _ \<Rightarrow> None))"

definition create_driver_args :: "'j json_lib \<Rightarrow> request \<Rightarrow> (int \<times> string \<times> string \<times> string) option" where
  "create_driver_args lib req =
     (case FromString lib (RequestBody req) of
        None \<Rightarrow> None
      | Some json \<Rightarrow>
          (case (as_int lib json ''user_id'', as_string lib json ''car_model'',
                 as_string lib json ''car_number'', as_string lib json ''license_number'') of
             (Some u, Some m, Some n, Some l) \<Rightarrow>
               if u \<le> 0 \<or> m = [] \<or> n = [] \<or> l = [] then None else Some (u, m, n, l)
           | _ \<Rightarrow> None))"

definition create_ride_args :: "'j json_lib \<Rightarrow> request \<Rightarrow> (int \<times> string \<times> string) option" where
  "create_ride_args lib req =
     (case FromString lib (RequestBody req) of
        None \<Rightarrow> None
      | Some json \<Rightarrow>
          (case (as_int lib json ''passenger_id'', as_string lib json ''pickup_address'',
                 as_string lib json ''destination_address'') of
             (Some u, Some p, Some d) \<Rightarrow> if u \<le> 0 \<or> p = [] \<or> d = [] then None else Some (u, p, d)
           | _ \<Rightarrow> None))"

definition path_ride_id :: "request \<Rightarrow> int option" where
  "path_ride_id req =
     (if GetPathArg req ''id'' = [] then None
      else case stoi (GetPathArg req ''id'') of Inl e \<Rightarrow> None | Inr rid \<Rightarrow> Some rid)"

definition accept_args :: "'j json_lib \<Rightarrow> request \<Rightarrow> (int \<times> int) option" where
  "accept_args lib req =
     (case FromString lib (RequestBody req) of
        None \<Rightarrow> None
      | Some json \<Rightarrow>
          (case (as_int lib json ''driver_id'', path_ride_id req) of
             (Some did, Some rid) \<Rightarrow> if did \<le> 0 then None else Some (rid, did)
           | _ \<Rightarrow> None))"

section \<open>Handlers that write\<close>

definition invalidate_if :: "string \<Rightarrow> 'a option result \<Rightarrow> response_cache \<Rightarrow> response_cache" where
  "invalidate_if p res c = (case res of Inr (Some _) \<Rightarrow> InvalidatePrefix p c | _ \<Rightarrow> c)"

lemma UsersCreate_state:
  "snd (snd (UsersCreate_HandleRequestThrow lib env req resp sv)) =
     (case create_user_args lib req of
        None \<Rightarrow> sv
      | Some (l, p, f) \<Rightarrow>
          (case CreateUser (env_pg env) l p f (storage sv) of
             (res, st) \<Rightarrow> sv\<lparr>storage := st, cache := invalidate_if ''users:'' res (cache sv)\<rparr>))"
  by (simp add: UsersCreate_HandleRequestThrow_def create_user_args_def invalidate_if_def Let_def
      split: option.split sum.split prod.split)

lemma DriversCreate_state:
  "snd (snd (DriversCreate_HandleRequestThrow lib env req resp sv)) =
     (case create_driver_args lib req of
        None \<Rightarrow> sv
      | Some (u, m, n, l) \<Rightarrow>
          (case CreateDriver (env_pg env) u m n l (storage sv) of
             (res, st) \<Rightarrow> sv\<lparr>storage := st, cache := invalidate_if ''drivers:'' res (cache sv)\<rparr>))"
  by (simp add: DriversCreate_HandleRequestThrow_def create_driver_args_def invalidate_if_def Let_def
      split: option.split sum.split prod.split)

lemma RidesCreate_state:
  "snd (snd (RidesCreate_HandleRequestThrow lib env req resp sv)) =
     (case create_ride_args lib req of
        None \<Rightarrow> sv
      | Some (u, p, d) \<Rightarrow>
          (case CreateRide (env_pg env) u p d (storage sv) of
             (res, st) \<Rightarrow> sv\<lparr>storage := st, cache := invalidate_if ''rides:'' res (cache sv)\<rparr>))"
  by (simp add: RidesCreate_HandleRequestThrow_def create_ride_args_def invalidate_if_def Let_def
      split: option.split sum.split prod.split)

lemma RidesAccept_state:
  "snd (snd (RidesAccept_HandleRequestThrow lib env req resp sv)) =
     (case accept_args lib req of
        None \<Rightarrow> sv
      | Some (rid, did) \<Rightarrow>
          (case AcceptRide (env_pg env) rid did (storage sv) of
             (res, st) \<Rightarrow> sv\<lparr>storage := st, cache := invalidate_if ''rides:'' res (cache sv)\<rparr>))"
  by (simp add: RidesAccept_HandleRequestThrow_def accept_args_def path_ride_id_def invalidate_if_def Let_def
      split: option.split sum.split prod.split)

lemma RidesComplete_state:
  "snd (snd (RidesComplete_HandleRequestThrow lib env req resp sv)) =
     (case path_ride_id req of
        None \<Rightarrow> sv
      | Some rid \<Rightarrow>
          (case CompleteRide (env_pg env) rid (storage sv) of
             (res, st) \<Rightarrow> sv\<lparr>storage := st, cache := invalidate_if ''rides:'' res (cache sv)\<rparr>))"
  by (simp add: RidesComplete_HandleRequestThrow_def path_ride_id_def invalidate_if_def Let_def
      split: option.split sum.split prod.split)

lemma AuthLogin_state:
  "snd (snd (AuthLogin_HandleRequestThrow lib env req resp sv)) =
     (case login_request lib req of
        None \<Rightarrow> sv
      | Some (l, p) \<Rightarrow> sv\<lparr>storage := snd (Login (env_pg env) l p (storage sv))\<rparr>)"
  by (simp add: AuthLogin_HandleRequestThrow_def login_request_def Let_def
      split: option.split sum.split prod.split)

section \<open>Handlers that read\<close>

text \<open>The storage is only read, so it is the same afterwards.\<close>

lemma UsersGet_storage:
  "UsersGet_HandleRequestThrow lib env req resp sv = (r, resp', sv') \<Longrightarrow>
   storage sv' = storage sv \<and> limiter sv' = limiter sv"
  by (auto simp: UsersGet_HandleRequestThrow_def Let_def split: handler_splits)

lemma RidesGet_cached_storage:
  "RidesGet_cached lib env h a resp sv = (r, resp', sv') \<Longrightarrow>
   storage sv' = storage sv \<and> limiter sv' = limiter sv"
  by (auto simp: RidesGet_cached_def Let_def split: handler_splits)

lemma RidesGet_storage:
  "RidesGet_HandleRequestThrow lib env req resp sv = (r, resp', sv') \<Longrightarrow> storage sv' = storage sv"
  by (auto simp: RidesGet_HandleRequestThrow_def Let_def split: handler_splits
      dest!: RidesGet_cached_storage)

lemma UsersGet_storage_snd:
  "storage (snd (snd (UsersGet_HandleRequestThrow lib env req resp sv))) = storage sv"
  by (metis UsersGet_storage prod.collapse)

lemma RidesGet_storage_snd:
  "storage (snd (snd (RidesGet_HandleRequestThrow lib env req resp sv))) = storage sv"
  by (metis RidesGet_storage prod.collapse)

section \<open>The state after one request\<close>

lemma snd_run_sql:
  "snd (run_sql h lib env req resp s) = s\<lparr>svc := snd (snd (h lib env req resp (svc s)))\<rparr>"
  by (simp add: run_sql_def split: prod.split)

text \<open>The state of the SQL part after a request that the router sent to the endpoint.\<close>

lemma dispatch_svc:
  assumes "pf_route pf req = Some ep"
  shows "svc (snd (dispatch pf env req resp s)) =
    (case sql_handler ep of
       Some h \<Rightarrow> snd (snd (h (pf_json pf) env req resp (svc s)))
     | None \<Rightarrow> svc s)"
  using assms by (simp add: dispatch_def snd_run_sql Let_def split: option.split prod.split)

lemma dispatch_unrouted:
  "pf_route pf req = None \<Longrightarrow> snd (dispatch pf env req resp s) = s"
  by (simp add: dispatch_def)

text \<open>Whatever the request, the storage took at most one of its operations.\<close>

lemma dispatch_storage_cases:
  assumes "dispatch pf env req resp s = (r, s')"
  obtains (Same) "server_storage s' = server_storage s" "pf_route pf req \<noteq> Some EP_AuthLogin"
    | (LoginNone) "server_storage s' = server_storage s" "pf_route pf req = Some EP_AuthLogin"
        "login_request (pf_json pf) req = None"
    | (Login) l p res where "pf_route pf req = Some EP_AuthLogin" "login_request (pf_json pf) req = Some (l, p)"
        "Login (env_pg env) l p (server_storage s) = (res, server_storage s')"
    | (CreateUser) l p f res where "pf_route pf req = Some EP_UsersCreate"
        "CreateUser (env_pg env) l p f (server_storage s) = (res, server_storage s')"
    | (CreateDriver) u m n l res where "pf_route pf req = Some EP_DriversCreate"
        "CreateDriver (env_pg env) u m n l (server_storage s) = (res, server_storage s')"
    | (CreateRide) u p d res where "pf_route pf req = Some EP_RidesCreate"
        "CreateRide (env_pg env) u p d (server_storage s) = (res, server_storage s')"
    | (AcceptRide) rid did res where "pf_route pf req = Some EP_RidesAccept"
        "AcceptRide (env_pg env) rid did (server_storage s) = (res, server_storage s')"
    | (CompleteRide) rid res where "pf_route pf req = Some EP_RidesComplete"
        "CompleteRide (env_pg env) rid (server_storage s) = (res, server_storage s')"
proof (cases "pf_route pf req")
  case None
  with assms Same show thesis by (auto simp: dispatch_def)
next
  case (Some ep)
  note rt = this
  from assms dispatch_svc [OF rt, of env resp s]
  have sv: "svc s' = (case sql_handler ep of
      Some h \<Rightarrow> snd (snd (h (pf_json pf) env req resp (svc s))) | None \<Rightarrow> svc s)"
    by simp
  note st = server_storage_def [of s] server_storage_def [of s']
  show thesis
  proof (cases ep)
    case EP_UsersCreate
    with sv rt st Same CreateUser show thesis
      by (cases "create_user_args (pf_json pf) req")
        (auto simp: UsersCreate_state split: prod.splits)
  next
    case EP_UsersGet
    with sv have "storage (svc s') = storage (svc s)"
      by (simp add: UsersGet_storage_snd)
    with rt st Same EP_UsersGet show thesis by simp
  next
    case EP_AuthLogin
    with sv rt st LoginNone Login show thesis
      by (cases "login_request (pf_json pf) req")
        (auto simp: AuthLogin_state prod_eq_iff split: prod.splits)
  next
    case EP_DriversCreate
    with sv rt st Same CreateDriver show thesis
      by (cases "create_driver_args (pf_json pf) req")
        (auto simp: DriversCreate_state split: prod.splits)
  next
    case EP_RidesCreate
    with sv rt st Same CreateRide show thesis
      by (cases "create_ride_args (pf_json pf) req")
        (auto simp: RidesCreate_state split: prod.splits)
  next
    case EP_RidesGet
    with sv have "storage (svc s') = storage (svc s)"
      by (simp add: RidesGet_storage_snd)
    with rt st Same EP_RidesGet show thesis by simp
  next
    case EP_RidesAccept
    with sv rt st Same AcceptRide show thesis
      by (cases "accept_args (pf_json pf) req")
        (auto simp: RidesAccept_state split: prod.splits)
  next
    case EP_RidesComplete
    with sv rt st Same CompleteRide show thesis
      by (cases "path_ride_id req")
        (auto simp: RidesComplete_state split: prod.splits)
  next
    case EP_MongoUsersCreate
    with sv rt st Same show thesis by simp
  next
    case EP_MongoUsersGet
    with sv rt st Same show thesis by simp
  qed
qed

end
