(* ===== verification/TokenAuthority.thy ===== *)
theory TokenAuthority
  imports Prelude
begin

text \<open>
  The contract between the part of a system that issues tokens and the part that checks them:
  an operation makes valid exactly the token it issues, and none stops being valid. It follows
  that over a whole run the valid tokens are those issued.
\<close>

locale token_authority =
  fixes valid :: "'s \<Rightarrow> string \<Rightarrow> bool"
    and step :: "'op \<Rightarrow> 's \<Rightarrow> 's"
    and issued :: "'op \<Rightarrow> 's \<Rightarrow> string option"
  assumes step_valid: "valid (step op s) t \<longleftrightarrow> valid s t \<or> issued op s = Some t"
begin

fun issued_in :: "'op list \<Rightarrow> 's \<Rightarrow> string list" where
  "issued_in [] s = []"
| "issued_in (op # ops) s =
     (case issued op s of None \<Rightarrow> [] | Some t \<Rightarrow> [t]) @ issued_in ops (step op s)"

lemma run_valid: "valid (fold step ops s) t \<longleftrightarrow> valid s t \<or> t \<in> set (issued_in ops s)"
  by (induction ops arbitrary: s) (auto simp: step_valid split: option.split)

lemma valid_forever: "valid s t \<Longrightarrow> valid (fold step ops s) t"
  by (simp add: run_valid)

end

text \<open>An authority that never issues a token that is valid already.\<close>

locale fresh_token_authority = token_authority +
  fixes inv :: "'a \<Rightarrow> bool"
  assumes step_inv: "inv s \<Longrightarrow> inv (step op s)"
    and issued_fresh: "inv s \<Longrightarrow> issued op s = Some t \<Longrightarrow> \<not> valid s t"
begin

lemma run_inv: "inv s \<Longrightarrow> inv (fold step ops s)"
  by (induction ops arbitrary: s) (simp_all add: step_inv)

lemma issued_in_not_valid: "inv s \<Longrightarrow> t \<in> set (issued_in ops s) \<Longrightarrow> \<not> valid s t"
proof (induction ops arbitrary: s)
  case Nil
  then show ?case by simp
next
  case (Cons op ops)
  show ?case
  proof (cases "issued op s = Some t")
    case True
    with Cons.prems(1) show ?thesis by (rule issued_fresh)
  next
    case False
    with Cons.prems(2) have "t \<in> set (issued_in ops (step op s))"
      by (auto split: option.splits)
    with Cons.IH [OF step_inv [OF Cons.prems(1)]] show ?thesis by (auto simp: step_valid)
  qed
qed

lemma issued_in_distinct: "inv s \<Longrightarrow> distinct (issued_in ops s)"
proof (induction ops arbitrary: s)
  case Nil
  then show ?case by simp
next
  case (Cons op ops)
  have rest: "distinct (issued_in ops (step op s))"
    by (rule Cons.IH [OF step_inv [OF Cons.prems]])
  have "t \<notin> set (issued_in ops (step op s))" if "issued op s = Some t" for t
    using issued_in_not_valid [OF step_inv [OF Cons.prems], of t ops op] that by (auto simp: step_valid)
  with rest show ?case by (auto split: option.split)
qed

end

end
