(* ===== verification/ServerInvariant.thy ===== *)
theory ServerInvariant
  imports HandlerEffects TokenAuthority
begin

text \<open>
  The invariants of the service over any list of requests: the dispatch board is kept, and the
  tokens that pass the middleware are those issued by \<open>POST /auth/login\<close>. Both come from the
  general contracts (\<open>Dispatch\<close>, \<open>TokenAuthority\<close>), interpreted on the step of the server.
\<close>

section \<open>One request as a step of the board\<close>

definition server_board :: "'m server \<Rightarrow> board" where
  "server_board s = show_board (server_db s)"

definition server_wf :: "'m server \<Rightarrow> bool" where
  "server_wf s \<longleftrightarrow> dispatch_wf (server_db s)"

lemma server_db_storage: "server_db s = pg_cluster (server_storage s)"
  by (simp add: server_db_def server_storage_def)

lemma dispatch_board_step:
  assumes wf: "server_wf s" and run: "dispatch pf env req resp s = (r, s')"
  shows "server_wf s' \<and> board_step (server_board s) (server_board s')"
  using run
proof (cases rule: dispatch_storage_cases)
  case (Login l p res)
  with wf show ?thesis
    by (simp add: server_wf_def server_board_def server_db_storage Login_pg_cluster board_step.stutter)
next
  case (CreateUser l p f res)
  with wf CreateUser_board [of "server_storage s"] show ?thesis
    by (auto simp: server_wf_def server_board_def server_db_storage board_step.stutter)
qed (use wf in \<open>auto simp: server_wf_def server_board_def server_db_storage board_step.stutter
      dest: CreateDriver_board CreateRide_board AcceptRide_board CompleteRide_board\<close>)

lemma server_step_board:
  assumes "server_wf s"
  shows "server_wf (server_step pf op s) \<and> board_step (server_board s) (server_board (server_step pf op s))"
proof -
  obtain env req where op: "op = (env, req)" by fastforce
  show ?thesis
  proof (cases rule: handle_cases [of s req pf env])
    case Passed
    with op dispatch_board_step [OF assms, of pf env req empty_response] show ?thesis
      by (cases "dispatch pf env req empty_response s") (simp add: server_step_def)
  next
    case Refused
    with assms op show ?thesis by (simp add: server_step_def board_step.stutter)
  qed
qed

interpretation server_dispatch: board_refinement server_board server_wf "server_step pf"
  for pf :: "('j, 'm, 'd) platform"
  by unfold_locales (simp_all add: server_step_board)

section \<open>Tokens\<close>

lemma MakeToken_inject: "MakeToken u n = MakeToken u' n' \<longleftrightarrow> u = u' \<and> n = n'"
  by (simp add: MakeToken_def std_to_string_append_inject std_to_string_inject)

text \<open>
  Every token in the map was made for the user it is mapped to, with a number handed out before.
\<close>

definition tokens_inv :: "taxi_storage \<Rightarrow> bool" where
  "tokens_inv st \<longleftrightarrow>
     1 \<le> next_token_id st \<and> next_token_id st \<le> INT_MAX \<and>
     (\<forall>t u. tokens st t = Some u \<longrightarrow> (\<exists>n. 1 \<le> n \<and> n < next_token_id st \<and> t = MakeToken u n))"

lemma tokens_inv_ctor: "tokens_inv (TaxiStorage_ctor db)"
  by (simp add: tokens_inv_def TaxiStorage_ctor_def)

lemma Login_fresh:
  assumes "tokens_inv st" and "Login env login password st = (Inr (Some t), st')"
  shows "\<not> IsTokenValid st t"
  using assms(2)
proof (cases rule: Login_cases)
  case (Issued u)
  have "tokens st (MakeToken (user_id u) (next_token_id st)) = None"
  proof (rule ccontr)
    assume "tokens st (MakeToken (user_id u) (next_token_id st)) \<noteq> None"
    with assms(1) obtain n where "n < next_token_id st"
      "MakeToken (user_id u) (next_token_id st) = MakeToken (user_id u) n"
      by (fastforce simp: tokens_inv_def MakeToken_inject)
    then show False by (simp add: MakeToken_inject)
  qed
  with Issued show ?thesis by (simp add: IsTokenValid_def)
next
  case Rejected
  from Rejected(2) [of t] show ?thesis by simp
qed

lemma Login_tokens_inv:
  assumes "tokens_inv st" and "Login env login password st = (res, st')"
  shows "tokens_inv st'"
  using assms(2)
proof (cases rule: Login_cases)
  case (Issued u)
  with assms(1) show ?thesis
    by (fastforce simp: tokens_inv_def)
qed (use assms(1) in simp)

lemma tokens_inv_frame:
  "tokens_inv st \<Longrightarrow> tokens st' = tokens st \<Longrightarrow> next_token_id st' = next_token_id st \<Longrightarrow> tokens_inv st'"
  by (simp add: tokens_inv_def)

text \<open>The token a request is answered with: it reached the login handler and the login succeeded.\<close>

definition issued_token :: "('j, 'm, 'd) platform \<Rightarrow> operation \<Rightarrow> 'm server \<Rightarrow> string option" where
  "issued_token pf op s =
     (case op of (env, req) \<Rightarrow>
        if authorized (server_storage s) req \<and> pf_route pf req = Some EP_AuthLogin
        then (case login_request (pf_json pf) req of
                None \<Rightarrow> None
              | Some (login, password) \<Rightarrow>
                  (case fst (Login (env_pg env) login password (server_storage s)) of
                     Inr (Some t) \<Rightarrow> Some t
                   | _ \<Rightarrow> None))
        else None)"

lemma dispatch_tokens:
  assumes run: "dispatch pf env req resp s = (r, s')" and rt: "pf_route pf req \<noteq> Some EP_AuthLogin"
  shows "tokens (server_storage s') = tokens (server_storage s) \<and>
    next_token_id (server_storage s') = next_token_id (server_storage s)"
  using run
  by (cases rule: dispatch_storage_cases)
    (use rt in \<open>auto dest: CreateUser_tokens CreateDriver_tokens CreateRide_tokens AcceptRide_tokens
       CompleteRide_tokens\<close>)

lemma dispatch_no_login:
  assumes run: "dispatch pf env req resp s = (r, s')"
    and "pf_route pf req = Some EP_AuthLogin" and "login_request (pf_json pf) req = None"
  shows "server_storage s' = server_storage s"
  using run by (cases rule: dispatch_storage_cases) (use assms in auto)

lemma dispatch_login:
  assumes run: "dispatch pf env req resp s = (r, s')"
    and rt: "pf_route pf req = Some EP_AuthLogin" "login_request (pf_json pf) req = Some (l, p)"
  shows "server_storage s' = snd (Login (env_pg env) l p (server_storage s))"
  using run by (cases rule: dispatch_storage_cases) (use rt in \<open>auto simp: prod_eq_iff\<close>)

lemma server_step_cases:
  obtains (Kept) "issued_token pf op s = None"
      "tokens (server_storage (server_step pf op s)) = tokens (server_storage s)"
      "next_token_id (server_storage (server_step pf op s)) = next_token_id (server_storage s)"
    | (Login) env l p t where "issued_token pf op s = Some t"
      "Login env l p (server_storage s) = (Inr (Some t), server_storage (server_step pf op s))"
proof -
  obtain env req where op: "op = (env, req)" by fastforce
  show thesis
  proof (cases rule: handle_cases [of s req pf env])
    case Refused
    with op Kept show thesis by (simp add: server_step_def issued_token_def)
  next
    case Passed
    obtain r s' where run: "dispatch pf env req empty_response s = (r, s')" by fastforce
    with Passed op have s': "server_step pf op s = s'" by (simp add: server_step_def)
    show thesis
    proof (cases "pf_route pf req = Some EP_AuthLogin")
      case False
      with dispatch_tokens [OF run False] op s' Kept show thesis by (simp add: issued_token_def)
    next
      case True
      show thesis
      proof (cases "login_request (pf_json pf) req")
        case None
        with dispatch_no_login [OF run True None] op s' Kept show thesis by (simp add: issued_token_def)
      next
        case (Some lp)
        obtain l p where lp: "lp = (l, p)" by fastforce
        obtain res where login: "Login (env_pg env) l p (server_storage s) = (res, server_storage s')"
          using dispatch_login [OF run True] Some lp by (metis prod.collapse)
        then show thesis
        proof (cases rule: Login_cases)
          case Rejected
          then have "issued_token pf op s = None"
            using op True Some lp login
            by (auto simp: issued_token_def split: sum.split option.split)
          with Rejected s' Kept show thesis by simp
        next
          case (Issued u)
          with Login [of _ "env_pg env" l p] op True Some lp login Passed s' show thesis
            by (simp add: issued_token_def)
        qed
      qed
    qed
  qed
qed

lemma server_step_valid:
  "IsTokenValid (server_storage (server_step pf op s)) t \<longleftrightarrow>
     IsTokenValid (server_storage s) t \<or> issued_token pf op s = Some t"
proof (cases rule: server_step_cases [of pf op s])
  case Kept
  then show ?thesis by (simp add: IsTokenValid_def)
next
  case (Login env l p u)
  from Login(2) show ?thesis
    by (cases rule: Login_cases) (auto simp: IsTokenValid_def Login(1))
qed

definition server_tokens_inv :: "'m server \<Rightarrow> bool" where
  "server_tokens_inv s \<longleftrightarrow> tokens_inv (server_storage s)"

lemma server_step_tokens_inv: "server_tokens_inv s \<Longrightarrow> server_tokens_inv (server_step pf op s)"
  by (cases rule: server_step_cases [of pf op s])
    (auto simp: server_tokens_inv_def intro: tokens_inv_frame Login_tokens_inv)

lemma issued_token_fresh:
  assumes "server_tokens_inv s" and "issued_token pf op s = Some t"
  shows "\<not> IsTokenValid (server_storage s) t"
  by (cases rule: server_step_cases [of pf op s])
    (use assms Login_fresh in \<open>auto simp: server_tokens_inv_def\<close>)

interpretation server_tokens: fresh_token_authority
  "\<lambda>s. IsTokenValid (server_storage s)" "server_step pf" "issued_token pf" server_tokens_inv
  for pf :: "('j, 'm, 'd) platform"
  by unfold_locales (simp_all add: server_step_valid server_step_tokens_inv issued_token_fresh)

text \<open>The tokens issued in a run, in order.\<close>

fun issued_tokens :: "('j, 'm, 'd) platform \<Rightarrow> operation list \<Rightarrow> 'm server \<Rightarrow> string list" where
  "issued_tokens pf [] s = []"
| "issued_tokens pf (op # ops) s =
     (case issued_token pf op s of None \<Rightarrow> [] | Some t \<Rightarrow> [t]) @ issued_tokens pf ops (server_step pf op s)"

lemma issued_tokens_eq: "issued_tokens pf ops s = token_authority.issued_in (server_step pf) (issued_token pf) ops s"
  by (induction ops arbitrary: s) (simp_all split: option.split)

lemma server_tokens_inv_init: "server_tokens_inv (server_init db m)"
  by (simp add: server_tokens_inv_def server_init_def service_init_def server_storage_def tokens_inv_ctor)

lemma run_tokens_inv: "tokens_inv (server_storage (server_run pf ops (server_init db m)))"
  unfolding server_run_def
  by (rule server_tokens.run_inv [OF server_tokens_inv_init, unfolded server_tokens_inv_def])

lemma no_token_init: "\<not> IsTokenValid (server_storage (server_init db m)) t"
  by (simp add: server_init_def service_init_def server_storage_def IsTokenValid_def TaxiStorage_ctor_def)

section \<open>Rows and the board\<close>

text \<open>What the board says of a row, when the keys are unique.\<close>

lemma board_of_ride:
  "db_inv db \<Longrightarrow> r \<in> set (rides db) \<Longrightarrow> ride_phase (show_board db) (rr_id r) = Some (phase_of r)"
  using ride_of_Some [of db "rr_id r" r] by (simp add: show_board_def)

lemma board_of_driver:
  "db_inv db \<Longrightarrow> d \<in> set (drivers db) \<Longrightarrow> driver_avail (show_board db) (dr_id d) = Some (avail_of d)"
  using driver_of_Some [of db "dr_id d" d] by (simp add: show_board_def)

lemma accepted_row:
  assumes "dispatch_wf db" and "r \<in> set (rides db)" and "rr_status r = ''accepted''"
  obtains d where "rr_driver_id r = Some d" "ride_phase (show_board db) (rr_id r) = Some (Accepted d)"
proof -
  from assms have "rr_driver_id r \<noteq> None"
    by (auto simp: dispatch_wf_def rides_shape_def ride_shape_def)
  then obtain d where d: "rr_driver_id r = Some d" by blast
  with assms have "phase_of r = Accepted d" by (simp add: phase_of_def coalesce_def)
  with assms(1,2) d board_of_ride that show thesis by (simp add: dispatch_wf_def)
qed

lemma accepted_phase_row:
  assumes "dispatch_wf db" and "ride_phase (show_board db) i = Some (Accepted d)"
  obtains r where "r \<in> set (rides db)" "rr_id r = i" "rr_status r = ''accepted''" "rr_driver_id r = Some d"
proof -
  from assms obtain r where r: "ride_of db i = Some r" "phase_of r = Accepted d"
    by (auto simp: show_board_def)
  with assms(1) have mem: "r \<in> set (rides db)" "rr_id r = i"
    by (simp_all add: dispatch_wf_def ride_of_Some)
  with assms(1) r(2) have "rr_status r = ''accepted''" "rr_driver_id r = Some d"
    by (auto simp: phase_of_eq_Accepted dispatch_wf_def rides_shape_def ride_shape_def coalesce_def
        split: option.splits)
  with mem that show thesis by blast
qed

lemma server_wf_init: "server_wf (server_init db m) \<longleftrightarrow> dispatch_wf db"
  and server_board_init: "server_board (server_init db m) = show_board db"
  by (simp_all add: server_wf_def server_board_def server_db_def server_init_def service_init_def
      TaxiStorage_ctor_def)

text \<open>A run from a database that is well formed and whose board is in order.\<close>

definition good_start :: "database \<Rightarrow> bool" where
  "good_start db \<longleftrightarrow> dispatch_wf db \<and> board_ok (show_board db)"

lemma good_start_empty: "good_start empty_database"
  by (simp add: good_start_def dispatch_wf_empty board_ok_def show_board_def ride_of_def driver_of_def)
    (simp add: empty_database_def)

lemma run_good:
  assumes "good_start db"
  shows "good_start (server_db (server_run pf ops (server_init db m)))"
proof -
  from assms have start: "server_wf (server_init db m)" "board_ok (server_board (server_init db m))"
    by (simp_all add: good_start_def server_wf_init server_board_init)
  have "server_wf (fold (server_step pf) ops (server_init db m))"
    using start(1) by (rule server_dispatch.run_wf)
  moreover have "board_ok (server_board (fold (server_step pf) ops (server_init db m)))"
    using start by (rule server_dispatch.run_ok)
  ultimately show ?thesis
    by (simp add: good_start_def server_run_def server_wf_def server_board_def)
qed

text \<open>What the order of the board means for the rows.\<close>

lemma good_accepted_unique:
  assumes good: "good_start db"
    and r: "r \<in> set (rides db)" "rr_status r = ''accepted''"
    and r': "r' \<in> set (rides db)" "rr_status r' = ''accepted''"
    and same: "rr_driver_id r = rr_driver_id r'"
  shows "r = r'"
proof -
  from good have wf: "dispatch_wf db" and ok: "board_ok (show_board db)"
    by (simp_all add: good_start_def)
  from accepted_row [OF wf r] obtain d
    where d: "rr_driver_id r = Some d" "ride_phase (show_board db) (rr_id r) = Some (Accepted d)" .
  from accepted_row [OF wf r'] obtain d'
    where d': "rr_driver_id r' = Some d'" "ride_phase (show_board db) (rr_id r') = Some (Accepted d')" .
  from d d' same ok have "rr_id r = rr_id r'"
    unfolding board_ok_def by (metis option.inject)
  with wf r(1) r'(1) show ?thesis
    by (metis dispatch_wf_def option.inject ride_of_Some)
qed

lemma good_busy:
  assumes good: "good_start db" and d: "d \<in> set (drivers db)"
  shows "dr_status d = ''busy'' \<longleftrightarrow>
    (\<exists>r\<in>set (rides db). rr_status r = ''accepted'' \<and> rr_driver_id r = Some (dr_id d))"
proof -
  from good have wf: "dispatch_wf db" and ok: "board_ok (show_board db)" and inv: "db_inv db"
    by (simp_all add: good_start_def dispatch_wf_def)
  have "dr_status d = ''busy'' \<longleftrightarrow> driver_avail (show_board db) (dr_id d) = Some Busy"
    by (auto simp: board_of_driver [OF inv d] avail_of_def)
  also have "\<dots> \<longleftrightarrow> (\<exists>i. ride_phase (show_board db) i = Some (Accepted (dr_id d)))"
    using ok unfolding board_ok_def by blast
  also have "\<dots> \<longleftrightarrow> (\<exists>r\<in>set (rides db). rr_status r = ''accepted'' \<and> rr_driver_id r = Some (dr_id d))"
  proof
    assume "\<exists>r\<in>set (rides db). rr_status r = ''accepted'' \<and> rr_driver_id r = Some (dr_id d)"
    then obtain r where r: "r \<in> set (rides db)" "rr_status r = ''accepted''" "rr_driver_id r = Some (dr_id d)"
      by blast
    from accepted_row [OF wf r(1,2)] r(3)
    show "\<exists>i. ride_phase (show_board db) i = Some (Accepted (dr_id d))" by auto
  qed (blast elim: accepted_phase_row [OF wf])
  finally show ?thesis .
qed

end
