(* ===== verification/Coherence.thy ===== *)
theory Coherence
  imports HandlerEffects
begin

text \<open>
  The cache in front of the database. \<open>fresh_body\<close> says which body belongs to a key of the
  cache, given the tables; a server is coherent from a time on when every entry still alive then
  holds it. Every request keeps this, unless the connection was lost after a write took effect;
  and on a coherent server a request is answered as it would be without the cache.
\<close>

section \<open>The body that belongs to a key\<close>

definition fresh_body :: "'j json_lib \<Rightarrow> (string \<Rightarrow> string) \<Rightarrow> database \<Rightarrow> string \<Rightarrow> string option" where
  "fresh_body lib lower db key =
     (if prefix ''users:login:'' key
      then map_option (user_body lib)
             (first_row ParseUser (kSelectUserByLogin (drop (length ''users:login:'') key) db))
      else if prefix ''users:name_mask:'' key
      then Some (users_body lib
             (map ParseUser (kFindUsersByMask lower (drop (length ''users:name_mask:'') key) db)))
      else if key = ''rides:active''
      then Some (rides_body lib (map ParseRide (kSelectActiveRides db)))
      else if prefix ''rides:history:'' key
      then (case stoi (drop (length ''rides:history:'') key) of
              Inl e \<Rightarrow> None
            | Inr uid \<Rightarrow> Some (rides_body lib (map ParseRide (kSelectRidesByUserId uid db))))
      else None)"

lemma fresh_body_users:
  "fresh_body lib lower db (''users:login:'' @ login) =
     map_option (user_body lib) (first_row ParseUser (kSelectUserByLogin login db))"
  "fresh_body lib lower db (''users:name_mask:'' @ name_mask) =
     Some (users_body lib (map ParseUser (kFindUsersByMask lower name_mask db)))"
  by (simp_all add: fresh_body_def)

lemma fresh_body_rides:
  "fresh_body lib lower db ''rides:active'' = Some (rides_body lib (map ParseRide (kSelectActiveRides db)))"
  "fresh_body lib lower db (''rides:history:'' @ arg) =
     (case stoi arg of
        Inl e \<Rightarrow> None
      | Inr uid \<Rightarrow> Some (rides_body lib (map ParseRide (kSelectRidesByUserId uid db))))"
  by (simp_all add: fresh_body_def)

lemma prefix_take: "prefix (xs @ ys) k \<Longrightarrow> prefix xs k"
  by (auto simp: prefix_def)

lemma users_reads:
  assumes "users db' = users db"
  shows "kSelectUserByLogin login db' = kSelectUserByLogin login db"
    and "kFindUsersByMask lower name_mask db' = kFindUsersByMask lower name_mask db"
  by (simp_all add: kSelectUserByLogin_def kFindUsersByMask_def assms)

lemma rides_reads:
  assumes "rides db' = rides db"
  shows "kSelectActiveRides db' = kSelectActiveRides db"
    and "kSelectRidesByUserId uid db' = kSelectRidesByUserId uid db"
  by (simp_all add: kSelectActiveRides_def kSelectRidesByUserId_def assms)

lemma fresh_body_tables:
  assumes "users db' = users db" and "rides db' = rides db"
  shows "fresh_body lib lower db' k = fresh_body lib lower db k"
  by (simp only: fresh_body_def users_reads [OF assms(1)] rides_reads [OF assms(2)])

lemma fresh_body_same_users:
  assumes "users db' = users db" and "\<not> prefix ''rides:'' k"
  shows "fresh_body lib lower db' k = fresh_body lib lower db k"
proof -
  from assms(2) have "k \<noteq> ''rides:active''" "\<not> prefix ''rides:history:'' k"
    using prefix_take [of "''rides:''" "''history:''" k] by auto
  then show ?thesis by (simp only: fresh_body_def users_reads [OF assms(1)] if_False)
qed

lemma fresh_body_same_rides:
  assumes "rides db' = rides db" and "\<not> prefix ''users:'' k"
  shows "fresh_body lib lower db' k = fresh_body lib lower db k"
proof -
  from assms(2) have "\<not> prefix ''users:login:'' k" "\<not> prefix ''users:name_mask:'' k"
    using prefix_take [of "''users:''" "''login:''" k] prefix_take [of "''users:''" "''name_mask:''" k]
    by auto
  then show ?thesis by (simp only: fresh_body_def rides_reads [OF assms(1)] if_False)
qed

section \<open>Coherent services\<close>

definition coherent :: "'j json_lib \<Rightarrow> (string \<Rightarrow> string) \<Rightarrow> int \<Rightarrow> service \<Rightarrow> bool" where
  "coherent lib lower t sv \<longleftrightarrow>
     cache_wf (cache sv) \<and>
     coherent_from live_body t (fresh_body lib lower (pg_cluster (storage sv))) (cache sv)"

lemma coherent_init: "coherent lib lower t (service_init db)"
  by (simp add: coherent_def service_init_def cache_wf_init coherent_from_def)

lemma coherent_write:
  assumes "coherent lib lower t sv"
    and others: "\<And>k. \<not> prefix p k \<Longrightarrow>
      fresh_body lib lower (pg_cluster st) k = fresh_body lib lower (pg_cluster (storage sv)) k"
    and failed: "(\<And>x. res \<noteq> Inr (Some x)) \<Longrightarrow>
      fresh_body lib lower (pg_cluster st) = fresh_body lib lower (pg_cluster (storage sv))"
  shows "coherent lib lower t (sv\<lparr>storage := st, cache := invalidate_if p res (cache sv)\<rparr>)"
proof (cases "\<exists>x. res = Inr (Some x)")
  case True
  from assms(1) have wf: "cache_wf (cache sv)"
    and coh: "coherent_from live_body t (fresh_body lib lower (pg_cluster (storage sv))) (cache sv)"
    by (simp_all add: coherent_def)
  have "coherent_from live_body t (fresh_body lib lower (pg_cluster st)) (InvalidatePrefix p (cache sv))"
    by (rule rc.coherent_invalidate [OF wf coh]) (rule others)
  with True wf show ?thesis by (auto simp: coherent_def invalidate_if_def rc.invalidate_wf)
next
  case False
  then have "invalidate_if p res (cache sv) = cache sv"
    by (auto simp: invalidate_if_def split: sum.split option.split)
  with False assms(1) failed show ?thesis by (simp add: coherent_def)
qed

text \<open>A write whose connection is not lost after the commit keeps the cache coherent.\<close>

lemma CreateUser_coherent:
  assumes "coherent lib lower t sv" and "pg_fault env \<noteq> FaultAfter"
    and "CreateUser env l p f (storage sv) = (res, st)"
  shows "coherent lib lower t (sv\<lparr>storage := st, cache := invalidate_if ''users:'' res (cache sv)\<rparr>)"
  using assms(3)
proof (cases rule: CreateUser_cases)
  case None
  then have "fresh_body lib lower (pg_cluster st) = fresh_body lib lower (pg_cluster (storage sv))"
    by (intro ext fresh_body_tables) (simp_all add: same_tables_def)
  with assms(1) show ?thesis by (intro coherent_write) simp_all
next
  case (Ok row)
  with assms(1,2) show ?thesis by (intro coherent_write) (auto intro: fresh_body_same_rides)
qed

lemma CreateDriver_coherent:
  assumes "coherent lib lower t sv"
    and "CreateDriver env u m n l (storage sv) = (res, st)"
  shows "coherent lib lower t (sv\<lparr>storage := st, cache := invalidate_if ''drivers:'' res (cache sv)\<rparr>)"
proof -
  have "users (pg_cluster st) = users (pg_cluster (storage sv))"
    "rides (pg_cluster st) = rides (pg_cluster (storage sv))"
    using assms(2) by (cases rule: CreateDriver_cases; simp add: same_tables_def)+
  then have "fresh_body lib lower (pg_cluster st) = fresh_body lib lower (pg_cluster (storage sv))"
    by (intro ext fresh_body_tables)
  with assms(1) show ?thesis by (intro coherent_write) simp_all
qed

lemma CreateRide_coherent:
  assumes "coherent lib lower t sv" and "pg_fault env \<noteq> FaultAfter"
    and "CreateRide env u p d (storage sv) = (res, st)"
  shows "coherent lib lower t (sv\<lparr>storage := st, cache := invalidate_if ''rides:'' res (cache sv)\<rparr>)"
  using assms(3)
proof (cases rule: CreateRide_cases)
  case None
  then have "fresh_body lib lower (pg_cluster st) = fresh_body lib lower (pg_cluster (storage sv))"
    by (intro ext fresh_body_tables) (simp_all add: same_tables_def)
  with assms(1) show ?thesis by (intro coherent_write) simp_all
next
  case (Ok row)
  with assms(1,2) show ?thesis by (intro coherent_write) (auto intro: fresh_body_same_users)
qed

lemma users_transaction:
  "users (snd (kAcceptRide rid did db)) = users db"
  "users (snd (kCompleteRide now rid db)) = users db"
  by (simp_all add: kAcceptRide_def kCompleteRide_def Let_def)

lemma AcceptRide_coherent:
  assumes "coherent lib lower t sv" and "pg_fault env \<noteq> FaultAfter"
    and "AcceptRide env rid did (storage sv) = (res, st)"
  shows "coherent lib lower t (sv\<lparr>storage := st, cache := invalidate_if ''rides:'' res (cache sv)\<rparr>)"
  using assms(3)
proof (cases rule: AcceptRide_cases)
  case Unchanged
  with assms(1) show ?thesis by (intro coherent_write) simp_all
next
  case (Committed row rows)
  with assms(1,2) show ?thesis
    by (intro coherent_write) (auto intro: fresh_body_same_users simp: users_transaction)
qed

lemma CompleteRide_coherent:
  assumes "coherent lib lower t sv" and "pg_fault env \<noteq> FaultAfter"
    and "CompleteRide env rid (storage sv) = (res, st)"
  shows "coherent lib lower t (sv\<lparr>storage := st, cache := invalidate_if ''rides:'' res (cache sv)\<rparr>)"
  using assms(3)
proof (cases rule: CompleteRide_cases)
  case Unchanged
  with assms(1) show ?thesis by (intro coherent_write) simp_all
next
  case (Committed row rows)
  with assms(1,2) show ?thesis
    by (intro coherent_write) (auto intro: fresh_body_same_users simp: users_transaction)
qed

section \<open>Reads\<close>

text \<open>
  What a handler that reads does to the cache: a lookup, and after a miss possibly an insertion
  of the fresh body of that key.
\<close>

definition read_through :: "'j json_lib \<Rightarrow> req_env \<Rightarrow> service \<Rightarrow> service \<Rightarrow> bool" where
  "read_through lib env sv sv' \<longleftrightarrow>
     storage sv' = storage sv \<and>
     (cache sv' = cache sv \<or>
      (\<exists>key. cache sv' = snd (CacheGet (steady_get env) key (cache sv)) \<or>
         (\<exists>body ttl. fresh_body lib (pg_lower (env_pg env)) (pg_cluster (storage sv)) key = Some body \<and> ttl \<le> 60 \<and>
            cache sv' = CacheSet (steady_set env) key body ttl (snd (CacheGet (steady_get env) key (cache sv))))))"

lemma read_through_coherent:
  assumes "coherent lib lower t sv" and "read_through lib env sv sv'" and "pg_lower (env_pg env) = lower"
  shows "coherent lib lower t sv'"
  using assms
  by (auto simp: coherent_def read_through_def rc.get_wf rc.put_wf
      intro!: rc.coherent_get rc.coherent_put)

lemma read_through_refl: "read_through lib env sv sv"
  by (simp add: read_through_def)

lemma read_through_cases:
  assumes "CacheGet (steady_get env) key (cache sv) = (cached, c)"
    and "storage sv' = storage sv"
    and "cache sv' = c \<or>
      (\<exists>body ttl. cache sv' = CacheSet (steady_set env) key body ttl c \<and> ttl \<le> 60 \<and>
         fresh_body lib (pg_lower (env_pg env)) (pg_cluster (storage sv)) key = Some body)"
  shows "read_through lib env sv sv'"
proof -
  from assms(1) have c: "snd (CacheGet (steady_get env) key (cache sv)) = c" by simp
  show ?thesis
    unfolding read_through_def
    by (rule conjI [OF assms(2)], rule disjI2, rule exI [of _ key], unfold c) (use assms(3) in blast)
qed

text \<open>The two queries of \<open>GET /users\<close>, each with its key.\<close>

lemma UsersGet_invalid:
  "(GetArg req ''login'' \<noteq> []) = (GetArg req ''name_mask'' \<noteq> []) \<Longrightarrow>
   UsersGet_HandleRequestThrow lib env req resp sv =
     (Inr (error_body lib ''use exactly one query parameter: login or name_mask''),
      SetStatus 400 (SetContentType ''application/json'' resp), sv)"
  by (simp add: UsersGet_HandleRequestThrow_def Let_def)

lemma UsersGet_login:
  assumes "GetArg req ''login'' \<noteq> []" and "GetArg req ''name_mask'' = []"
    and "CacheGet (steady_get env) (''users:login:'' @ GetArg req ''login'') (cache sv) = (cached, c)"
  shows "UsersGet_HandleRequestThrow lib env req resp sv =
    (let resp = SetContentType ''application/json'' resp; resp1 = SetHeader ''X-Cache'' ''MISS'' resp
     in case cached of
          Some body \<Rightarrow> (Inr body, SetHeader ''X-Cache'' ''HIT'' resp, sv\<lparr>cache := c\<rparr>)
        | None \<Rightarrow>
            (case GetUserByLogin (env_pg env) (GetArg req ''login'') (storage sv) of
               Inl e \<Rightarrow> (Inl e, resp1, sv\<lparr>cache := c\<rparr>)
             | Inr None \<Rightarrow>
                 (Inr (error_body lib ''user not found''), SetStatus 404 resp1, sv\<lparr>cache := c\<rparr>)
             | Inr (Some user) \<Rightarrow>
                 (Inr (user_body lib user), resp1,
                  sv\<lparr>cache := CacheSet (steady_set env) (''users:login:'' @ GetArg req ''login'')
                       (user_body lib user) 60 c\<rparr>)))"
  using assms
  by (simp add: UsersGet_HandleRequestThrow_def users_cache_key_def Let_def del: append.simps
      split: option.split sum.split)

lemma UsersGet_mask:
  assumes "GetArg req ''login'' = []" and "GetArg req ''name_mask'' \<noteq> []"
    and "CacheGet (steady_get env) (''users:name_mask:'' @ GetArg req ''name_mask'') (cache sv) = (cached, c)"
  shows "UsersGet_HandleRequestThrow lib env req resp sv =
    (let resp = SetContentType ''application/json'' resp; resp1 = SetHeader ''X-Cache'' ''MISS'' resp
     in case cached of
          Some body \<Rightarrow> (Inr body, SetHeader ''X-Cache'' ''HIT'' resp, sv\<lparr>cache := c\<rparr>)
        | None \<Rightarrow>
            (case FindUsersByNameMask (env_pg env) (GetArg req ''name_mask'') (storage sv) of
               Inl e \<Rightarrow> (Inl e, resp1, sv\<lparr>cache := c\<rparr>)
             | Inr us \<Rightarrow>
                 (Inr (users_body lib us), resp1,
                  sv\<lparr>cache := CacheSet (steady_set env) (''users:name_mask:'' @ GetArg req ''name_mask'')
                       (users_body lib us) 60 c\<rparr>)))"
  using assms
  by (simp add: UsersGet_HandleRequestThrow_def users_cache_key_def Let_def del: append.simps
      split: option.split sum.split)

lemma UsersGet_read_through:
  "read_through lib env sv (snd (snd (UsersGet_HandleRequestThrow lib env req resp sv)))"
proof -
  let ?login = "GetArg req ''login''" and ?mask = "GetArg req ''name_mask''"
  consider (invalid) "(?login \<noteq> []) = (?mask \<noteq> [])" | (login) "?login \<noteq> []" "?mask = []"
    | (mask) "?login = []" "?mask \<noteq> []" by blast
  then show ?thesis
  proof cases
    case invalid
    then show ?thesis by (simp add: UsersGet_invalid read_through_refl)
  next
    case login
    obtain cached c where get: "CacheGet (steady_get env) (''users:login:'' @ ?login) (cache sv) = (cached, c)"
      by fastforce
    show ?thesis
      by (intro read_through_cases [OF get])
        (auto simp: UsersGet_login [OF login get] Let_def read_results fresh_body_users
          simp del: append.simps split: option.split)
  next
    case mask
    obtain cached c where get: "CacheGet (steady_get env) (''users:name_mask:'' @ ?mask) (cache sv) = (cached, c)"
      by fastforce
    show ?thesis
      by (intro read_through_cases [OF get])
        (auto simp: UsersGet_mask [OF mask get] Let_def read_results fresh_body_users
          simp del: append.simps split: option.split)
  qed
qed

text \<open>The two queries of \<open>GET /rides\<close>.\<close>

lemma RidesGet_cached_history:
  assumes "CacheGet (steady_get env) (''rides:history:'' @ arg) (cache sv) = (cached, c)"
  shows "RidesGet_cached lib env True arg resp sv =
    (let resp1 = SetHeader ''X-Cache'' ''MISS'' resp
     in case cached of
          Some body \<Rightarrow> (Inr body, SetHeader ''X-Cache'' ''HIT'' resp, sv\<lparr>cache := c\<rparr>)
        | None \<Rightarrow>
            (case stoi arg of
               Inl e \<Rightarrow> (Inl e, resp1, sv\<lparr>cache := c\<rparr>)
             | Inr uid \<Rightarrow>
                 (case GetRidesByUserId (env_pg env) uid (storage sv) of
                    Inl e \<Rightarrow> (Inl e, resp1, sv\<lparr>cache := c\<rparr>)
                  | Inr rs \<Rightarrow>
                      (Inr (rides_body lib rs), resp1,
                       sv\<lparr>cache := CacheSet (steady_set env) (''rides:history:'' @ arg)
                            (rides_body lib rs) 60 c\<rparr>))))"
  using assms by (simp add: RidesGet_cached_def Let_def del: append.simps split: option.split sum.split)

lemma RidesGet_cached_active:
  assumes "CacheGet (steady_get env) ''rides:active'' (cache sv) = (cached, c)"
  shows "RidesGet_cached lib env False arg resp sv =
    (let resp1 = SetHeader ''X-Cache'' ''MISS'' resp
     in case cached of
          Some body \<Rightarrow> (Inr body, SetHeader ''X-Cache'' ''HIT'' resp, sv\<lparr>cache := c\<rparr>)
        | None \<Rightarrow>
            (case GetActiveRides (env_pg env) (storage sv) of
               Inl e \<Rightarrow> (Inl e, resp1, sv\<lparr>cache := c\<rparr>)
             | Inr rs \<Rightarrow>
                 (Inr (rides_body lib rs), resp1,
                  sv\<lparr>cache := CacheSet (steady_set env) ''rides:active'' (rides_body lib rs) 15 c\<rparr>)))"
  using assms by (simp add: RidesGet_cached_def Let_def split: option.split sum.split)

lemma RidesGet_cached_read_through:
  "read_through lib env sv (snd (snd (RidesGet_cached lib env history arg resp sv)))"
proof (cases history)
  case True
  obtain cached c where get: "CacheGet (steady_get env) (''rides:history:'' @ arg) (cache sv) = (cached, c)"
    by fastforce
  show ?thesis
    by (intro read_through_cases [OF get])
      (auto simp: True RidesGet_cached_history [OF get] Let_def read_results fresh_body_rides
        simp del: append.simps split: option.split sum.split)
next
  case False
  obtain cached c where get: "CacheGet (steady_get env) ''rides:active'' (cache sv) = (cached, c)"
    by fastforce
  show ?thesis
    by (intro read_through_cases [OF get])
      (auto simp: False RidesGet_cached_active [OF get] Let_def read_results fresh_body_rides
        split: option.split sum.split)
qed

text \<open>
  \<open>GET /rides\<close> by cases: refused with 400 or 429 (or by an error of the limiter) with the cache
  untouched, or the cached part runs with a response prepared so far.
\<close>

definition RidesGet_history :: "request \<Rightarrow> bool" where
  "RidesGet_history req \<longleftrightarrow> GetArg req ''user_id'' \<noteq> []"

lemma RidesGet_cases:
  obtains (Refused) r resp' rl where
      "\<And>c. RidesGet_HandleRequestThrow lib env req resp (sv\<lparr>cache := c\<rparr>) = (r, resp', sv\<lparr>cache := c, limiter := rl\<rparr>)"
    | (Cached) resp1 rl where
      "\<And>c. RidesGet_HandleRequestThrow lib env req resp (sv\<lparr>cache := c\<rparr>) =
         RidesGet_cached lib env (RidesGet_history req) (GetArg req ''user_id'') resp1
           (sv\<lparr>cache := c, limiter := rl\<rparr>)"
proof (cases "RidesGet_history req")
  case True
  with Cached [of "SetContentType ''application/json'' resp" "limiter sv"] show thesis
    by (simp add: RidesGet_HandleRequestThrow_def RidesGet_history_def Let_def)
next
  case False
  show thesis
  proof (cases "GetArg req ''status'' = ''active''")
    case invalid: False
    with False Refused [of _ _ "limiter sv"] show thesis
      by (simp add: RidesGet_HandleRequestThrow_def RidesGet_history_def Let_def)
  next
    case active: True
    obtain res rl where chk: "Check (system_now env) ACTIVE_RIDES_KEY kActiveRidesLimitPerMinute 60 (limiter sv) = (res, rl)"
      by fastforce
    show thesis
    proof (cases res)
      case (Inl e)
      with False active chk Refused [of _ _ rl] show thesis
        by (simp add: RidesGet_HandleRequestThrow_def RidesGet_history_def Let_def)
    next
      case (Inr a)
      with False active chk Refused [of _ _ rl] Cached [of _ rl] show thesis
        by (cases "allowed a")
          (simp_all add: RidesGet_HandleRequestThrow_def RidesGet_history_def Let_def)
    qed
  qed
qed

lemma RidesGet_read_through:
  "read_through lib env sv (snd (snd (RidesGet_HandleRequestThrow lib env req resp sv)))"
proof (cases rule: RidesGet_cases [of lib env req resp sv])
  case (Refused r resp' rl)
  from Refused [of "cache sv"] show ?thesis by (simp add: read_through_def)
next
  case (Cached resp1 rl)
  from RidesGet_cached_read_through [of lib env "sv\<lparr>limiter := rl\<rparr>"
      "RidesGet_history req" "GetArg req ''user_id''" resp1]
  show ?thesis using Cached [of "cache sv"] by (simp add: read_through_def)
qed

end
