(* ===== verification/CacheTransparency.thy ===== *)
theory CacheTransparency
  imports Coherence
begin

text \<open>
  The consequences of coherence for the clients of the service: requests are answered as if there
  were no cache, and after a lost connection the stale entries are gone within a minute.
\<close>

section \<open>Every request keeps the cache coherent\<close>

definition server_coherent :: "'j json_lib \<Rightarrow> (string \<Rightarrow> string) \<Rightarrow> int \<Rightarrow> 'm server \<Rightarrow> bool" where
  "server_coherent lib lower t s \<longleftrightarrow> coherent lib lower t (svc s)"

lemma server_coherent_init: "server_coherent lib lower t (server_init db m)"
  by (simp add: server_coherent_def server_init_def coherent_init)

text \<open>The collation of the database is fixed, and no write loses its connection after the commit.\<close>

definition settled :: "(string \<Rightarrow> string) \<Rightarrow> req_env \<Rightarrow> bool" where
  "settled lower env \<longleftrightarrow> pg_lower (env_pg env) = lower \<and> pg_fault (env_pg env) \<noteq> FaultAfter"

lemma sql_handler_coherent:
  assumes coh: "coherent lib lower t sv" and env: "settled lower env"
    and h: "sql_handler ep = Some h"
  shows "coherent lib lower t (snd (snd (h lib env req resp sv)))"
proof (cases ep)
  case EP_UsersCreate
  with coh env h show ?thesis
    by (auto simp: UsersCreate_state settled_def intro: CreateUser_coherent split: option.split prod.split)
next
  case EP_UsersGet
  with coh env h show ?thesis
    using read_through_coherent [OF coh UsersGet_read_through [of lib env sv req resp]]
    by (simp add: settled_def)
next
  case EP_AuthLogin
  have "pg_cluster (snd (Login (env_pg env) l p st)) = pg_cluster st" for l p st
    by (metis Login_pg_cluster prod.collapse)
  with EP_AuthLogin coh h show ?thesis
    by (auto simp: AuthLogin_state coherent_def split: option.split)
next
  case EP_DriversCreate
  with coh env h show ?thesis
    by (auto simp: DriversCreate_state settled_def intro: CreateDriver_coherent split: option.split prod.split)
next
  case EP_RidesCreate
  with coh env h show ?thesis
    by (auto simp: RidesCreate_state settled_def intro: CreateRide_coherent split: option.split prod.split)
next
  case EP_RidesGet
  with coh env h show ?thesis
    using read_through_coherent [OF coh RidesGet_read_through [of lib env sv req resp]]
    by (simp add: settled_def)
next
  case EP_RidesAccept
  with coh env h show ?thesis
    by (auto simp: RidesAccept_state settled_def intro: AcceptRide_coherent split: option.split prod.split)
next
  case EP_RidesComplete
  with coh env h show ?thesis
    by (auto simp: RidesComplete_state settled_def intro: CompleteRide_coherent split: option.split prod.split)
qed (use h in simp_all)

lemma server_step_svc:
  fixes pf :: "('j, 'm, 'd) platform"
  obtains (Same) "svc (server_step pf (env, req) s) = svc s"
    | (Ran) ep h where "sql_handler ep = Some h" "pf_route pf req = Some ep"
        "authorized (server_storage s) req"
        "svc (server_step pf (env, req) s) = snd (snd (h (pf_json pf) env req empty_response (svc s)))"
proof (cases rule: handle_cases [of s req pf env])
  case Refused
  with Same show thesis by (simp add: server_step_def)
next
  case Passed
  show thesis
  proof (cases "pf_route pf req")
    case None
    with Passed Same show thesis by (simp add: server_step_def dispatch_unrouted)
  next
    case (Some ep)
    with Passed Same Ran [of ep] show thesis
      by (cases "sql_handler ep :: 'j handler option") (simp_all add: server_step_def dispatch_svc [OF Some])
  qed
qed

lemma server_step_coherent:
  assumes "server_coherent (pf_json pf) lower t s" and "settled lower (fst op)"
  shows "server_coherent (pf_json pf) lower t (server_step pf op s)"
proof -
  obtain env req where op: "op = (env, req)" by fastforce
  show ?thesis
  proof (cases rule: server_step_svc [of pf env req s])
    case Same
    with assms(1) op show ?thesis by (simp add: server_coherent_def)
  next
    case (Ran ep h)
    with assms op sql_handler_coherent [of "pf_json pf" lower t "svc s" env ep h req empty_response]
    show ?thesis by (simp add: server_coherent_def)
  qed
qed

lemma server_run_coherent:
  assumes "server_coherent (pf_json pf) lower t s" and "\<forall>op\<in>set ops. settled lower (fst op)"
  shows "server_coherent (pf_json pf) lower t (server_run pf ops s)"
  using assms unfolding server_run_def
  by (induction ops arbitrary: s) (simp_all add: server_step_coherent)

section \<open>Answers do not depend on the cache\<close>

text \<open>
  A service whose cache was emptied, and what a client and later requests can see of the outcome
  of a handler: everything but the header that tells a hit from a miss, and the cache itself.
\<close>

definition clear_cache :: "service \<Rightarrow> service" where
  "clear_cache sv = sv\<lparr>cache := ResponseCache_init\<rparr>"

definition visible :: "string result \<times> response \<times> service \<Rightarrow>
    string result \<times> nat \<times> string \<times> service" where
  "visible out =
     (case out of (r, resp, sv) \<Rightarrow> (r, resp_status resp, resp_content_type resp, clear_cache sv))"

lemma clear_cache_simps [simp]:
  "storage (clear_cache sv) = storage sv" "limiter (clear_cache sv) = limiter sv"
  "cache (clear_cache sv) = ResponseCache_init"
  "clear_cache (sv\<lparr>cache := c\<rparr>) = clear_cache sv"
  "clear_cache (clear_cache sv) = clear_cache sv"
  by (simp_all add: clear_cache_def)

lemma clear_cache_storage: "clear_cache (sv\<lparr>storage := st\<rparr>) = (clear_cache sv)\<lparr>storage := st\<rparr>"
  by (simp add: clear_cache_def)

lemma clear_cache_limiter: "clear_cache (sv\<lparr>limiter := rl\<rparr>) = (clear_cache sv)\<lparr>limiter := rl\<rparr>"
  by (simp add: clear_cache_def)

lemma writers_transparent:
  "visible (UsersCreate_HandleRequestThrow lib env req resp (clear_cache sv)) =
     visible (UsersCreate_HandleRequestThrow lib env req resp sv)"
  "visible (DriversCreate_HandleRequestThrow lib env req resp (clear_cache sv)) =
     visible (DriversCreate_HandleRequestThrow lib env req resp sv)"
  "visible (RidesCreate_HandleRequestThrow lib env req resp (clear_cache sv)) =
     visible (RidesCreate_HandleRequestThrow lib env req resp sv)"
  "visible (RidesAccept_HandleRequestThrow lib env req resp (clear_cache sv)) =
     visible (RidesAccept_HandleRequestThrow lib env req resp sv)"
  "visible (RidesComplete_HandleRequestThrow lib env req resp (clear_cache sv)) =
     visible (RidesComplete_HandleRequestThrow lib env req resp sv)"
  "visible (AuthLogin_HandleRequestThrow lib env req resp (clear_cache sv)) =
     visible (AuthLogin_HandleRequestThrow lib env req resp sv)"
  by (simp_all add: UsersCreate_HandleRequestThrow_def DriversCreate_HandleRequestThrow_def
      RidesCreate_HandleRequestThrow_def RidesAccept_HandleRequestThrow_def
      RidesComplete_HandleRequestThrow_def AuthLogin_HandleRequestThrow_def
      visible_def clear_cache_storage Let_def split: option.split sum.split prod.split)

lemma get_from_empty: "fst (CacheGet now key ResponseCache_init) = None"
  by (simp add: CacheGet_def ResponseCache_init_def)

lemma hit_is_fresh_body:
  assumes "coherent lib lower t sv" and "t \<le> now" and "CacheGet now key (cache sv) = (Some body, c)"
  shows "fresh_body lib lower (pg_cluster (storage sv)) key = Some body"
  using assms rc.hit_is_fresh [of "cache sv" t "fresh_body lib lower (pg_cluster (storage sv))" now key body]
  by (simp add: coherent_def)

lemmas visible_simps = visible_def response_defs

lemma UsersGet_transparent:
  assumes coh: "coherent lib (pg_lower (env_pg env)) t sv" and t: "t \<le> steady_get env"
    and ok: "pg_fault (env_pg env) = NoFault"
  shows "visible (UsersGet_HandleRequestThrow lib env req resp (clear_cache sv)) =
    visible (UsersGet_HandleRequestThrow lib env req resp sv)"
proof -
  let ?login = "GetArg req ''login''" and ?mask = "GetArg req ''name_mask''"
  consider (invalid) "(?login \<noteq> []) = (?mask \<noteq> [])" | (login) "?login \<noteq> []" "?mask = []"
    | (mask) "?login = []" "?mask \<noteq> []" by blast
  then show ?thesis
  proof cases
    case invalid
    then show ?thesis by (simp add: UsersGet_invalid visible_def)
  next
    case login
    let ?key = "''users:login:'' @ ?login"
    obtain cached c where get: "CacheGet (steady_get env) ?key (cache sv) = (cached, c)" by fastforce
    obtain c0 where get0: "CacheGet (steady_get env) ?key (cache (clear_cache sv)) = (None, c0)"
      using get_from_empty [of "steady_get env" ?key] by (metis clear_cache_simps(3) prod.collapse)
    have "fresh_body lib (pg_lower (env_pg env)) (pg_cluster (storage sv)) ?key = Some body"
      if "cached = Some body" for body
      using hit_is_fresh_body [OF coh t, of ?key body c] get that by simp
    then show ?thesis
      by (auto simp: UsersGet_login [OF login get] UsersGet_login [OF login get0] Let_def read_results ok
          visible_simps fresh_body_users simp del: append.simps split: option.split)
  next
    case mask
    let ?key = "''users:name_mask:'' @ ?mask"
    obtain cached c where get: "CacheGet (steady_get env) ?key (cache sv) = (cached, c)" by fastforce
    obtain c0 where get0: "CacheGet (steady_get env) ?key (cache (clear_cache sv)) = (None, c0)"
      using get_from_empty [of "steady_get env" ?key] by (metis clear_cache_simps(3) prod.collapse)
    have "fresh_body lib (pg_lower (env_pg env)) (pg_cluster (storage sv)) ?key = Some body"
      if "cached = Some body" for body
      using hit_is_fresh_body [OF coh t, of ?key body c] get that by simp
    then show ?thesis
      by (auto simp: UsersGet_mask [OF mask get] UsersGet_mask [OF mask get0] Let_def read_results ok
          visible_simps fresh_body_users simp del: append.simps split: option.split)
  qed
qed

lemma RidesGet_cached_transparent:
  assumes coh: "coherent lib (pg_lower (env_pg env)) t sv" and t: "t \<le> steady_get env"
    and ok: "pg_fault (env_pg env) = NoFault"
  shows "visible (RidesGet_cached lib env history arg resp (clear_cache sv)) =
    visible (RidesGet_cached lib env history arg resp sv)"
proof -
  define key where "key = (if history then ''rides:history:'' @ arg else ''rides:active'')"
  obtain cached c where get: "CacheGet (steady_get env) key (cache sv) = (cached, c)" by fastforce
  obtain c0 where get0: "CacheGet (steady_get env) key (cache (clear_cache sv)) = (None, c0)"
    using get_from_empty [of "steady_get env" key] by (metis clear_cache_simps(3) prod.collapse)
  have fresh: "fresh_body lib (pg_lower (env_pg env)) (pg_cluster (storage sv)) key = Some body"
    if "cached = Some body" for body
    using hit_is_fresh_body [OF coh t, of key body c] get that by simp
  show ?thesis
  proof (cases history)
    case True
    then have key: "key = ''rides:history:'' @ arg" by (simp add: key_def)
    show ?thesis
      using fresh
      by (cases cached) (auto simp: True RidesGet_cached_history [OF get [unfolded key]] RidesGet_cached_history [OF get0 [unfolded key]]
          Let_def read_results ok visible_simps fresh_body_rides key simp del: append.simps
          split: option.split sum.split)
  next
    case False
    then have key: "key = ''rides:active''" by (simp add: key_def)
    show ?thesis
      using fresh
      by (cases cached) (auto simp: False RidesGet_cached_active [OF get [unfolded key]] RidesGet_cached_active [OF get0 [unfolded key]]
          Let_def read_results ok visible_simps fresh_body_rides key split: option.split sum.split)
  qed
qed

lemma RidesGet_transparent:
  assumes coh: "coherent lib (pg_lower (env_pg env)) t sv" and t: "t \<le> steady_get env"
    and ok: "pg_fault (env_pg env) = NoFault"
  shows "visible (RidesGet_HandleRequestThrow lib env req resp (clear_cache sv)) =
    visible (RidesGet_HandleRequestThrow lib env req resp sv)"
proof (cases rule: RidesGet_cases [of lib env req resp sv])
  case (Refused r resp' rl)
  from Refused [of "cache sv"] Refused [of ResponseCache_init] show ?thesis
    by (simp add: visible_def clear_cache_def)
next
  case (Cached resp1 rl)
  from coh have "coherent lib (pg_lower (env_pg env)) t (sv\<lparr>limiter := rl\<rparr>)"
    by (simp add: coherent_def)
  note tr = RidesGet_cached_transparent [OF this t ok, of "RidesGet_history req" "GetArg req ''user_id''" resp1]
  from tr [unfolded clear_cache_limiter] Cached [of "cache sv"] Cached [of ResponseCache_init]
  show ?thesis by (simp add: clear_cache_limiter clear_cache_def [of sv])
qed

lemma sql_handler_transparent:
  assumes coh: "coherent lib (pg_lower (env_pg env)) t sv" and t: "t \<le> steady_get env"
    and ok: "pg_fault (env_pg env) = NoFault" and h: "sql_handler ep = Some h"
  shows "visible (h lib env req resp (clear_cache sv)) = visible (h lib env req resp sv)"
proof (cases ep)
  case EP_UsersGet
  with h UsersGet_transparent [OF coh t ok] show ?thesis by simp
next
  case EP_RidesGet
  with h RidesGet_transparent [OF coh t ok] show ?thesis by simp
qed (use h writers_transparent in \<open>simp_all\<close>)

section \<open>The same for the server\<close>

definition server_clear :: "'m server \<Rightarrow> 'm server" where
  "server_clear s = s\<lparr>svc := clear_cache (svc s)\<rparr>"

text \<open>The status, the content type and the body of a response.\<close>

definition answer :: "response result \<Rightarrow> (nat \<times> string \<times> string) result" where
  "answer r = map_sum id (\<lambda>resp. (resp_status resp, resp_content_type resp, resp_data resp)) r"

lemma run_sql_transparent:
  assumes "visible (h lib env req resp (clear_cache (svc s))) = visible (h lib env req resp (svc s))"
  shows "answer (fst (run_sql h lib env req resp (server_clear s))) = answer (fst (run_sql h lib env req resp s)) \<and>
    server_clear (snd (run_sql h lib env req resp (server_clear s))) = server_clear (snd (run_sql h lib env req resp s))"
  using assms
  by (auto simp: run_sql_def server_clear_def visible_def answer_def finish_def SetData_def
      split: prod.splits sum.splits)

lemma server_clear_simps [simp]:
  "server_storage (server_clear s) = server_storage s"
  "server_clear (server_clear s) = server_clear s"
  "mongo_users (server_clear s) = mongo_users s"
  "server_clear ((server_clear s)\<lparr>mongo_users := m\<rparr>) = server_clear (s\<lparr>mongo_users := m\<rparr>)"
  by (simp_all add: server_clear_def server_storage_def)

lemma handle_transparent:
  fixes pf :: "('j, 'm, 'd) platform"
  assumes coh: "server_coherent (pf_json pf) (pg_lower (env_pg env)) t s" and t: "t \<le> steady_get env"
    and ok: "pg_fault (env_pg env) = NoFault"
  shows "answer (fst (handle pf env req (server_clear s))) = answer (fst (handle pf env req s)) \<and>
    server_clear (snd (handle pf env req (server_clear s))) = server_clear (snd (handle pf env req s))"
proof (cases "authorized (server_storage s) req")
  case False
  then show ?thesis by (simp add: handle_def AuthMiddleware_refuse)
next
  case True
  then have pass: "handle pf env req s = dispatch pf env req empty_response s"
    "handle pf env req (server_clear s) = dispatch pf env req empty_response (server_clear s)"
    by (simp_all add: handle_def AuthMiddleware_pass)
  show ?thesis
  proof (cases "pf_route pf req")
    case None
    then show ?thesis by (simp add: pass dispatch_def)
  next
    case (Some ep)
    show ?thesis
    proof (cases "sql_handler ep :: 'j handler option")
      case None
      with Some show ?thesis
        by (simp add: pass dispatch_def Let_def split: prod.split)
    next
      case h: (Some h)
      have "visible (h (pf_json pf) env req empty_response (clear_cache (svc s))) =
          visible (h (pf_json pf) env req empty_response (svc s))"
        using sql_handler_transparent [OF _ t ok h] coh by (simp add: server_coherent_def)
      from run_sql_transparent [of h "pf_json pf" env req empty_response s, OF this] Some h show ?thesis
        by (simp add: pass dispatch_def)
    qed
  qed
qed

section \<open>Whole runs\<close>

text \<open>
  The answers to a list of requests, by the service and by one that forgets its cache before
  every request.
\<close>

fun answers :: "('j, 'm, 'd) platform \<Rightarrow> operation list \<Rightarrow> 'm server \<Rightarrow>
    (nat \<times> string \<times> string) result list" where
  "answers pf [] s = []"
| "answers pf (op # ops) s =
     answer (fst (handle pf (fst op) (snd op) s)) # answers pf ops (server_step pf op s)"

fun answers_uncached :: "('j, 'm, 'd) platform \<Rightarrow> operation list \<Rightarrow> 'm server \<Rightarrow>
    (nat \<times> string \<times> string) result list" where
  "answers_uncached pf [] s = []"
| "answers_uncached pf (op # ops) s =
     answer (fst (handle pf (fst op) (snd op) (server_clear s))) #
       answers_uncached pf ops (server_step pf op (server_clear s))"

text \<open>No fault at all, and the steady clock has reached \<open>t\<close>.\<close>

definition faultless :: "(string \<Rightarrow> string) \<Rightarrow> int \<Rightarrow> req_env \<Rightarrow> bool" where
  "faultless lower t env \<longleftrightarrow>
     pg_lower (env_pg env) = lower \<and> pg_fault (env_pg env) = NoFault \<and> t \<le> steady_get env"

lemma faultless_settled: "faultless lower t env \<Longrightarrow> settled lower env"
  by (simp add: faultless_def settled_def)

lemma answers_transparent:
  assumes "server_coherent (pf_json pf) lower t s" and "\<forall>op\<in>set ops. faultless lower t (fst op)"
    and "server_clear s' = server_clear s"
  shows "answers pf ops s = answers_uncached pf ops s'"
  using assms
proof (induction ops arbitrary: s s')
  case Nil
  then show ?case by simp
next
  case (Cons op ops)
  obtain env req where op: "op = (env, req)" by fastforce
  with Cons.prems(2) have env: "pg_lower (env_pg env) = lower" "pg_fault (env_pg env) = NoFault" "t \<le> steady_get env"
    by (simp_all add: faultless_def)
  from Cons.prems(1) env(1) have coh: "server_coherent (pf_json pf) (pg_lower (env_pg env)) t s" by simp
  from handle_transparent [OF coh env(3,2), of req]
  have one: "answer (fst (handle pf env req (server_clear s'))) = answer (fst (handle pf env req s))"
    and next_state: "server_clear (server_step pf op (server_clear s')) = server_clear (server_step pf op s)"
    by (simp_all add: op server_step_def Cons.prems(3))
  have "server_coherent (pf_json pf) lower t (server_step pf op s)"
    by (rule server_step_coherent [OF Cons.prems(1)]) (use Cons.prems(2) in \<open>auto intro: faultless_settled\<close>)
  from Cons.IH [OF this _ next_state] Cons.prems(2) one show ?case by (simp add: op)
qed

section \<open>Entries expire within a minute\<close>

definition expires_by :: "int \<Rightarrow> response_cache \<Rightarrow> bool" where
  "expires_by T c \<longleftrightarrow> cache_wf c \<and> (\<forall>t\<ge>T. \<forall>k. live_body t c k = None)"

lemma expires_by_coherent:
  "expires_by T (cache sv) \<Longrightarrow> coherent lib lower T sv"
  by (simp add: coherent_def coherent_from_def expires_by_def)

lemma expires_by_init: "expires_by T (cache (service_init db))"
  by (simp add: expires_by_def service_init_def cache_wf_init)

lemma expires_by_invalidate_if:
  "expires_by T c \<Longrightarrow> expires_by T (invalidate_if p res c)"
  by (auto simp: expires_by_def invalidate_if_def rc.invalidate_wf rc.invalidate_live
      split: sum.split option.split)

lemma expires_by_get: "expires_by T c \<Longrightarrow> expires_by T (snd (CacheGet now k c))"
  unfolding expires_by_def by (metis CacheGet_live not_None_eq rc.get_wf)

lemma expires_by_put:
  "expires_by T c \<Longrightarrow> now + ttl * SECOND \<le> T \<Longrightarrow> expires_by T (CacheSet now k v ttl c)"
  by (simp add: expires_by_def rc.put_wf rc.put_live)

lemma read_through_expires:
  assumes "expires_by T (cache sv)" and "read_through lib env sv sv'"
    and "steady_set env + 60 * SECOND \<le> T"
  shows "expires_by T (cache sv')"
proof -
  have "steady_set env + ttl * SECOND \<le> T" if "ttl \<le> 60" for ttl
    using assms(3) that by linarith
  with assms(1,2) show ?thesis
    by (auto simp: read_through_def intro!: expires_by_put expires_by_get)
qed

lemma sql_handler_expires:
  assumes old: "expires_by T (cache sv)" and now: "steady_set env + 60 * SECOND \<le> T"
    and h: "sql_handler ep = Some h"
  shows "expires_by T (cache (snd (snd (h lib env req resp sv))))"
proof (cases ep)
  case EP_UsersGet
  with h read_through_expires [OF old UsersGet_read_through now] show ?thesis by simp
next
  case EP_RidesGet
  with h read_through_expires [OF old RidesGet_read_through now] show ?thesis by simp
qed (use h old in \<open>auto simp: UsersCreate_state AuthLogin_state DriversCreate_state RidesCreate_state
      RidesAccept_state RidesComplete_state expires_by_invalidate_if split: option.split prod.split\<close>)

lemma server_step_expires:
  assumes "expires_by T (cache (svc s))" and "steady_set (fst op) + 60 * SECOND \<le> T"
  shows "expires_by T (cache (svc (server_step pf op s)))"
proof -
  obtain env req where op: "op = (env, req)" by fastforce
  show ?thesis
  proof (cases rule: server_step_svc [of pf env req s])
    case Same
    with assms(1) op show ?thesis by simp
  next
    case (Ran ep h)
    with assms op sql_handler_expires show ?thesis by fastforce
  qed
qed

lemma server_run_expires:
  assumes "expires_by T (cache (svc s))" and "\<forall>op\<in>set ops. steady_set (fst op) + 60 * SECOND \<le> T"
  shows "expires_by T (cache (svc (server_run pf ops s)))"
  using assms unfolding server_run_def
  by (induction ops arbitrary: s) (simp_all add: server_step_expires)

text \<open>
  Whatever faults the requests up to a time met, one minute later the cache is coherent again,
  and stays so while no write loses its connection.
\<close>

lemma server_heals:
  assumes "\<forall>op\<in>set ops1. steady_set (fst op) \<le> \<tau>" and "\<forall>op\<in>set ops2. settled lower (fst op)"
  shows "server_coherent (pf_json pf) lower (\<tau> + 60 * SECOND)
    (server_run pf ops2 (server_run pf ops1 (server_init db m)))"
proof -
  have "expires_by (\<tau> + 60 * SECOND) (cache (svc (server_run pf ops1 (server_init db m))))"
    using assms(1) by (intro server_run_expires) (auto simp: server_init_def expires_by_init)
  then have "server_coherent (pf_json pf) lower (\<tau> + 60 * SECOND) (server_run pf ops1 (server_init db m))"
    by (simp add: server_coherent_def expires_by_coherent)
  then show ?thesis using assms(2) by (rule server_run_coherent)
qed

end
