(* ===== verification/Scenario.thy ===== *)
theory Scenario
  imports ServerInvariant CacheTransparency
begin

text \<open>
  A concrete platform and a day of the service on it, on which the hypotheses of the theorems
  are checked: bodies are texts such as \<open>login=ann&password=pw\<close>, values are printed as JSON,
  the router compares methods and paths, and the collection of MongoDB is a list.
\<close>

section \<open>A JSON library\<close>

fun split_on :: "char \<Rightarrow> string \<Rightarrow> string list" where
  "split_on c [] = [[]]"
| "split_on c (x # xs) =
     (if x = c then [] # split_on c xs
      else (case split_on c xs of [] \<Rightarrow> [[x]] | w # ws \<Rightarrow> (x # w) # ws))"

definition demo_field :: "string \<Rightarrow> string \<times> string" where
  "demo_field f = (case split_on (CHR ''='') f of [k, v] \<Rightarrow> (k, v) | _ \<Rightarrow> (f, []))"

fun demo_print :: "jval \<Rightarrow> string" where
  "demo_print (JInt i) = std_to_string i"
| "demo_print (JStr s) = [CHR 0x22] @ s @ [CHR 0x22]"
| "demo_print (JArr js) = ''['' @ concat (map (\<lambda>j. demo_print j @ '','') js) @ '']''"
| "demo_print (JObj ms) =
     ''{'' @ concat (map (\<lambda>kv. [CHR 0x22] @ fst kv @ [CHR 0x22] @ '':'' @ demo_print (snd kv) @ '','') ms) @ ''}''"

definition demo_json :: "(string \<times> string) list json_lib" where
  "demo_json =
     \<lparr>FromString = (\<lambda>s. if s = [] then None else Some (map demo_field (split_on (CHR ''&'') s))),
      as_string = (\<lambda>j k. map_of j k),
      as_int = (\<lambda>j k. case map_of j k of None \<Rightarrow> None | Some v \<Rightarrow> parse_int v),
      has_member = (\<lambda>j k. Some (map_of j k \<noteq> None)),
      ToString = demo_print\<rparr>"

section \<open>A collection of documents\<close>

fun doc_member :: "bson \<Rightarrow> string \<Rightarrow> bson option" where
  "doc_member (BDoc ms) k = map_of ms k"
| "doc_member d k = None"

definition demo_mongo :: "(bson list, bson) mongo_lib" where
  "demo_mongo =
     \<lparr>FindOne = (\<lambda>m q. Inr (find (\<lambda>d. doc_member d ''login'' = doc_member q ''login'') m)),
      Find = (\<lambda>m q. Inr m),
      InsertOne = (\<lambda>m d. (Inr (), m @ [d])),
      doc_HasMember = (\<lambda>d k. Inr (doc_member d k \<noteq> None)),
      doc_string = (\<lambda>d k. case doc_member d k of Some (BStr s) \<Rightarrow> Inr s | _ \<Rightarrow> Inl MongoFailure),
      doc_sub = (\<lambda>d k. case doc_member d k of Some d' \<Rightarrow> Inr d' | None \<Rightarrow> Inl MongoFailure)\<rparr>"

section \<open>A router\<close>

definition demo_route :: "request \<Rightarrow> endpoint option" where
  "demo_route req =
     (let m = request_method req; p = GetRequestPath req
      in if p = ''/users'' then (if m = ''POST'' then Some EP_UsersCreate else Some EP_UsersGet)
         else if p = ''/auth/login'' then Some EP_AuthLogin
         else if p = ''/drivers'' then Some EP_DriversCreate
         else if p = ''/rides'' then (if m = ''POST'' then Some EP_RidesCreate else Some EP_RidesGet)
         else if p = ''/mongo/users''
         then (if m = ''POST'' then Some EP_MongoUsersCreate else Some EP_MongoUsersGet)
         else if prefix ''/rides/'' p \<and> suffix ''/accept'' p then Some EP_RidesAccept
         else if prefix ''/rides/'' p \<and> suffix ''/complete'' p then Some EP_RidesComplete
         else None)"

definition demo :: "((string \<times> string) list, bson list, bson) platform" where
  "demo = \<lparr>pf_json = demo_json, pf_mongo = demo_mongo, pf_route = demo_route,
           pf_framework = (\<lambda>req resp. Inr resp)\<rparr>"

lemma demo_routes: "routes_as_configured demo_route"
  by (auto simp: routes_as_configured_def demo_route_def Let_def fixed_path_def ride_path_def
      split: if_splits)

section \<open>Requests\<close>

definition demo_req :: "string \<Rightarrow> string \<Rightarrow> string \<Rightarrow> (string \<times> string) list \<Rightarrow> string \<Rightarrow> string \<Rightarrow> request" where
  "demo_req m p token args path_id body =
     \<lparr>request_method = m, GetRequestPath = p,
      GetHeader = (\<lambda>h. if h = ''Authorization'' \<and> token \<noteq> [] then ''Bearer '' @ token else []),
      GetArg = (\<lambda>k. case map_of args k of None \<Rightarrow> [] | Some v \<Rightarrow> v),
      GetPathArg = (\<lambda>k. if k = ''id'' then path_id else []),
      RequestBody = body\<rparr>"

definition demo_env :: "int \<Rightarrow> pg_fault \<Rightarrow> req_env" where
  "demo_env t fault =
     \<lparr>steady_get = t * SECOND, steady_set = t * SECOND, system_now = t * SECOND,
      env_pg = \<lparr>pg_now = t, pg_lower = (\<lambda>s. s), pg_fault = fault\<rparr>\<rparr>"

definition ann_joins :: operation where
  "ann_joins = (demo_env 1 NoFault,
     demo_req ''POST'' ''/users'' [] [] [] ''login=ann&password=pw&full_name=Ann Lee'')"

definition ann_logs_in :: operation where
  "ann_logs_in = (demo_env 2 NoFault,
     demo_req ''POST'' ''/auth/login'' [] [] [] ''login=ann&password=pw'')"

definition ann_token :: string where
  "ann_token = ''token-1-1''"

definition ann_drives :: operation where
  "ann_drives = (demo_env 3 NoFault,
     demo_req ''POST'' ''/drivers'' ann_token [] []
       ''user_id=1&car_model=Kia Rio&car_number=A111AA77&license_number=77AA'')"

definition ann_orders :: operation where
  "ann_orders = (demo_env 4 NoFault,
     demo_req ''POST'' ''/rides'' ann_token [] []
       ''passenger_id=1&pickup_address=Arbat 1&destination_address=Arbat 2'')"

definition ride_accepted :: "pg_fault \<Rightarrow> operation" where
  "ride_accepted fault = (demo_env 6 fault,
     demo_req ''PATCH'' ''/rides/1/accept'' ann_token [] ''1'' ''driver_id=1'')"

definition ride_completed :: operation where
  "ride_completed = (demo_env 8 NoFault,
     demo_req ''PATCH'' ''/rides/1/complete'' ann_token [] ''1'' [])"

definition active_rides :: "int \<Rightarrow> operation" where
  "active_rides t = (demo_env t NoFault,
     demo_req ''GET'' ''/rides'' ann_token [(''status'', ''active'')] [] [])"

definition demo_start :: "bson list server" where
  "demo_start = server_init empty_database []"

definition demo_day :: "operation list" where
  "demo_day = [ann_joins, ann_logs_in, ann_drives, ann_orders, active_rides 5, active_rides 5,
     ride_accepted NoFault, active_rides 7, ride_completed]"

lemmas demo_defs = demo_day_def ann_joins_def ann_logs_in_def ann_drives_def ann_orders_def
  ride_accepted_def ride_completed_def active_rides_def

section \<open>States of the day\<close>

definition demo_storage :: "nat \<Rightarrow> taxi_storage" where
  "demo_storage n = server_storage (server_run demo (take n demo_day) demo_start)"

definition demo_pg :: "int \<Rightarrow> pg_env" where
  "demo_pg t = env_pg (demo_env t NoFault)"

lemma demo_pg_ok: "pg_fault (demo_pg t) = NoFault"
  by (simp add: demo_pg_def demo_env_def)

lemma demo_storage_wf: "dispatch_wf (pg_cluster (demo_storage n))"
  using run_good [OF good_start_empty, of demo "take n demo_day" "[]"]
  by (simp add: good_start_def demo_storage_def demo_start_def server_db_storage)

lemma demo_storage_inv: "db_inv (pg_cluster (demo_storage n))"
  using demo_storage_wf by (simp add: dispatch_wf_def)

end
