(* ===== verification/HandlerProperties.thy ===== *)
theory HandlerProperties
  imports Scenario
begin

text \<open>
  The properties of the handlers: what an answer says about the database, when a request is
  refused, and what the handlers make of the arguments of a request.
\<close>

section \<open>Answers and the database\<close>

lemma no_value: "(\<And>x. res \<noteq> Inr (Some x)) \<Longrightarrow> res = Inr None \<or> (\<exists>e. res = Inl e)"
  by (cases res) auto

text \<open>C28: An answer says what became of the request: \<open>POST /users\<close> answers 201 exactly when it
  added one user, with the login, password and name given and the body describing him; 409 and
  400 leave the tables as they were, and so does an exception unless the connection was lost
  after the insert.\<close>

theorem users_create_answers:
  assumes "UsersCreate_HandleRequestThrow lib env req resp sv = (r, resp', sv')"
    and "resp_status resp = 200"
  shows "(\<exists>row login password full_name. r = Inr (user_body lib (ParseUser (select_user row))) \<and> resp_status resp' = 201 \<and>
      create_user_args lib req = Some (login, password, full_name) \<and>
      users_columns login password full_name = Inr (ur_login row, ur_password row, ur_full_name row) \<and>
      users (pg_cluster (storage sv')) = users (pg_cluster (storage sv)) @ [row]) \<or>
    (\<exists>body. r = Inr body \<and> resp_status resp' \<in> {400, 409} \<and>
      same_tables (pg_cluster (storage sv)) (pg_cluster (storage sv'))) \<or>
    (\<exists>e. r = Inl e \<and> (pg_fault (env_pg env) = FaultAfter \<or>
      same_tables (pg_cluster (storage sv)) (pg_cluster (storage sv'))))"
proof (cases "create_user_args lib req")
  case None
  with assms show ?thesis
    by (auto simp: UsersCreate_HandleRequestThrow_def create_user_args_def Let_def response_defs
        split: option.splits if_splits)
next
  case (Some a)
  obtain l p f where a: "a = (l, p, f)" by (cases a)
  obtain res st where run: "CreateUser (env_pg env) l p f (storage sv) = (res, st)" by fastforce
  from Some a assms run have out: "(r, resp', sv') =
      (let resp = SetContentType ''application/json'' resp
       in case res of
            Inl e \<Rightarrow> (Inl e, resp, sv\<lparr>storage := st\<rparr>)
          | Inr None \<Rightarrow> (Inr (error_body lib ''user already exists''), SetStatus 409 resp, sv\<lparr>storage := st\<rparr>)
          | Inr (Some user) \<Rightarrow>
              (Inr (user_body lib user), SetStatus 201 resp,
               sv\<lparr>storage := st, cache := InvalidatePrefix ''users:'' (cache sv)\<rparr>))"
    by (auto simp: UsersCreate_HandleRequestThrow_def create_user_args_def Let_def
        split: option.splits if_splits sum.splits)
  from run show ?thesis
  proof (cases rule: CreateUser_cases)
    case None
    with no_value [of res] have "res = Inr None \<or> (\<exists>e. res = Inl e)" by blast
    with out None(1) show ?thesis by (auto simp: Let_def response_defs)
  next
    case (Ok row)
    with out Some a show ?thesis
      by (auto simp: Let_def response_defs)
  qed
qed

theorem users_create_answers_witness:
  "\<exists>r resp' sv'. UsersCreate_HandleRequestThrow demo_json (fst ann_joins) (snd ann_joins) empty_response (svc demo_start) =
       (r, resp', sv') \<and> resp_status resp' = 201 \<and>
     (\<exists>row. users (pg_cluster (storage sv')) = users (pg_cluster (storage (svc demo_start))) @ [row])"
proof -
  let ?run = "UsersCreate_HandleRequestThrow demo_json (fst ann_joins) (snd ann_joins) empty_response (svc demo_start)"
  obtain r resp' sv' where run: "?run = (r, resp', sv')" by (cases ?run)
  have "case ?run of (Inl e, x) \<Rightarrow> False | (Inr b, resp, sv) \<Rightarrow> resp_status resp = 201" by code_simp
  with run have ok: "resp_status resp' = 201" "\<And>e. r \<noteq> Inl e" by (auto split: sum.splits)
  have "resp_status empty_response = 200" by (simp add: empty_response_def)
  from users_create_answers [OF run this] ok run show ?thesis by auto
qed

text \<open>
  A request that was refused: it was answered with a status of 400 or more, or failed with an
  exception while the connection did not break after a write.
\<close>

definition refused :: "req_env \<Rightarrow> 'r result \<Rightarrow> nat \<Rightarrow> bool" where
  "refused env r status \<longleftrightarrow>
     (case r of Inl e \<Rightarrow> pg_fault (env_pg env) \<noteq> FaultAfter | Inr x \<Rightarrow> 400 \<le> status)"

text \<open>An operation that neither gave a result nor lost its connection left the tables alone.\<close>

definition unconfirmed :: "pg_env \<Rightarrow> 'a option result \<Rightarrow> bool" where
  "unconfirmed env res \<longleftrightarrow> (\<exists>x. res = Inr (Some x)) \<or> (\<exists>e. res = Inl e) \<and> pg_fault env = FaultAfter"

lemma write_or_same:
  "CreateUser env l p f st = (r1, st') \<Longrightarrow> same_tables (pg_cluster st) (pg_cluster st') \<or> unconfirmed env r1"
  "CreateDriver env u m n q st = (r2, st') \<Longrightarrow> same_tables (pg_cluster st) (pg_cluster st') \<or> unconfirmed env r2"
  "CreateRide env u p d st = (r3, st') \<Longrightarrow> same_tables (pg_cluster st) (pg_cluster st') \<or> unconfirmed env r3"
  "AcceptRide env i d' st = (r4, st') \<Longrightarrow> same_tables (pg_cluster st) (pg_cluster st') \<or> unconfirmed env r4"
  "CompleteRide env i st = (r5, st') \<Longrightarrow> same_tables (pg_cluster st) (pg_cluster st') \<or> unconfirmed env r5"
proof -
  show "CreateUser env l p f st = (r1, st') \<Longrightarrow> same_tables (pg_cluster st) (pg_cluster st') \<or> unconfirmed env r1"
    by (erule CreateUser_cases) (auto simp: unconfirmed_def)
  show "CreateDriver env u m n q st = (r2, st') \<Longrightarrow> same_tables (pg_cluster st) (pg_cluster st') \<or> unconfirmed env r2"
    by (erule CreateDriver_cases) (auto simp: unconfirmed_def)
  show "CreateRide env u p d st = (r3, st') \<Longrightarrow> same_tables (pg_cluster st) (pg_cluster st') \<or> unconfirmed env r3"
    by (erule CreateRide_cases) (auto simp: unconfirmed_def)
  show "AcceptRide env i d' st = (r4, st') \<Longrightarrow> same_tables (pg_cluster st) (pg_cluster st') \<or> unconfirmed env r4"
    by (erule AcceptRide_cases) (auto simp: unconfirmed_def)
  show "CompleteRide env i st = (r5, st') \<Longrightarrow> same_tables (pg_cluster st) (pg_cluster st') \<or> unconfirmed env r5"
    by (erule CompleteRide_cases) (auto simp: unconfirmed_def)
qed

text \<open>The tables of a service, and what a handler does to them.\<close>

definition sv_same :: "service \<Rightarrow> service \<Rightarrow> bool" where
  "sv_same sv sv' \<longleftrightarrow> same_tables (pg_cluster (storage sv)) (pg_cluster (storage sv'))"

definition refuses_cleanly :: "'j handler \<Rightarrow> bool" where
  "refuses_cleanly h \<longleftrightarrow>
     (\<forall>lib env req resp sv. resp_status resp = 200 \<longrightarrow>
        (case h lib env req resp sv of
           (r, resp', sv') \<Rightarrow> refused env r (resp_status resp') \<longrightarrow> sv_same sv sv'))"

lemma refuses_cleanlyD:
  "refuses_cleanly h \<Longrightarrow> resp_status resp = 200 \<Longrightarrow> h lib env req resp sv = (r, resp', sv') \<Longrightarrow>
   refused env r (resp_status resp') \<Longrightarrow> sv_same sv sv'"
  unfolding refuses_cleanly_def
  by (drule spec [of _ lib], drule spec [of _ env], drule spec [of _ req], drule spec [of _ resp],
      drule spec [of _ sv]) simp

lemma UsersCreate_refuses: "refuses_cleanly UsersCreate_HandleRequestThrow"
proof -
  have "refused env r (resp_status resp') \<longrightarrow> sv_same sv sv'"
    if "resp_status resp = 200" "UsersCreate_HandleRequestThrow lib env req resp sv = (r, resp', sv')"
    for lib :: "'a json_lib" and env req resp sv r resp' sv'
    using that write_or_same(1) [of "env_pg env" _ _ _ "storage sv"]
    by (auto simp: UsersCreate_HandleRequestThrow_def refused_def sv_same_def unconfirmed_def Let_def response_defs
        split: option.splits sum.splits prod.splits if_splits) fastforce+
  then show ?thesis by (auto simp: refuses_cleanly_def split: prod.split)
qed

lemma DriversCreate_refuses: "refuses_cleanly DriversCreate_HandleRequestThrow"
proof -
  have "refused env r (resp_status resp') \<longrightarrow> sv_same sv sv'"
    if "resp_status resp = 200" "DriversCreate_HandleRequestThrow lib env req resp sv = (r, resp', sv')"
    for lib :: "'a json_lib" and env req resp sv r resp' sv'
    using that write_or_same(2) [of "env_pg env" _ _ _ _ "storage sv"]
    by (auto simp: DriversCreate_HandleRequestThrow_def refused_def sv_same_def unconfirmed_def Let_def response_defs
        split: option.splits sum.splits prod.splits if_splits) fastforce+
  then show ?thesis by (auto simp: refuses_cleanly_def split: prod.split)
qed

lemma RidesCreate_refuses: "refuses_cleanly RidesCreate_HandleRequestThrow"
proof -
  have "refused env r (resp_status resp') \<longrightarrow> sv_same sv sv'"
    if "resp_status resp = 200" "RidesCreate_HandleRequestThrow lib env req resp sv = (r, resp', sv')"
    for lib :: "'a json_lib" and env req resp sv r resp' sv'
    using that write_or_same(3) [of "env_pg env" _ _ _ "storage sv"]
    by (auto simp: RidesCreate_HandleRequestThrow_def refused_def sv_same_def unconfirmed_def Let_def response_defs
        split: option.splits sum.splits prod.splits if_splits) fastforce+
  then show ?thesis by (auto simp: refuses_cleanly_def split: prod.split)
qed

lemma RidesAccept_refuses: "refuses_cleanly RidesAccept_HandleRequestThrow"
proof -
  have "refused env r (resp_status resp') \<longrightarrow> sv_same sv sv'"
    if "resp_status resp = 200" "RidesAccept_HandleRequestThrow lib env req resp sv = (r, resp', sv')"
    for lib :: "'a json_lib" and env req resp sv r resp' sv'
    using that write_or_same(4) [of "env_pg env" _ _ "storage sv"]
    by (auto simp: RidesAccept_HandleRequestThrow_def refused_def sv_same_def unconfirmed_def Let_def response_defs
        split: option.splits sum.splits prod.splits if_splits) fastforce+
  then show ?thesis by (auto simp: refuses_cleanly_def split: prod.split)
qed

lemma RidesComplete_refuses: "refuses_cleanly RidesComplete_HandleRequestThrow"
proof -
  have "refused env r (resp_status resp') \<longrightarrow> sv_same sv sv'"
    if "resp_status resp = 200" "RidesComplete_HandleRequestThrow lib env req resp sv = (r, resp', sv')"
    for lib :: "'a json_lib" and env req resp sv r resp' sv'
    using that write_or_same(5) [of "env_pg env" _ "storage sv"]
    by (auto simp: RidesComplete_HandleRequestThrow_def refused_def sv_same_def unconfirmed_def Let_def response_defs
        split: option.splits sum.splits prod.splits if_splits) fastforce+
  then show ?thesis by (auto simp: refuses_cleanly_def split: prod.split)
qed

lemma reads_refuse:
  "refuses_cleanly UsersGet_HandleRequestThrow" "refuses_cleanly RidesGet_HandleRequestThrow"
  by (auto simp: refuses_cleanly_def sv_same_def dest!: UsersGet_storage RidesGet_storage split: prod.split)

lemma AuthLogin_same: "sv_same sv (snd (snd (AuthLogin_HandleRequestThrow lib env req resp sv)))"
proof -
  have "pg_cluster (snd (Login env l p st)) = pg_cluster st" for env l p st
    by (metis Login_pg_cluster prod.collapse)
  then show ?thesis by (auto simp: sv_same_def AuthLogin_state split: option.split)
qed

lemma AuthLogin_refuses: "refuses_cleanly AuthLogin_HandleRequestThrow"
  by (simp add: refuses_cleanly_def case_prod_unfold AuthLogin_same)

lemma sql_handler_refuses: "sql_handler ep = Some h \<Longrightarrow> refuses_cleanly h"
  by (cases ep)
    (auto simp: UsersCreate_refuses DriversCreate_refuses RidesCreate_refuses RidesAccept_refuses
      RidesComplete_refuses reads_refuse AuthLogin_refuses)

text \<open>C13: A refused request writes nothing: when a request is answered with a status of 400 or more,
  or fails with an exception while the connection did not break after a write, the tables of the
  database are as they were.\<close>

theorem refused_writes_nothing:
  fixes pf :: "('j, 'm, 'd) platform"
  assumes "handle pf env req s = (r, s')"
    and "case r of Inl e \<Rightarrow> pg_fault (env_pg env) \<noteq> FaultAfter | Inr resp \<Rightarrow> 400 \<le> resp_status resp"
  shows "same_tables (server_db s) (server_db s')"
proof (cases "authorized (server_storage s) req")
  case False
  with assms(1) show ?thesis by (auto simp: handle_def AuthMiddleware_refuse)
next
  case True
  with assms(1) have run: "dispatch pf env req empty_response s = (r, s')"
    by (simp add: handle_def AuthMiddleware_pass)
  show ?thesis
  proof (cases "pf_route pf req")
    case None
    with run show ?thesis by (auto simp: dispatch_def)
  next
    case (Some ep)
    show ?thesis
    proof (cases "sql_handler ep :: 'j handler option")
      case None
      with run Some show ?thesis
        by (auto simp: dispatch_def server_db_def Let_def split: if_splits prod.splits)
    next
      case h: (Some h)
      obtain r0 resp0 sv where out: "h (pf_json pf) env req empty_response (svc s) = (r0, resp0, sv)"
        by (cases "h (pf_json pf) env req empty_response (svc s)")
      with run Some h have r: "r = finish r0 resp0" and s': "s' = s\<lparr>svc := sv\<rparr>"
        by (simp_all add: dispatch_def run_sql_def)
      with assms(2) have "refused env r0 (resp_status resp0)"
        by (auto simp: refused_def finish_def SetData_def split: sum.splits)
      moreover have "resp_status empty_response = 200" by (simp add: empty_response_def)
      ultimately have "sv_same (svc s) sv"
        using refuses_cleanlyD [OF sql_handler_refuses [OF h] _ out] by blast
      then show ?thesis by (simp add: s' sv_same_def server_db_def)
    qed
  qed
qed

theorem refused_writes_nothing_witness:
  "\<exists>r s'. handle demo (fst ann_joins) (snd ann_joins) (server_run demo [ann_joins] demo_start) = (Inr r, s') \<and>
     resp_status r = 409 \<and> same_tables (server_db (server_run demo [ann_joins] demo_start)) (server_db s')"
proof -
  let ?run = "handle demo (fst ann_joins) (snd ann_joins) (server_run demo [ann_joins] demo_start)"
  have "case fst ?run of Inl e \<Rightarrow> False | Inr r \<Rightarrow> resp_status r = 409" by code_simp
  then obtain r s' where run: "?run = (Inr r, s')" "resp_status r = 409"
    by (cases ?run) (auto split: sum.splits)
  from refused_writes_nothing [OF run(1)] run show ?thesis by auto
qed

section \<open>Path arguments\<close>

text \<open>The id in the path of \<open>PATCH /rides/{id}/complete\<close> is read as a number and what follows
  the number is ignored: the request is handled as if the path held the number alone.\<close>

theorem path_id_tail_ignored:
  assumes "GetPathArg req ''id'' = std_to_string i @ rest" and "rest = [] \<or> \<not> is_digit (hd rest)"
    and "int_range i"
  shows "RidesComplete_HandleRequestThrow lib env req resp sv =
    RidesComplete_HandleRequestThrow lib env
      (req\<lparr>GetPathArg := (GetPathArg req)(''id'' := std_to_string i)\<rparr>) resp sv"
proof -
  have "std_to_string i \<noteq> []" by (simp add: std_to_string_def)
  then show ?thesis
    by (simp add: RidesComplete_HandleRequestThrow_def assms(1) stoi_to_string [OF assms(3)]
        stoi_to_string_append [OF assms(3,2)])
qed

theorem path_id_tail_ignored_witness:
  "RidesComplete_HandleRequestThrow demo_json (demo_env 8 NoFault)
       (demo_req ''PATCH'' ''/rides/1x/complete'' ann_token [] ''1x'' []) empty_response (svc demo_start) =
     RidesComplete_HandleRequestThrow demo_json (demo_env 8 NoFault)
       ((demo_req ''PATCH'' ''/rides/1x/complete'' ann_token [] ''1x'' [])\<lparr>GetPathArg :=
         (GetPathArg (demo_req ''PATCH'' ''/rides/1x/complete'' ann_token [] ''1x'' []))(''id'' := std_to_string 1)\<rparr>)
       empty_response (svc demo_start)"
proof (rule path_id_tail_ignored)
  show "GetPathArg (demo_req ''PATCH'' ''/rides/1x/complete'' ann_token [] ''1x'' []) ''id'' = std_to_string 1 @ ''x''"
    by code_simp
  show "''x'' = [] \<or> \<not> is_digit (hd ''x'')" by code_simp
  show "int_range 1" by (simp add: int_range_def)
qed

text \<open>An id in the path that is no number is not answered with 400: the conversion throws out
  of the handler, before the database is called, and the state stays as it is.\<close>

theorem malformed_path_id_throws:
  assumes "GetPathArg req ''id'' \<noteq> []" and "parse_int (GetPathArg req ''id'') = None"
  shows "fst (RidesComplete_HandleRequestThrow lib env req resp sv) = Inl StdInvalidArgument \<and>
    snd (snd (RidesComplete_HandleRequestThrow lib env req resp sv)) = sv \<and>
    (accept_args lib req = None \<and> snd (snd (RidesAccept_HandleRequestThrow lib env req resp sv)) = sv)"
proof -
  have "stoi (GetPathArg req ''id'') = Inl StdInvalidArgument" by (simp add: stoi_def assms(2))
  moreover from this have "path_ride_id req = None" by (simp add: path_ride_id_def)
  then have "accept_args lib req = None"
    by (simp add: accept_args_def split: option.split)
  ultimately show ?thesis
    using assms(1) by (simp add: RidesComplete_HandleRequestThrow_def RidesAccept_state Let_def)
qed

theorem malformed_path_id_throws_witness:
  "fst (RidesComplete_HandleRequestThrow demo_json (demo_env 8 NoFault)
     (demo_req ''PATCH'' ''/rides/abc/complete'' ann_token [] ''abc'' []) empty_response (svc demo_start)) =
   Inl StdInvalidArgument"
proof -
  let ?req = "demo_req ''PATCH'' ''/rides/abc/complete'' ann_token [] ''abc'' []"
  have "GetPathArg ?req ''id'' \<noteq> []" "parse_int (GetPathArg ?req ''id'') = None" by code_simp+
  from malformed_path_id_throws [OF this] show ?thesis by blast
qed

section \<open>The limit on the list of active rides\<close>

text \<open>C37: When the limit of a hundred requests is used up in the current minute, \<open>GET /rides\<close> for the
  active rides is answered with 429, a \<open>Retry-After\<close> header and no remaining requests, whatever
  the cache holds, and neither the cache nor the storage is touched.\<close>

theorem active_rides_limited:
  assumes "GetArg req ''user_id'' = []" and "GetArg req ''status'' = ''active''"
    and "window_start (bucket_of (limiter sv) ACTIVE_RIDES_KEY) = window_start_at (system_now env) 60"
    and "100 \<le> bucket_count (bucket_of (limiter sv) ACTIVE_RIDES_KEY)"
  shows "case RidesGet_HandleRequestThrow lib env req resp sv of (r, resp', sv') \<Rightarrow>
    r = Inr (error_body lib ''too many requests'') \<and> resp_status resp' = 429 \<and>
    resp_headers resp' ''Retry-After'' = Some ''60'' \<and>
    resp_headers resp' ''X-RateLimit-Remaining'' = Some ''0'' \<and>
    cache sv' = cache sv \<and> storage sv' = storage sv"
proof -
  have "std_to_string 0 = ''0''" by code_simp
  then show ?thesis
    using assms
    by (simp add: RidesGet_HandleRequestThrow_def Check_def kActiveRidesLimitPerMinute_def
        SetRateLimitHeaders_def response_defs Let_def)
qed

definition used_up :: rate_limiter where
  "used_up = \<lparr>buckets = [ACTIVE_RIDES_KEY \<mapsto> \<lparr>window_start = 60, bucket_count = 100\<rparr>]\<rparr>"

theorem active_rides_limited_witness:
  "case RidesGet_HandleRequestThrow demo_json (fst (active_rides 70)) (snd (active_rides 70)) empty_response
      ((svc demo_start)\<lparr>limiter := used_up\<rparr>) of (r, resp', sv') \<Rightarrow>
    r = Inr (error_body demo_json ''too many requests'') \<and> resp_status resp' = 429 \<and>
    resp_headers resp' ''Retry-After'' = Some ''60'' \<and>
    resp_headers resp' ''X-RateLimit-Remaining'' = Some ''0'' \<and>
    cache sv' = cache (svc demo_start) \<and> storage sv' = storage (svc demo_start)"
proof -
  let ?sv = "(svc demo_start)\<lparr>limiter := used_up\<rparr>"
  have "GetArg (snd (active_rides 70)) ''user_id'' = []" "GetArg (snd (active_rides 70)) ''status'' = ''active''"
    by code_simp+
  moreover have "window_start (bucket_of (limiter ?sv) ACTIVE_RIDES_KEY) = window_start_at (system_now (fst (active_rides 70))) 60"
    "100 \<le> bucket_count (bucket_of (limiter ?sv) ACTIVE_RIDES_KEY)"
    by code_simp+
  ultimately show ?thesis
    using active_rides_limited [of "snd (active_rides 70)" ?sv "fst (active_rides 70)" demo_json empty_response]
    by simp
qed

text \<open>The headers of the limiter carry its numbers: read back as numbers they are the limit, the
  remaining requests and the time of the reset.\<close>

theorem rate_limit_headers_roundtrip:
  "map_option parse_int (resp_headers (SetRateLimitHeaders r resp) ''X-RateLimit-Limit'') = Some (Some (limit r)) \<and>
   map_option parse_int (resp_headers (SetRateLimitHeaders r resp) ''X-RateLimit-Remaining'') = Some (Some (remaining r)) \<and>
   map_option parse_int (resp_headers (SetRateLimitHeaders r resp) ''X-RateLimit-Reset'') = Some (Some (reset_epoch_seconds r))"
  using parse_int_to_string_append [of "[]"] by (simp add: SetRateLimitHeaders_def SetHeader_def)

section \<open>Public paths\<close>

text \<open>The requests that need no token are exactly those to the five public paths, and nothing
  about the method matters: a path that merely starts like a public one is protected, except
  below \<open>/tests/\<close>.\<close>

theorem public_paths:
  "IsPublicRequest req \<longleftrightarrow>
     GetRequestPath req \<in> {''/ping'', ''/users'', ''/auth/login'', ''/mongo/users''} \<or>
     prefix ''/tests/'' (GetRequestPath req)"
  by (rule IsPublicRequest_iff)

section \<open>Users in MongoDB\<close>

lemma mongo_insert_change:
  assumes "mongo_insert lib ml now login password first_name last_name status email phone resp m = (out, m')"
    and "m' \<noteq> m"
  shows "FindOne ml m (login_query login) = Inr None \<and>
    m' = snd (InsertOne ml m (mongo_user_doc login password first_name last_name now status email phone))"
  using assms by (auto simp: mongo_insert_def split: sum.splits option.splits prod.splits)

lemma mongo_create_body_change:
  assumes "mongo_create_body lib ml now json resp m = (out, m')" and "m' \<noteq> m"
  shows "\<exists>login password first_name last_name status email phone.
    IsValidLogin login \<and> 6 \<le> length password \<and> first_name \<noteq> [] \<and> last_name \<noteq> [] \<and>
    status \<in> {''active'', ''blocked''} \<and> FindOne ml m (login_query login) = Inr None \<and>
    m' = snd (InsertOne ml m (mongo_user_doc login password first_name last_name now status email phone))"
proof -
  from assms obtain login password first_name last_name status email phone where
    "IsValidLogin login" "\<not> length password < 6" "first_name \<noteq> []" "last_name \<noteq> []"
    "status = ''active'' \<or> status = ''blocked''"
    and ins: "mongo_insert lib ml now login password first_name last_name status email phone resp m = (out, m')"
    unfolding mongo_create_body_def
    by (simp split: option.splits bool.splits if_splits)
  then have "IsValidLogin login \<and> 6 \<le> length password \<and> first_name \<noteq> [] \<and> last_name \<noteq> [] \<and>
    status \<in> {''active'', ''blocked''} \<and> FindOne ml m (login_query login) = Inr None \<and>
    m' = snd (InsertOne ml m (mongo_user_doc login password first_name last_name now status email phone))"
    using mongo_insert_change [OF ins assms(2)] by simp
  then show ?thesis by (intro exI)
qed

text \<open>C35: The handler of \<open>POST /mongo/users\<close> changes the collection only by one insertion, of a
  document whose login, password and status passed the validation and whose login was not found
  before.\<close>

theorem mongo_inserts_validated:
  assumes "MongoUsersCreate_HandleRequestThrow lib ml env req resp m = (body, resp', m')" and "m' \<noteq> m"
  shows "\<exists>login password first_name last_name status email phone.
    IsValidLogin login \<and> 6 \<le> length password \<and> first_name \<noteq> [] \<and> last_name \<noteq> [] \<and>
    status \<in> {''active'', ''blocked''} \<and> FindOne ml m (login_query login) = Inr None \<and>
    m' = snd (InsertOne ml m (mongo_user_doc login password first_name last_name (system_now env) status email phone))"
proof -
  from assms(1) obtain j out where "mongo_create_body lib ml (system_now env) j
      (SetContentType ''application/json'' resp) m = (out, m')"
    using assms(2)
    by (auto simp: MongoUsersCreate_HandleRequestThrow_def Let_def split: option.splits prod.splits)
  from mongo_create_body_change [OF this assms(2)] show ?thesis .
qed

definition mongo_request :: request where
  "mongo_request = demo_req ''POST'' ''/mongo/users'' [] [] []
     ''login=kate&password=secret&first_name=Kate&last_name=Bell''"

theorem mongo_inserts_validated_witness:
  "\<exists>login password first_name last_name status email phone.
     IsValidLogin login \<and> 6 \<le> length password \<and> first_name \<noteq> [] \<and> last_name \<noteq> [] \<and>
     status \<in> {''active'', ''blocked''} \<and> FindOne demo_mongo [] (login_query login) = Inr None \<and>
     snd (snd (MongoUsersCreate_HandleRequestThrow demo_json demo_mongo (demo_env 1 NoFault) mongo_request empty_response [])) =
       snd (InsertOne demo_mongo [] (mongo_user_doc login password first_name last_name
         (system_now (demo_env 1 NoFault)) status email phone))"
proof -
  let ?run = "MongoUsersCreate_HandleRequestThrow demo_json demo_mongo (demo_env 1 NoFault) mongo_request empty_response []"
  have "length (snd (snd ?run)) = 1" by code_simp
  then have ne: "snd (snd ?run) \<noteq> []" by auto
  have run: "?run = (fst ?run, fst (snd ?run), snd (snd ?run))" by simp
  show ?thesis by (rule mongo_inserts_validated [OF run ne])
qed

end
