(* ===== verification/Concurrent.thy ===== *)
theory Concurrent
  imports Prelude
begin

text \<open>
  Requests that run at the same time: a program is a tree of atomic actions on a shared state,
  a pool is a list of programs, and a schedule says whose turn it is. The lemmas carry an
  invariant through every schedule, relate a program that runs alone to the function it computes,
  and show that bounded programs end under every fair schedule.
\<close>

section \<open>Programs\<close>

text \<open>\<open>Act u k\<close> changes the state by \<open>u\<close> and goes on as \<open>k\<close> says of the state before.\<close>

datatype ('s, 'a) prog =
    Done 'a
  | Act "'s \<Rightarrow> 's" "'s \<Rightarrow> ('s, 'a) prog"

text \<open>An atomic call of an operation that answers and changes the state.\<close>

definition call :: "('s \<Rightarrow> 'x \<times> 's) \<Rightarrow> ('x \<Rightarrow> ('s, 'a) prog) \<Rightarrow> ('s, 'a) prog" where
  "call f k = Act (\<lambda>s. snd (f s)) (\<lambda>s. k (fst (f s)))"

definition read :: "('s \<Rightarrow> 'x) \<Rightarrow> ('x \<Rightarrow> ('s, 'a) prog) \<Rightarrow> ('s, 'a) prog" where
  "read f k = Act (\<lambda>s. s) (\<lambda>s. k (f s))"

text \<open>A program that runs alone.\<close>

primrec run_alone :: "('s, 'a) prog \<Rightarrow> 's \<Rightarrow> 'a \<times> 's" where
  "run_alone (Done x) = (\<lambda>s. (x, s))"
| "run_alone (Act u k) = (\<lambda>s. run_alone (k s) (u s))"

lemma run_call [simp]: "run_alone (call f k) s = (case f s of (x, s') \<Rightarrow> run_alone (k x) s')"
  by (simp add: call_def split: prod.split)

lemma run_read [simp]: "run_alone (read f k) s = run_alone (k (f s)) s"
  by (simp add: read_def)

text \<open>A program on a part of the state, with a change of its result.\<close>

primrec zoom :: "('w \<Rightarrow> 's) \<Rightarrow> ('s \<Rightarrow> 'w \<Rightarrow> 'w) \<Rightarrow> ('a \<Rightarrow> 'b) \<Rightarrow> ('s, 'a) prog \<Rightarrow> ('w, 'b) prog" where
  "zoom get put f (Done x) = Done (f x)"
| "zoom get put f (Act u k) = Act (\<lambda>w. put (u (get w)) w) (\<lambda>w. zoom get put f (k (get w)))"

definition part_of :: "('w \<Rightarrow> 's) \<Rightarrow> ('s \<Rightarrow> 'w \<Rightarrow> 'w) \<Rightarrow> bool" where
  "part_of get put \<longleftrightarrow>
     (\<forall>w. put (get w) w = w) \<and> (\<forall>s w. get (put s w) = s) \<and> (\<forall>s s' w. put s' (put s w) = put s' w)"

lemma run_zoom:
  assumes "part_of get put"
  shows "run_alone (zoom get put f p) w = (case run_alone p (get w) of (x, s) \<Rightarrow> (f x, put s w))"
proof (induction p arbitrary: w)
  case (Done x)
  with assms show ?case by (simp add: part_of_def)
next
  case (Act u k)
  from assms have "get (put (u (get w)) w) = u (get w)" "\<And>s. put s (put (u (get w)) w) = put s w"
    by (simp_all add: part_of_def)
  with Act [of "k (get w)" "put (u (get w)) w"] show ?case by simp
qed

section \<open>Schedules\<close>

type_synonym ('s, 'a) pool = "('s, 'a) prog list \<times> 's"

definition turn :: "nat \<Rightarrow> ('s, 'a) pool \<Rightarrow> ('s, 'a) pool" where
  "turn i pool =
     (case pool of (ps, s) \<Rightarrow>
        if i < length ps
        then (case ps ! i of Done x \<Rightarrow> (ps, s) | Act u k \<Rightarrow> (ps[i := k s], u s))
        else (ps, s))"

definition schedule :: "nat list \<Rightarrow> ('s, 'a) pool \<Rightarrow> ('s, 'a) pool" where
  "schedule is pool = fold turn is pool"

lemma length_turn [simp]: "length (fst (turn i pool)) = length (fst pool)"
  by (cases pool) (simp add: turn_def split: prog.split)

lemma length_schedule [simp]: "length (fst (schedule is pool)) = length (fst pool)"
  unfolding schedule_def by (induction "is" arbitrary: pool) simp_all

section \<open>Invariants\<close>

text \<open>Every action of the program keeps the invariant, whatever the others do in between.\<close>

primrec keeps :: "('s \<Rightarrow> bool) \<Rightarrow> ('s, 'a) prog \<Rightarrow> bool" where
  "keeps I (Done x) = True"
| "keeps I (Act u k) = (\<forall>s. I s \<longrightarrow> I (u s) \<and> keeps I (k s))"

lemma keeps_call:
  "(\<And>s x s'. I s \<Longrightarrow> f s = (x, s') \<Longrightarrow> I s' \<and> keeps I (k x)) \<Longrightarrow> keeps I (call f k)"
  by (auto simp: call_def prod_eq_iff)

lemma keeps_read: "(\<And>s. I s \<Longrightarrow> keeps I (k (f s))) \<Longrightarrow> keeps I (read f k)"
  by (simp add: read_def)

lemma keeps_zoom:
  assumes "keeps I p" and "part_of get put"
  shows "keeps (\<lambda>w. I (get w)) (zoom get put f p)"
  using assms by (induction p) (auto simp: part_of_def)

lemma turn_keeps:
  assumes "\<forall>p\<in>set (fst pool). keeps I p" and "I (snd pool)"
  shows "(\<forall>p\<in>set (fst (turn i pool)). keeps I p) \<and> I (snd (turn i pool))"
proof -
  obtain ps s where pool: "pool = (ps, s)" by fastforce
  show ?thesis
  proof (cases "i < length ps")
    case True
    show ?thesis
    proof (cases "ps ! i")
      case (Act u k)
      from True assms(1) have "keeps I (ps ! i)" by (simp add: pool)
      with Act assms have "I (u s)" "keeps I (k s)" by (simp_all add: pool)
      with True Act assms(1) show ?thesis
        by (auto simp: pool turn_def dest: subsetD [OF set_update_subset_insert])
    qed (use assms True in \<open>simp add: pool turn_def\<close>)
  qed (use assms in \<open>simp add: pool turn_def\<close>)
qed

lemma schedule_keeps:
  assumes "\<forall>p\<in>set (fst pool). keeps I p" and "I (snd pool)"
  shows "I (snd (schedule is pool))"
  using assms unfolding schedule_def
proof (induction "is" arbitrary: pool)
  case (Cons i "is")
  from turn_keeps [OF Cons.prems, of i] Cons.IH [of "turn i pool"] show ?case by simp
qed simp

section \<open>Termination\<close>

primrec bounded :: "('s, 'a) prog \<Rightarrow> nat \<Rightarrow> bool" where
  "bounded (Done x) = (\<lambda>n. True)"
| "bounded (Act u k) = (\<lambda>n. 0 < n \<and> (\<forall>s. bounded (k s) (n - 1)))"

lemma bounded_call: "(\<And>x. bounded (k x) n) \<Longrightarrow> bounded (call f k) (Suc n)"
  by (simp add: call_def)

lemma bounded_read: "(\<And>x. bounded (k x) n) \<Longrightarrow> bounded (read f k) (Suc n)"
  by (simp add: read_def)

lemma bounded_mono: "bounded p n \<Longrightarrow> n \<le> m \<Longrightarrow> bounded p m"
proof (induction p arbitrary: n m)
  case (Act u k)
  from Act.prems(1) have n: "0 < n" and k: "bounded (k s) (n - 1)" for s by simp_all
  from Act.prems(2) have le: "n - 1 \<le> m - 1" by simp
  have "bounded (k s) (m - 1)" for s by (rule Act.IH [OF _ k le]) simp
  with n Act.prems(2) show ?case by simp
qed simp

lemma bounded_zoom: "bounded p n \<Longrightarrow> bounded (zoom get put f p) n"
  by (induction p arbitrary: n) auto

definition is_done :: "('s, 'a) prog \<Rightarrow> bool" where
  "is_done p \<longleftrightarrow> (\<exists>x. p = Done x)"

lemma bounded_zero: "bounded p 0 \<Longrightarrow> is_done p"
  by (cases p) (simp_all add: is_done_def)

text \<open>A turn of a program uses up one of its steps, and touches no other program.\<close>

lemma turn_bounded:
  assumes "j < length (fst pool)" and "bounded (fst pool ! j) n"
  shows "bounded (fst (turn i pool) ! j) (if i = j then n - 1 else n)"
proof -
  obtain ps s where pool: "pool = (ps, s)" by fastforce
  show ?thesis
  proof (cases "ps ! i")
    case (Done x)
    with assms show ?thesis by (auto simp: pool turn_def)
  next
    case (Act u k)
    with assms show ?thesis by (auto simp: pool turn_def nth_list_update)
  qed
qed

lemma schedule_bounded:
  assumes "j < length (fst pool)" and "bounded (fst pool ! j) n"
  shows "bounded (fst (schedule is pool) ! j) (n - count_list is j)"
  using assms unfolding schedule_def
proof (induction "is" arbitrary: pool n)
  case (Cons i "is")
  from Cons.IH [OF _ turn_bounded [OF Cons.prems, of i]] Cons.prems(1) show ?case
    by (auto split: if_splits)
qed simp

lemma fair_schedule_ends:
  assumes "j < length (fst pool)" and "bounded (fst pool ! j) n" and "n \<le> count_list is j"
  shows "is_done (fst (schedule is pool) ! j)"
  using schedule_bounded [OF assms(1,2), of "is"] assms(3) by (simp add: bounded_zero)

section \<open>One program after the other\<close>

text \<open>Turns given to one program alone, as many as it needs, run it.\<close>

lemma turns_alone:
  assumes "bounded p n"
  shows "schedule (replicate n (length ds)) (ds @ p # ps, s) =
    (ds @ Done (fst (run_alone p s)) # ps, snd (run_alone p s))"
  using assms unfolding schedule_def
proof (induction p arbitrary: n s)
  case (Done x)
  have "turn (length ds) (ds @ Done x # ps, s) = (ds @ Done x # ps, s)" by (simp add: turn_def)
  then have "fold turn (replicate n (length ds)) (ds @ Done x # ps, s) = (ds @ Done x # ps, s)"
    by (induction n) simp_all
  then show ?case by simp
next
  case (Act u k)
  then obtain m where "n = Suc m" "bounded (k s) m" by (cases n) simp_all
  with Act.IH [of "k s" m "u s"] show ?case by (simp add: turn_def)
qed

fun run_serial :: "('s, 'a) prog list \<Rightarrow> 's \<Rightarrow> 'a list \<times> 's" where
  "run_serial [] s = ([], s)"
| "run_serial (p # ps) s =
     (let (x, s') = run_alone p s; (xs, s'') = run_serial ps s' in (x # xs, s''))"

lemma schedule_append: "schedule (is @ js) pool = schedule js (schedule is pool)"
  by (simp add: schedule_def)

lemma schedule_serial_from:
  assumes "\<forall>p\<in>set ps. bounded p n"
  shows "schedule (concat (map (replicate n) [length ds..<length ds + length ps])) (map Done ds @ ps, s) =
    (map Done (ds @ fst (run_serial ps s)), snd (run_serial ps s))"
  using assms
proof (induction ps arbitrary: ds s)
  case Nil
  then show ?case by (simp add: schedule_def)
next
  case (Cons p ps)
  let ?x = "fst (run_alone p s)" and ?s = "snd (run_alone p s)"
  have range: "[length ds..<length ds + length (p # ps)] =
      length ds # [length (ds @ [?x])..<length (ds @ [?x]) + length ps]"
    by (simp add: upt_conv_Cons del: upt_Suc)
  from turns_alone [of p n "map Done ds" ps s] Cons.prems
  have "schedule (replicate n (length ds)) (map Done ds @ p # ps, s) = (map Done (ds @ [?x]) @ ps, ?s)"
    by simp
  with Cons.IH [of "ds @ [?x]" ?s] Cons.prems show ?case
    by (simp only: range list.map concat.simps schedule_append) (simp add: split_def Let_def)
qed

lemma schedule_serial:
  assumes "\<forall>p\<in>set ps. bounded p n"
  shows "schedule (concat (map (replicate n) [0..<length ps])) (ps, s) =
    (map Done (fst (run_serial ps s)), snd (run_serial ps s))"
  using schedule_serial_from [OF assms, of "[]" s] by simp

end
