(* ===== verification/Linearization.thy ===== *)
theory Linearization
  imports Concurrent
begin

text \<open>
  When programs of atomic actions behave as if each of them took effect at once: every program has
  one action that changes the observed part of the state as its operation does, and from then on it
  goes to an answer that the operation admits at that moment. The effects form a serial order of the
  operations that respects their order in time: an operation that ended before another one started
  comes first.
\<close>

section \<open>One program\<close>

text \<open>The program changes nothing that is observed any more, and ends with one of the answers.\<close>

primrec settles :: "('s \<Rightarrow> 'o) \<Rightarrow> ('a \<Rightarrow> bool) \<Rightarrow> ('s, 'a) prog \<Rightarrow> bool" where
  "settles obs P (Done y) = P y"
| "settles obs P (Act u k) = (\<forall>s. obs (u s) = obs s \<and> settles obs P (k s))"

text \<open>
  The program has changed nothing so far, since the observed part was at most at \<open>o\<close>: it ends where
  its operation has no effect any more, or it goes on waiting, or its next action is the effect.
\<close>

primrec awaits :: "('s \<Rightarrow> 'o) \<Rightarrow> ('o \<Rightarrow> 'o \<Rightarrow> bool) \<Rightarrow> ('o \<Rightarrow> ('a \<Rightarrow> bool) \<times> 'o) \<Rightarrow> ('s, 'a) prog \<Rightarrow> 'o \<Rightarrow> bool" where
  "awaits obs later eff (Done y) =
     (\<lambda>st. \<forall>st'. later st st' \<longrightarrow> snd (eff st') = st' \<and> fst (eff st') y)"
| "awaits obs later eff (Act u k) =
     (\<lambda>st. \<forall>s. later st (obs s) \<longrightarrow>
        obs (u s) = obs s \<and> awaits obs later eff (k s) (obs s) \<or>
        obs (u s) = snd (eff (obs s)) \<and> settles obs (fst (eff (obs s))) (k s))"

lemma settles_call:
  "(\<And>s. obs (snd (f s)) = obs s) \<Longrightarrow> (\<And>x. settles obs P (k x)) \<Longrightarrow> settles obs P (call f k)"
  by (simp add: call_def)

lemma settles_read: "(\<And>x. settles obs P (k x)) \<Longrightarrow> settles obs P (read f k)"
  by (simp add: read_def)

lemma settles_mono: "settles obs P p \<Longrightarrow> (\<And>y. P y \<Longrightarrow> Q y) \<Longrightarrow> settles obs Q p"
  by (induction p) auto

lemma awaits_done:
  "(\<And>st'. later st st' \<Longrightarrow> snd (eff st') = st' \<and> fst (eff st') y) \<Longrightarrow> awaits obs later eff (Done y) st"
  by simp

lemma awaits_call:
  "(\<And>s. later st (obs s) \<Longrightarrow>
      obs (snd (f s)) = snd (eff (obs s)) \<and> settles obs (fst (eff (obs s))) (k (fst (f s)))) \<Longrightarrow>
   awaits obs later eff (call f k) st"
  by (simp add: call_def)

lemma awaits_read:
  "(\<And>s. later st (obs s) \<Longrightarrow>
      awaits obs later eff (k (f s)) (obs s) \<or>
      obs s = snd (eff (obs s)) \<and> settles obs (fst (eff (obs s))) (k (f s))) \<Longrightarrow>
   awaits obs later eff (read f k) st"
  by (simp add: read_def)

text \<open>A program whose operation has no effect, and which ends with an answer that is always admitted.\<close>

lemma settles_awaits:
  assumes "\<And>st st'. later st0 st \<Longrightarrow> later st st' \<Longrightarrow> later st0 st'"
    and "\<And>st. later st0 st \<Longrightarrow> snd (eff st) = st"
    and "\<And>st y. later st0 st \<Longrightarrow> P y \<Longrightarrow> fst (eff st) y"
  shows "settles obs P p \<Longrightarrow> later st0 st \<Longrightarrow> awaits obs later eff p st"
  using assms by (induction p arbitrary: st) auto

text \<open>A program on a part of the state, with another view of its operation.\<close>

lemma settles_zoom:
  assumes "part_of get put" and "\<And>y. P y \<Longrightarrow> Q (f y)"
  shows "settles obs P p \<Longrightarrow> settles (\<lambda>w. obs (get w)) Q (zoom get put f p)"
  using assms by (induction p) (auto simp: part_of_def)

lemma awaits_zoom:
  assumes part: "part_of get put"
    and trans: "\<And>st st' st''. later st st' \<Longrightarrow> later st' st'' \<Longrightarrow> later st st''"
  shows "awaits obs later eff p st \<Longrightarrow>
    (\<And>st'. later st st' \<Longrightarrow> snd (eff' st') = snd (eff st')) \<Longrightarrow>
    (\<And>st' y. later st st' \<Longrightarrow> fst (eff st') y \<Longrightarrow> fst (eff' st') (f y)) \<Longrightarrow>
    awaits (\<lambda>w. obs (get w)) later eff' (zoom get put f p) st"
proof (induction p arbitrary: st)
  case (Done y)
  then show ?case by simp
next
  case (Act u k)
  from part have get: "get (put s w) = s" for s w by (simp add: part_of_def)
  have "obs (u (get w)) = obs (get w) \<and>
        awaits (\<lambda>w. obs (get w)) later eff' (zoom get put f (k (get w))) (obs (get w)) \<or>
      obs (u (get w)) = snd (eff' (obs (get w))) \<and>
        settles (\<lambda>w. obs (get w)) (fst (eff' (obs (get w)))) (zoom get put f (k (get w)))"
    if w: "later st (obs (get w))" for w
  proof -
    from Act.prems(1) w consider
      (waits) "obs (u (get w)) = obs (get w)" "awaits obs later eff (k (get w)) (obs (get w))"
    | (effect) "obs (u (get w)) = snd (eff (obs (get w)))" "settles obs (fst (eff (obs (get w)))) (k (get w))"
      by auto
    then show ?thesis
    proof cases
      case waits
      from Act.IH [OF _ waits(2)] Act.prems(2,3) trans [OF w]
      have "awaits (\<lambda>w. obs (get w)) later eff' (zoom get put f (k (get w))) (obs (get w))" by blast
      with waits(1) show ?thesis by blast
    next
      case effect
      have "settles (\<lambda>w. obs (get w)) (fst (eff' (obs (get w)))) (zoom get put f (k (get w)))"
        by (rule settles_zoom [OF part _ effect(2)]) (rule Act.prems(3) [OF w])
      with effect(1) Act.prems(2) [OF w] show ?thesis by simp
    qed
  qed
  then show ?case by (simp add: get)
qed

section \<open>Serial orders\<close>

text \<open>The observed part after the effects of some operations, given by their indices.\<close>

definition effects :: "(nat \<Rightarrow> 'o \<Rightarrow> ('a \<Rightarrow> bool) \<times> 'o) \<Rightarrow> nat list \<Rightarrow> 'o \<Rightarrow> 'o" where
  "effects eff js st = fold (\<lambda>j st. snd (eff j st)) js st"

lemma effects_simps [simp]:
  "effects eff [] st = st"
  "effects eff (js @ [j]) st = snd (eff j (effects eff js st))"
  by (simp_all add: effects_def)

lemma effects_none:
  assumes "\<forall>j\<in>set js. snd (eff j st) = st"
  shows "effects eff js st = st"
  using assms unfolding effects_def by (induction js) auto

text \<open>The first of two operations in an order.\<close>

definition precedes :: "nat list \<Rightarrow> nat \<Rightarrow> nat \<Rightarrow> bool" where
  "precedes js j j' \<longleftrightarrow> (\<exists>k k'. k < k' \<and> k' < length js \<and> js ! k = j \<and> js ! k' = j')"

lemma precedes_append: "precedes js j j' \<Longrightarrow> precedes (js @ ks) j j'"
  unfolding precedes_def
  by (metis length_append less_trans nth_append trans_less_add1)

lemma precedes_last:
  assumes "j \<in> set js"
  shows "precedes (js @ [j']) j j'"
proof -
  from assms obtain k where "k < length js" "js ! k = j" by (auto simp: in_set_conv_nth)
  then show ?thesis
    unfolding precedes_def by (intro exI [of _ k] exI [of _ "length js"]) (simp add: nth_append)
qed

text \<open>Where each of the programs stands, given the serial order of the effects so far.\<close>

definition placed :: "('s \<Rightarrow> 'o) \<Rightarrow> (nat \<Rightarrow> 'o \<Rightarrow> ('a \<Rightarrow> bool) \<times> 'o) \<Rightarrow> 'o \<Rightarrow> nat list \<Rightarrow> nat \<Rightarrow>
    ('s, 'a) prog \<Rightarrow> bool" where
  "placed obs eff st0 js j p \<longleftrightarrow>
     (\<exists>k<length js. js ! k = j \<and> settles obs (fst (eff j (effects eff (take k js) st0))) p)"

lemma placed_append: "placed obs eff st0 js j p \<Longrightarrow> placed obs eff st0 (js @ ks) j p"
  unfolding placed_def
  by (metis add.commute length_append nth_append take_append trans_less_add2 append_Nil2 less_imp_le_nat
      diff_is_0_eq take_0)

lemma placed_last: "settles obs (fst (eff j (effects eff js st0))) p \<Longrightarrow> placed obs eff st0 (js @ [j]) j p"
  unfolding placed_def by (intro exI [of _ "length js"]) simp

lemma placed_member: "placed obs eff st0 js j p \<Longrightarrow> j \<in> set js"
  unfolding placed_def by auto

text \<open>A program that has ended stays as it is.\<close>

lemma turn_done: "is_done (fst pool ! j) \<Longrightarrow> fst (turn i pool) ! j = fst pool ! j"
  by (cases pool) (auto simp: turn_def is_done_def nth_list_update split: prog.split)

lemma schedule_done: "is_done (fst pool ! j) \<Longrightarrow> fst (schedule is pool) ! j = fst pool ! j"
  unfolding schedule_def
proof (induction "is" arbitrary: pool)
  case (Cons i "is")
  with turn_done [OF Cons.prems, of i] show ?case by simp
qed simp

text \<open>The order respects time: a program that has ended when another one that takes an action has
  not had its first turn precedes it.\<close>

definition in_time :: "('s, 'a) pool \<Rightarrow> nat list \<Rightarrow> nat list \<Rightarrow> bool" where
  "in_time pool is js \<longleftrightarrow>
     (\<forall>m\<le>length is. \<forall>j<length (fst pool). \<forall>j'\<in>set js.
        is_done (fst (schedule (take m is) pool) ! j) \<and> \<not> is_done (fst pool ! j') \<and> j' \<notin> set (take m is) \<longrightarrow>
        precedes js j j')"

section \<open>Schedules\<close>

locale linearizable =
  fixes obs :: "'s \<Rightarrow> 'o" and later :: "'o \<Rightarrow> 'o \<Rightarrow> bool" and eff :: "nat \<Rightarrow> 'o \<Rightarrow> ('a \<Rightarrow> bool) \<times> 'o"
  assumes later_refl: "later st st"
    and later_trans: "later st st' \<Longrightarrow> later st' st'' \<Longrightarrow> later st st''"
    and later_effect: "later st (snd (eff j st))"
begin

lemma awaits_later: "awaits obs later (eff j) p st \<Longrightarrow> later st st' \<Longrightarrow> awaits obs later (eff j) p st'"
  by (cases p) (auto dest: later_trans)

text \<open>The state of the pool after some turns: a serial order of effects explains it, and every
  program that has ended has its place there.\<close>

definition explained :: "'o \<Rightarrow> nat \<Rightarrow> nat list \<Rightarrow> ('s, 'a) pool \<Rightarrow> bool" where
  "explained st0 n js pool \<longleftrightarrow>
     length (fst pool) = n \<and> distinct js \<and> set js \<subseteq> {..<n} \<and> obs (snd pool) = effects eff js st0 \<and>
     (\<forall>j<n. placed obs eff st0 js j (fst pool ! j) \<or>
        j \<notin> set js \<and> \<not> is_done (fst pool ! j) \<and> awaits obs later (eff j) (fst pool ! j) (obs (snd pool)))"

lemma explained_same:
  assumes exp: "explained st0 n js (ps, s)" and i: "i < n" and same: "obs s' = obs s"
    and p: "placed obs eff st0 js i p \<or>
      i \<notin> set js \<and> \<not> is_done p \<and> awaits obs later (eff i) p (obs s)"
  shows "explained st0 n js (ps[i := p], s')"
  using assms by (auto simp: explained_def nth_list_update)

lemma explained_effect:
  assumes exp: "explained st0 n js (ps, s)" and i: "i < n" "i \<notin> set js"
    and eff: "obs s' = snd (eff i (obs s))" and p: "settles obs (fst (eff i (obs s))) p"
  shows "explained st0 n (js @ [i]) (ps[i := p], s')"
proof -
  from exp have s: "obs s = effects eff js st0" by (simp add: explained_def)
  have "placed obs eff st0 (js @ [i]) j (ps[i := p] ! j) \<or>
      j \<notin> set (js @ [i]) \<and> \<not> is_done (ps[i := p] ! j) \<and> awaits obs later (eff j) (ps[i := p] ! j) (obs s')"
    if j: "j < n" for j
  proof (cases "j = i")
    case True
    with exp i p s show ?thesis by (auto simp: explained_def intro: placed_last)
  next
    case False
    from exp j have "placed obs eff st0 js j (ps ! j) \<or>
        j \<notin> set js \<and> \<not> is_done (ps ! j) \<and> awaits obs later (eff j) (ps ! j) (obs s)"
      unfolding explained_def fst_conv snd_conv by blast
    with False eff show ?thesis
      by (auto intro: placed_append awaits_later [OF _ later_effect])
  qed
  moreover have "length (ps[i := p]) = n" "distinct (js @ [i])" "set (js @ [i]) \<subseteq> {..<n}"
    using exp i by (auto simp: explained_def)
  moreover have "obs s' = effects eff (js @ [i]) st0" using eff s by simp
  ultimately show ?thesis unfolding explained_def by simp
qed

lemma turn_explained:
  assumes exp: "explained st0 n js pool"
  shows "explained st0 n js (turn i pool) \<or> explained st0 n (js @ [i]) (turn i pool)"
proof -
  obtain ps s where pool: "pool = (ps, s)" by fastforce
  with exp have n: "length ps = n" by (simp add: explained_def)
  show ?thesis
  proof (cases "i < n \<and> (\<exists>u k. ps ! i = Act u k)")
    case False
    with n have "turn i pool = pool" by (auto simp: pool turn_def split: prog.split)
    with exp show ?thesis by auto
  next
    case True
    then obtain u k where i: "i < n" and act: "ps ! i = Act u k" by blast
    with n have turn: "turn i pool = (ps[i := k s], u s)" by (simp add: pool turn_def)
    from exp i act have "placed obs eff st0 js i (Act u k) \<or>
        i \<notin> set js \<and> awaits obs later (eff i) (Act u k) (obs s)"
      unfolding explained_def pool by (metis fst_conv snd_conv)
    then consider (settled) "obs (u s) = obs s" "placed obs eff st0 js i (k s)"
      | (waits) "obs (u s) = obs s" "i \<notin> set js" "awaits obs later (eff i) (k s) (obs s)"
      | (effect) "i \<notin> set js" "obs (u s) = snd (eff i (obs s))" "settles obs (fst (eff i (obs s))) (k s)"
      using later_refl by (auto simp: placed_def)
    then show ?thesis
    proof cases
      case settled
      from explained_same [OF exp [unfolded pool] i settled(1)] settled(2) turn show ?thesis by auto
    next
      case waits
      show ?thesis
      proof (cases "k s")
        case (Done y)
        with waits(3) later_refl have "snd (eff i (obs s)) = obs s" "fst (eff i (obs s)) y" by auto
        with explained_effect [OF exp [unfolded pool] i waits(2), of "u s" "k s"] waits(1) Done turn
        show ?thesis by simp
      next
        case (Act u' k')
        with explained_same [OF exp [unfolded pool] i waits(1), of "k s"] waits(2,3) turn
        show ?thesis by (auto simp: is_done_def)
      qed
    next
      case effect
      from explained_effect [OF exp [unfolded pool] i effect] turn show ?thesis by auto
    qed
  qed
qed

lemma explained_done:
  "explained st0 n js pool \<Longrightarrow> j < n \<Longrightarrow> is_done (fst pool ! j) \<Longrightarrow> j \<in> set js"
  unfolding explained_def by (blast dest: placed_member)

text \<open>Programs that have nothing to do come first.\<close>

lemma start_explained:
  assumes start: "\<forall>j<length ps. awaits obs later (eff j) (ps ! j) (obs s)"
  shows "explained (obs s) (length ps) (filter (\<lambda>j. is_done (ps ! j)) [0..<length ps]) (ps, s)"
proof -
  let ?js = "filter (\<lambda>j. is_done (ps ! j)) [0..<length ps]"
  have quiet: "snd (eff j (obs s)) = obs s" "settles obs (fst (eff j (obs s))) (ps ! j)"
    if "j \<in> set ?js" for j
    using that start later_refl [of "obs s"] by (force simp: is_done_def)+
  have eff: "effects eff (take k ?js) (obs s) = obs s" for k
    by (rule effects_none) (use quiet(1) in \<open>blast dest: in_set_takeD\<close>)
  have "placed obs eff (obs s) ?js j (ps ! j) \<or>
      j \<notin> set ?js \<and> \<not> is_done (ps ! j) \<and> awaits obs later (eff j) (ps ! j) (obs s)" if "j < length ps" for j
  proof (cases "is_done (ps ! j)")
    case True
    with that have j: "j \<in> set ?js" by simp
    then obtain k where "k < length ?js" "?js ! k = j" by (metis in_set_conv_nth)
    with quiet(2) [OF j] eff [of k] have "placed obs eff (obs s) ?js j (ps ! j)"
      unfolding placed_def by metis
    then show ?thesis ..
  next
    case False
    with that start show ?thesis by simp
  qed
  moreover have "effects eff ?js (obs s) = obs s" using eff [of "length ?js"] by simp
  ultimately show ?thesis by (auto simp: explained_def)
qed

lemma ended_explained:
  assumes exp: "explained st0 n js (schedule is pool)"
    and ended: "m \<le> length is" "j < n" "is_done (fst (schedule (take m is) pool) ! j)"
  shows "j \<in> set js"
proof -
  have "schedule is pool = schedule (drop m is) (schedule (take m is) pool)"
    by (simp flip: schedule_append)
  with schedule_done [OF ended(3), of "drop m is"] ended(3) have "is_done (fst (schedule is pool) ! j)" by simp
  from explained_done [OF exp ended(2) this] show ?thesis .
qed

lemma in_time_step:
  assumes exp: "explained st0 (length (fst pool)) js (schedule is pool)"
    and time: "in_time pool is js" and started: "\<forall>j\<in>set js. j \<in> set is \<or> is_done (fst pool ! j)"
    and js': "js' = js \<or> js' = js @ [i]"
  shows "in_time pool (is @ [i]) js'"
  unfolding in_time_def
proof (intro allI impI ballI)
  fix m j j'
  assume m: "m \<le> length (is @ [i])" and j: "j < length (fst pool)" and j': "j' \<in> set js'"
    and h: "is_done (fst (schedule (take m (is @ [i])) pool) ! j) \<and> \<not> is_done (fst pool ! j') \<and>
      j' \<notin> set (take m (is @ [i]))"
  show "precedes js' j j'"
  proof (cases "m \<le> length is")
    case False
    with m h j' js' started show ?thesis by auto
  next
    case True
    then have "take m (is @ [i]) = take m is" by simp
    note h' = h [unfolded this]
    show ?thesis
    proof (cases "j' \<in> set js")
      case False
      with js' j' have "js' = js @ [i]" "j' = i" by auto
      with ended_explained [OF exp True j] h' show ?thesis by (auto intro: precedes_last)
    next
      case member: True
      with time True j h' have "precedes js j j'" unfolding in_time_def by blast
      with js' show ?thesis by (auto intro: precedes_append)
    qed
  qed
qed

lemma schedule_explained:
  assumes start: "\<forall>j<length ps. awaits obs later (eff j) (ps ! j) (obs s)"
  shows "\<exists>js. explained (obs s) (length ps) js (schedule is (ps, s)) \<and> in_time (ps, s) is js \<and>
    (\<forall>j\<in>set js. j \<in> set is \<or> is_done (ps ! j))"
proof (induction "is" rule: rev_induct)
  case Nil
  from start_explained [OF start] show ?case by (fastforce simp: schedule_def in_time_def)
next
  case (snoc i "is")
  then obtain js where exp: "explained (obs s) (length ps) js (schedule is (ps, s))"
    and time: "in_time (ps, s) is js" and started: "\<forall>j\<in>set js. j \<in> set is \<or> is_done (ps ! j)" by blast
  have step: "schedule (is @ [i]) (ps, s) = turn i (schedule is (ps, s))" by (simp add: schedule_def)
  have "in_time (ps, s) (is @ [i]) js' \<and> (\<forall>j\<in>set js'. j \<in> set (is @ [i]) \<or> is_done (ps ! j))"
    if "js' = js \<or> js' = js @ [i]" for js'
    using in_time_step [of "obs s" "(ps, s)" js "is" js' i] exp time started that by auto
  with turn_explained [OF exp, of i] show ?case
    unfolding step by blast
qed

lemma schedule_linear:
  assumes start: "\<forall>j<length ps. awaits obs later (eff j) (ps ! j) (obs s)"
    and run: "schedule is (ps, s) = (ps', s')"
  shows "\<exists>js. distinct js \<and> set js \<subseteq> {..<length ps} \<and> obs s' = effects eff js (obs s) \<and>
    (\<forall>j<length ps. \<forall>y. ps' ! j = Done y \<longrightarrow>
       (\<exists>k<length js. js ! k = j \<and> fst (eff j (effects eff (take k js) (obs s))) y)) \<and>
    in_time (ps, s) is js"
proof -
  from schedule_explained [OF start, of "is"] run obtain js
    where exp: "explained (obs s) (length ps) js (ps', s')" and time: "in_time (ps, s) is js" by auto
  have "\<exists>k<length js. js ! k = j \<and> fst (eff j (effects eff (take k js) (obs s))) y"
    if "j < length ps" "ps' ! j = Done y" for j y
  proof -
    from exp that have "placed obs eff (obs s) js j (Done y)"
      unfolding explained_def is_done_def by (metis fst_conv)
    then show ?thesis by (simp add: placed_def)
  qed
  with exp time show ?thesis unfolding explained_def by auto
qed

end

end
