(* ===== verification/HandlerPrograms.thy ===== *)
theory HandlerPrograms
  imports Concurrent Server
begin

text \<open>
  The handlers as programs of atomic actions, for requests that run at the same time. Each call
  on the storage is an action (a statement or transaction of PostgreSQL, or a section under the
  token mutex), and so is each call on the cache and on the limiter (each holds its mutex).
  Everything else a handler does is local to it. Run alone, every program computes what the
  handler computes.
\<close>

section \<open>Actions\<close>

definition on_storage :: "(taxi_storage \<Rightarrow> 'x \<times> taxi_storage) \<Rightarrow> service \<Rightarrow> 'x \<times> service" where
  "on_storage f sv = (case f (storage sv) of (x, st) \<Rightarrow> (x, sv\<lparr>storage := st\<rparr>))"

definition on_cache :: "(response_cache \<Rightarrow> 'x \<times> response_cache) \<Rightarrow> service \<Rightarrow> 'x \<times> service" where
  "on_cache f sv = (case f (cache sv) of (x, c) \<Rightarrow> (x, sv\<lparr>cache := c\<rparr>))"

definition on_limiter :: "(rate_limiter \<Rightarrow> 'x \<times> rate_limiter) \<Rightarrow> service \<Rightarrow> 'x \<times> service" where
  "on_limiter f sv = (case f (limiter sv) of (x, rl) \<Rightarrow> (x, sv\<lparr>limiter := rl\<rparr>))"

lemmas action_defs = on_storage_def on_cache_def on_limiter_def

type_synonym handler_prog = "(service, string result \<times> response) prog"

type_synonym 'j program = "'j json_lib \<Rightarrow> req_env \<Rightarrow> request \<Rightarrow> response \<Rightarrow> handler_prog"

definition invalidate_then :: "string \<Rightarrow> handler_prog \<Rightarrow> handler_prog" where
  "invalidate_then p k = call (on_cache (\<lambda>c. ((), InvalidatePrefix p c))) (\<lambda>_. k)"

section \<open>Handlers that write\<close>

definition UsersCreate_prog :: "'j program" where
  "UsersCreate_prog lib env req resp0 =
     (let resp = SetContentType ''application/json'' resp0
      in case FromString lib (RequestBody req) of
           None \<Rightarrow> Done (Inl JsonException, resp)
         | Some json \<Rightarrow>
             (case (as_string lib json ''login'', as_string lib json ''password'',
                    as_string lib json ''full_name'') of
                (Some login, Some password, Some full_name) \<Rightarrow>
                  if login = [] \<or> password = [] \<or> full_name = []
                  then Done (Inr (error_body lib ''login, password and full_name are required''),
                             SetStatus 400 resp)
                  else call (on_storage (CreateUser (env_pg env) login password full_name))
                    (\<lambda>res. case res of
                        Inl e \<Rightarrow> Done (Inl e, resp)
                      | Inr None \<Rightarrow> Done (Inr (error_body lib ''user already exists''), SetStatus 409 resp)
                      | Inr (Some user) \<Rightarrow>
                          invalidate_then ''users:'' (Done (Inr (user_body lib user), SetStatus 201 resp)))
              | _ \<Rightarrow> Done (Inl JsonException, resp)))"

definition DriversCreate_prog :: "'j program" where
  "DriversCreate_prog lib env req resp0 =
     (let resp = SetContentType ''application/json'' resp0
      in case FromString lib (RequestBody req) of
           None \<Rightarrow> Done (Inl JsonException, resp)
         | Some json \<Rightarrow>
             (case (as_int lib json ''user_id'', as_string lib json ''car_model'',
                    as_string lib json ''car_number'', as_string lib json ''license_number'') of
                (Some uid, Some car_model, Some car_number, Some license_number) \<Rightarrow>
                  if uid \<le> 0 \<or> car_model = [] \<or> car_number = [] \<or> license_number = []
                  then Done (Inr (error_body lib
                          ''user_id, car_model, car_number and license_number are required''),
                        SetStatus 400 resp)
                  else call (on_storage (CreateDriver (env_pg env) uid car_model car_number license_number))
                    (\<lambda>res. case res of
                        Inl e \<Rightarrow> Done (Inl e, resp)
                      | Inr None \<Rightarrow> Done (Inr (error_body lib ''driver cannot be created''), SetStatus 409 resp)
                      | Inr (Some d) \<Rightarrow>
                          invalidate_then ''drivers:'' (Done (Inr (driver_body lib d), SetStatus 201 resp)))
              | _ \<Rightarrow> Done (Inl JsonException, resp)))"

definition RidesCreate_prog :: "'j program" where
  "RidesCreate_prog lib env req resp0 =
     (let resp = SetContentType ''application/json'' resp0
      in case FromString lib (RequestBody req) of
           None \<Rightarrow> Done (Inl JsonException, resp)
         | Some json \<Rightarrow>
             (case (as_int lib json ''passenger_id'', as_string lib json ''pickup_address'',
                    as_string lib json ''destination_address'') of
                (Some passenger, Some pickup_address, Some destination_address) \<Rightarrow>
                  if passenger \<le> 0 \<or> pickup_address = [] \<or> destination_address = []
                  then Done (Inr (error_body lib
                          ''passenger_id, pickup_address and destination_address are required''),
                        SetStatus 400 resp)
                  else call (on_storage (CreateRide (env_pg env) passenger pickup_address destination_address))
                    (\<lambda>res. case res of
                        Inl e \<Rightarrow> Done (Inl e, resp)
                      | Inr None \<Rightarrow> Done (Inr (error_body lib ''ride cannot be created''), SetStatus 409 resp)
                      | Inr (Some r) \<Rightarrow>
                          invalidate_then ''rides:'' (Done (Inr (ride_body lib r), SetStatus 201 resp)))
              | _ \<Rightarrow> Done (Inl JsonException, resp)))"

definition RidesAccept_prog :: "'j program" where
  "RidesAccept_prog lib env req resp0 =
     (let resp = SetContentType ''application/json'' resp0
      in case FromString lib (RequestBody req) of
           None \<Rightarrow> Done (Inl JsonException, resp)
         | Some json \<Rightarrow>
             (case as_int lib json ''driver_id'' of
                None \<Rightarrow> Done (Inl JsonException, resp)
              | Some did \<Rightarrow>
                  (let ride_id_arg = GetPathArg req ''id''
                   in if ride_id_arg = []
                      then Done (Inr (error_body lib ''ride id is required in path''), SetStatus 400 resp)
                      else (case stoi ride_id_arg of
                          Inl e \<Rightarrow> Done (Inl e, resp)
                        | Inr rid \<Rightarrow>
                            if did \<le> 0
                            then Done (Inr (error_body lib ''driver_id is required''), SetStatus 400 resp)
                            else call (on_storage (AcceptRide (env_pg env) rid did))
                              (\<lambda>res. case res of
                                  Inl e \<Rightarrow> Done (Inl e, resp)
                                | Inr None \<Rightarrow>
                                    Done (Inr (error_body lib ''ride cannot be accepted''), SetStatus 409 resp)
                                | Inr (Some r) \<Rightarrow>
                                    invalidate_then ''rides:'' (Done (Inr (ride_body lib r), resp)))))))"

definition RidesComplete_prog :: "'j program" where
  "RidesComplete_prog lib env req resp0 =
     (let resp = SetContentType ''application/json'' resp0;
          ride_id_arg = GetPathArg req ''id''
      in if ride_id_arg = []
         then Done (Inr (error_body lib ''ride id is required in path''), SetStatus 400 resp)
         else (case stoi ride_id_arg of
             Inl e \<Rightarrow> Done (Inl e, resp)
           | Inr rid \<Rightarrow>
               call (on_storage (CompleteRide (env_pg env) rid))
                 (\<lambda>res. case res of
                     Inl e \<Rightarrow> Done (Inl e, resp)
                   | Inr None \<Rightarrow> Done (Inr (error_body lib ''ride cannot be completed''), SetStatus 409 resp)
                   | Inr (Some r) \<Rightarrow> invalidate_then ''rides:'' (Done (Inr (ride_body lib r), resp)))))"

lemma writers_run_alone:
  "run_alone (UsersCreate_prog lib env req resp) sv =
     (case UsersCreate_HandleRequestThrow lib env req resp sv of (r, resp', sv') \<Rightarrow> ((r, resp'), sv'))"
  "run_alone (DriversCreate_prog lib env req resp) sv =
     (case DriversCreate_HandleRequestThrow lib env req resp sv of (r, resp', sv') \<Rightarrow> ((r, resp'), sv'))"
  "run_alone (RidesCreate_prog lib env req resp) sv =
     (case RidesCreate_HandleRequestThrow lib env req resp sv of (r, resp', sv') \<Rightarrow> ((r, resp'), sv'))"
  "run_alone (RidesAccept_prog lib env req resp) sv =
     (case RidesAccept_HandleRequestThrow lib env req resp sv of (r, resp', sv') \<Rightarrow> ((r, resp'), sv'))"
  "run_alone (RidesComplete_prog lib env req resp) sv =
     (case RidesComplete_HandleRequestThrow lib env req resp sv of (r, resp', sv') \<Rightarrow> ((r, resp'), sv'))"
  by (simp_all add: UsersCreate_prog_def UsersCreate_HandleRequestThrow_def
      DriversCreate_prog_def DriversCreate_HandleRequestThrow_def
      RidesCreate_prog_def RidesCreate_HandleRequestThrow_def
      RidesAccept_prog_def RidesAccept_HandleRequestThrow_def
      RidesComplete_prog_def RidesComplete_HandleRequestThrow_def
      invalidate_then_def action_defs Let_def split: option.split sum.split prod.split)

section \<open>Login\<close>

text \<open>The part of \<open>Login\<close> under the token mutex.\<close>

definition IssueToken :: "user \<Rightarrow> taxi_storage \<Rightarrow> string option result \<times> taxi_storage" where
  "IssueToken user st =
     (if next_token_id st = INT_MAX then (Inl UndefinedBehaviour, st)
      else (let token = MakeToken (user_id user) (next_token_id st)
            in (Inr (Some token),
                st\<lparr>next_token_id := next_token_id st + 1,
                   tokens := (tokens st)(token \<mapsto> user_id user)\<rparr>)))"

lemma Login_IssueToken:
  "Login env login password st =
     (case GetUserByLogin env login st of
        Inl e \<Rightarrow> (Inl e, st)
      | Inr None \<Rightarrow> (Inr None, st)
      | Inr (Some user) \<Rightarrow> if user_password user \<noteq> password then (Inr None, st) else IssueToken user st)"
  by (simp add: Login_def IssueToken_def Let_def split: sum.split option.split)

definition AuthLogin_prog :: "'j program" where
  "AuthLogin_prog lib env req resp0 =
     (let resp = SetContentType ''application/json'' resp0;
          denied = Done (Inr (error_body lib ''invalid credentials''), SetStatus 401 resp)
      in case FromString lib (RequestBody req) of
           None \<Rightarrow> Done (Inl JsonException, resp)
         | Some json \<Rightarrow>
             (case (as_string lib json ''login'', as_string lib json ''password'') of
                (Some login, Some password) \<Rightarrow>
                  if login = [] \<or> password = []
                  then Done (Inr (error_body lib ''login and password are required''), SetStatus 400 resp)
                  else read (\<lambda>sv. GetUserByLogin (env_pg env) login (storage sv))
                    (\<lambda>found. case found of
                        Inl e \<Rightarrow> Done (Inl e, resp)
                      | Inr None \<Rightarrow> denied
                      | Inr (Some user) \<Rightarrow>
                          if user_password user \<noteq> password then denied
                          else call (on_storage (IssueToken user))
                            (\<lambda>res. case res of
                                Inl e \<Rightarrow> Done (Inl e, resp)
                              | Inr None \<Rightarrow> denied
                              | Inr (Some token) \<Rightarrow> Done (Inr (token_body lib token), resp)))
              | _ \<Rightarrow> Done (Inl JsonException, resp)))"

lemma login_run_alone:
  "run_alone (AuthLogin_prog lib env req resp) sv =
     (case AuthLogin_HandleRequestThrow lib env req resp sv of (r, resp', sv') \<Rightarrow> ((r, resp'), sv'))"
  by (simp add: AuthLogin_prog_def AuthLogin_HandleRequestThrow_def Login_IssueToken action_defs Let_def
      split: option.split sum.split prod.split)

section \<open>Handlers that read\<close>

text \<open>
  The cache-aside pattern of the two handlers: a lookup, on a miss the query, and last the
  insertion of the body. Between any two of them other requests may run.
\<close>

definition set_then :: "req_env \<Rightarrow> string \<Rightarrow> string \<Rightarrow> int \<Rightarrow> handler_prog \<Rightarrow> handler_prog" where
  "set_then env key body ttl k = call (on_cache (\<lambda>c. ((), CacheSet (steady_set env) key body ttl c))) (\<lambda>_. k)"

definition UsersGet_prog :: "'j program" where
  "UsersGet_prog lib env req resp0 =
     (let resp = SetContentType ''application/json'' resp0;
          login = GetArg req ''login'';
          name_mask = GetArg req ''name_mask'';
          has_login = (login \<noteq> []);
          has_name_mask = (name_mask \<noteq> [])
      in if has_login = has_name_mask
         then Done (Inr (error_body lib ''use exactly one query parameter: login or name_mask''),
                    SetStatus 400 resp)
         else
           (let key = users_cache_key has_login login name_mask
            in call (on_cache (CacheGet (steady_get env) key))
                (\<lambda>cached. case cached of
                   Some body \<Rightarrow> Done (Inr body, SetHeader ''X-Cache'' ''HIT'' resp)
                 | None \<Rightarrow>
                     (let resp1 = SetHeader ''X-Cache'' ''MISS'' resp
                      in if has_login
                         then read (\<lambda>sv. GetUserByLogin (env_pg env) login (storage sv))
                           (\<lambda>found. case found of
                               Inl e \<Rightarrow> Done (Inl e, resp1)
                             | Inr None \<Rightarrow>
                                 Done (Inr (error_body lib ''user not found''), SetStatus 404 resp1)
                             | Inr (Some user) \<Rightarrow>
                                 (let body = user_body lib user
                                  in set_then env key body 60 (Done (Inr body, resp1))))
                         else read (\<lambda>sv. FindUsersByNameMask (env_pg env) name_mask (storage sv))
                           (\<lambda>found. case found of
                               Inl e \<Rightarrow> Done (Inl e, resp1)
                             | Inr us \<Rightarrow>
                                 (let body = users_body lib us
                                  in set_then env key body 60 (Done (Inr body, resp1))))))))"

definition RidesGet_cached_prog :: "'j json_lib \<Rightarrow> req_env \<Rightarrow> bool \<Rightarrow> string \<Rightarrow> response \<Rightarrow> handler_prog" where
  "RidesGet_cached_prog lib env is_history_query user_id_arg resp =
     (let key = (if is_history_query then ''rides:history:'' @ user_id_arg else ''rides:active'')
      in call (on_cache (CacheGet (steady_get env) key))
          (\<lambda>cached. case cached of
             Some body \<Rightarrow> Done (Inr body, SetHeader ''X-Cache'' ''HIT'' resp)
           | None \<Rightarrow>
               (let resp1 = SetHeader ''X-Cache'' ''MISS'' resp
                in if is_history_query
                   then (case stoi user_id_arg of
                       Inl e \<Rightarrow> Done (Inl e, resp1)
                     | Inr uid \<Rightarrow>
                         read (\<lambda>sv. GetRidesByUserId (env_pg env) uid (storage sv))
                           (\<lambda>found. case found of
                               Inl e \<Rightarrow> Done (Inl e, resp1)
                             | Inr rs \<Rightarrow>
                                 (let body = rides_body lib rs
                                  in set_then env key body 60 (Done (Inr body, resp1)))))
                   else read (\<lambda>sv. GetActiveRides (env_pg env) (storage sv))
                     (\<lambda>found. case found of
                         Inl e \<Rightarrow> Done (Inl e, resp1)
                       | Inr rs \<Rightarrow>
                           (let body = rides_body lib rs
                            in set_then env key body 15 (Done (Inr body, resp1)))))))"

definition RidesGet_prog :: "'j program" where
  "RidesGet_prog lib env req resp0 =
     (let resp = SetContentType ''application/json'' resp0;
          user_id_arg = GetArg req ''user_id'';
          status = GetArg req ''status'';
          is_history_query = (user_id_arg \<noteq> []);
          is_active_query = (user_id_arg = [] \<and> status = ''active'')
      in if \<not> is_history_query \<and> \<not> is_active_query
         then Done (Inr (error_body lib ''user_id or status=active query parameter is required''),
                    SetStatus 400 resp)
         else if is_active_query
         then call (on_limiter (Check (system_now env) ACTIVE_RIDES_KEY kActiveRidesLimitPerMinute 60))
           (\<lambda>res. case res of
               Inl e \<Rightarrow> Done (Inl e, resp)
             | Inr r \<Rightarrow>
                 (let resp1 = SetRateLimitHeaders r resp
                  in if \<not> allowed r
                     then Done (Inr (error_body lib ''too many requests''),
                                SetStatus 429 (SetHeader ''Retry-After'' ''60'' resp1))
                     else RidesGet_cached_prog lib env is_history_query user_id_arg resp1))
         else RidesGet_cached_prog lib env is_history_query user_id_arg resp)"

lemma users_get_run_alone:
  "run_alone (UsersGet_prog lib env req resp) sv =
     (case UsersGet_HandleRequestThrow lib env req resp sv of (r, resp', sv') \<Rightarrow> ((r, resp'), sv'))"
  by (simp add: UsersGet_prog_def UsersGet_HandleRequestThrow_def set_then_def action_defs Let_def
      split: option.split sum.split prod.split)

lemma rides_get_cached_run_alone:
  "run_alone (RidesGet_cached_prog lib env h a resp) sv =
     (case RidesGet_cached lib env h a resp sv of (r, resp', sv') \<Rightarrow> ((r, resp'), sv'))"
  by (cases h) (auto simp: RidesGet_cached_prog_def RidesGet_cached_def set_then_def action_defs Let_def
      simp del: append.simps split: option.split sum.split prod.split)

lemma rides_get_run_alone:
  "run_alone (RidesGet_prog lib env req resp) sv =
     (case RidesGet_HandleRequestThrow lib env req resp sv of (r, resp', sv') \<Rightarrow> ((r, resp'), sv'))"
  by (cases "GetArg req ''user_id'' = []"; cases "GetArg req ''status'' = ''active''")
    (simp_all add: RidesGet_prog_def RidesGet_HandleRequestThrow_def rides_get_cached_run_alone
      action_defs Let_def split: sum.split prod.split)

end
