(* ===== verification/ServerPrograms.thy ===== *)
theory ServerPrograms
  imports HandlerPrograms ServerInvariant
begin

text \<open>
  A whole request as a program: the check of the token by the middleware, then the handler. Run
  alone it computes \<open>handle\<close>; it has at most five actions.
\<close>

section \<open>Users in MongoDB\<close>

definition mongo_insert_prog :: "'j json_lib \<Rightarrow> ('m, 'd) mongo_lib \<Rightarrow> int \<Rightarrow> string \<Rightarrow> string \<Rightarrow> string \<Rightarrow>
    string \<Rightarrow> string \<Rightarrow> string \<Rightarrow> string \<Rightarrow> response \<Rightarrow> ('m, (string \<times> response) option) prog" where
  "mongo_insert_prog lib ml now login password first_name last_name status email phone resp =
     read (\<lambda>m. FindOne ml m (login_query login))
       (\<lambda>found. case found of
          Inl e \<Rightarrow> Done None
        | Inr (Some d) \<Rightarrow> Done (Some (raw_error ''mongo user already exists'', SetStatus 409 resp))
        | Inr None \<Rightarrow>
            call (\<lambda>m. InsertOne ml m
                (mongo_user_doc login password first_name last_name now status email phone))
              (\<lambda>res. case res of
                 Inl e \<Rightarrow> Done None
               | Inr _ \<Rightarrow>
                   Done (Some (ToString lib (mongo_created_json login first_name last_name status email phone),
                               SetStatus 201 resp))))"

definition mongo_create_body_prog :: "'j json_lib \<Rightarrow> ('m, 'd) mongo_lib \<Rightarrow> int \<Rightarrow> 'j \<Rightarrow> response \<Rightarrow>
    ('m, (string \<times> response) option) prog" where
  "mongo_create_body_prog lib ml now body resp =
     (case has_members lib body [''login'', ''password'', ''first_name'', ''last_name''] of
        None \<Rightarrow> Done None
      | Some False \<Rightarrow>
          Done (Some (raw_error ''login, password, first_name and last_name are required'',
                      SetStatus 400 resp))
      | Some True \<Rightarrow>
          (case (as_string lib body ''login'', as_string lib body ''password'',
                 as_string lib body ''first_name'', as_string lib body ''last_name'') of
             (Some login, Some password, Some first_name, Some last_name) \<Rightarrow>
               if login = [] \<or> password = [] \<or> first_name = [] \<or> last_name = []
               then Done (Some (raw_error ''fields must not be empty'', SetStatus 400 resp))
               else if \<not> IsValidLogin login
               then Done (Some (raw_error ''login must contain only a-z, 0-9, ., _, -'',
                                SetStatus 400 resp))
               else if length password < 6
               then Done (Some (raw_error ''password must be at least 6 characters'',
                                SetStatus 400 resp))
               else (case optional_member lib body ''status'' ''active'' of
                   None \<Rightarrow> Done None
                 | Some status \<Rightarrow>
                     if status \<noteq> ''active'' \<and> status \<noteq> ''blocked''
                     then Done (Some (raw_error ''status must be active or blocked'',
                                      SetStatus 400 resp))
                     else (case (optional_member lib body ''email'' (login @ ''@example.com''),
                                 optional_member lib body ''phone'' ''+79990000000'') of
                         (Some email, Some phone) \<Rightarrow>
                           mongo_insert_prog lib ml now login password first_name last_name status
                             email phone resp
                       | _ \<Rightarrow> Done None))
           | _ \<Rightarrow> Done None))"

definition MongoUsersCreate_prog :: "'j json_lib \<Rightarrow> ('m, 'd) mongo_lib \<Rightarrow> req_env \<Rightarrow> request \<Rightarrow> response \<Rightarrow>
    ('m, string \<times> response) prog" where
  "MongoUsersCreate_prog lib ml env req resp0 =
     (let resp = SetContentType ''application/json'' resp0
      in case FromString lib (RequestBody req) of
           None \<Rightarrow> Done (raw_error ''invalid json'', SetStatus 400 resp)
         | Some body \<Rightarrow>
             zoom (\<lambda>m. m) (\<lambda>m _. m)
               (\<lambda>out. case out of
                  Some answer \<Rightarrow> answer
                | None \<Rightarrow> (raw_error ''failed to create mongo user'', SetStatus 500 resp))
               (mongo_create_body_prog lib ml (system_now env) body resp))"

lemma mongo_insert_run_alone:
  "run_alone (mongo_insert_prog lib ml now login password first_name last_name status email phone resp) m =
     mongo_insert lib ml now login password first_name last_name status email phone resp m"
  by (simp add: mongo_insert_prog_def mongo_insert_def split: sum.split option.split prod.split)

lemma mongo_create_body_run_alone:
  "run_alone (mongo_create_body_prog lib ml now body resp) m = mongo_create_body lib ml now body resp m"
  by (simp add: mongo_create_body_prog_def mongo_create_body_def mongo_insert_run_alone
      split: option.split bool.split)

lemma part_of_id: "part_of (\<lambda>m. m) (\<lambda>m _. m)"
  by (simp add: part_of_def)

lemma mongo_create_run_alone:
  "run_alone (MongoUsersCreate_prog lib ml env req resp) m =
     (case MongoUsersCreate_HandleRequestThrow lib ml env req resp m of (b, resp', m') \<Rightarrow> ((b, resp'), m'))"
  by (simp add: MongoUsersCreate_prog_def MongoUsersCreate_HandleRequestThrow_def Let_def
      run_zoom [OF part_of_id] mongo_create_body_run_alone split: option.split prod.split)

section \<open>A request\<close>

type_synonym 'm request_prog = "('m server, response result) prog"

fun sql_prog :: "endpoint \<Rightarrow> 'j program option" where
  "sql_prog EP_UsersCreate = Some UsersCreate_prog"
| "sql_prog EP_UsersGet = Some UsersGet_prog"
| "sql_prog EP_AuthLogin = Some AuthLogin_prog"
| "sql_prog EP_DriversCreate = Some DriversCreate_prog"
| "sql_prog EP_RidesCreate = Some RidesCreate_prog"
| "sql_prog EP_RidesGet = Some RidesGet_prog"
| "sql_prog EP_RidesAccept = Some RidesAccept_prog"
| "sql_prog EP_RidesComplete = Some RidesComplete_prog"
| "sql_prog EP_MongoUsersCreate = None"
| "sql_prog EP_MongoUsersGet = None"

definition put_svc :: "service \<Rightarrow> 'm server \<Rightarrow> 'm server" where
  "put_svc sv s = s\<lparr>svc := sv\<rparr>"

definition put_mongo :: "'m \<Rightarrow> 'm server \<Rightarrow> 'm server" where
  "put_mongo m s = s\<lparr>mongo_users := m\<rparr>"

lemma part_of_server: "part_of svc put_svc" "part_of mongo_users put_mongo"
  by (simp_all add: part_of_def put_svc_def put_mongo_def)

definition dispatch_prog :: "('j, 'm, 'd) platform \<Rightarrow> req_env \<Rightarrow> request \<Rightarrow> response \<Rightarrow> 'm request_prog" where
  "dispatch_prog pf env req resp =
     (case pf_route pf req of
        None \<Rightarrow> Done (pf_framework pf req resp)
      | Some ep \<Rightarrow>
          (case sql_prog ep of
             Some h \<Rightarrow> zoom svc put_svc (\<lambda>(r, resp'). finish r resp') (h (pf_json pf) env req resp)
           | None \<Rightarrow>
               if ep = EP_MongoUsersCreate
               then zoom mongo_users put_mongo (\<lambda>(body, resp'). Inr (SetData body resp'))
                      (MongoUsersCreate_prog (pf_json pf) (pf_mongo pf) env req resp)
               else read (\<lambda>s. MongoUsersGet_HandleRequestThrow (pf_json pf) (pf_mongo pf) req resp (mongo_users s))
                      (\<lambda>(body, resp'). Done (Inr (SetData body resp')))))"

definition request_prog :: "('j, 'm, 'd) platform \<Rightarrow> req_env \<Rightarrow> request \<Rightarrow> 'm request_prog" where
  "request_prog pf env req =
     (if IsPublicRequest req then dispatch_prog pf env req empty_response
      else (case bearer_token req of
          None \<Rightarrow> Done (Inr (unauthorized missing_header_body empty_response))
        | Some token \<Rightarrow>
            read (\<lambda>s. IsTokenValid (server_storage s) token)
              (\<lambda>valid. if \<not> valid then Done (Inr (unauthorized invalid_token_body empty_response))
                       else dispatch_prog pf env req empty_response)))"

lemma sql_prog_handler:
  "sql_prog ep = Some p \<Longrightarrow> \<exists>h. sql_handler ep = Some h \<and>
     (\<forall>lib env req resp sv. run_alone (p lib env req resp) sv =
        (case h lib env req resp sv of (r, resp', sv') \<Rightarrow> ((r, resp'), sv')))"
  by (cases ep)
    (auto simp: writers_run_alone login_run_alone users_get_run_alone rides_get_run_alone)

lemma sql_prog_None:
  "(sql_prog ep :: 'j program option) = None \<longleftrightarrow> (sql_handler ep :: 'j handler option) = None"
  by (cases ep) simp_all

lemma dispatch_run_alone:
  fixes pf :: "('j, 'm, 'd) platform"
  shows "run_alone (dispatch_prog pf env req resp) s = dispatch pf env req resp s"
proof (cases "pf_route pf req")
  case None
  then show ?thesis by (simp add: dispatch_prog_def dispatch_def)
next
  case (Some ep)
  show ?thesis
  proof (cases "sql_prog ep :: 'j program option")
    case None
    moreover from None have "sql_handler ep = (None :: 'j handler option)" by (simp add: sql_prog_None)
    ultimately show ?thesis
      using Some
      by (simp add: dispatch_prog_def dispatch_def run_zoom [OF part_of_server(2)] mongo_create_run_alone
          put_mongo_def split: prod.split)
  next
    case p: (Some p)
    from sql_prog_handler [OF p] obtain h where h: "sql_handler ep = Some h"
      and eq: "\<And>lib env req resp sv. run_alone (p lib env req resp) sv =
        (case h lib env req resp sv of (r, resp', sv') \<Rightarrow> ((r, resp'), sv'))" by blast
    from Some p h show ?thesis
      by (simp add: dispatch_prog_def dispatch_def run_zoom [OF part_of_server(1)] run_sql_def eq put_svc_def
          split: prod.split)
  qed
qed

text \<open>The small steps of a request, taken without interruption, are the request.\<close>

lemma request_run_alone: "run_alone (request_prog pf env req) s = handle pf env req s"
proof (cases "authorized (server_storage s) req")
  case True
  then show ?thesis
    by (auto simp: request_prog_def handle_def AuthMiddleware_pass dispatch_run_alone authorized_def
        split: option.split)
next
  case False
  then show ?thesis
    by (auto simp: request_prog_def handle_def AuthMiddleware_refuse refusal_body_def authorized_def
        split: option.split)
qed

section \<open>Length\<close>

lemma bounded_done: "bounded (Done x) n"
  by simp

lemma call_bounded: "0 < n \<Longrightarrow> (\<And>x. bounded (k x) (n - 1)) \<Longrightarrow> bounded (call f k) n"
  by (simp add: call_def)

lemma read_bounded: "0 < n \<Longrightarrow> (\<And>x. bounded (k x) (n - 1)) \<Longrightarrow> bounded (read f k) n"
  by (simp add: read_def)

lemma writers_bounded:
  "bounded (UsersCreate_prog lib env req resp) 2"
  "bounded (DriversCreate_prog lib env req resp) 2"
  "bounded (RidesCreate_prog lib env req resp) 2"
  "bounded (RidesAccept_prog lib env req resp) 2"
  "bounded (RidesComplete_prog lib env req resp) 2"
  by (auto simp: UsersCreate_prog_def DriversCreate_prog_def RidesCreate_prog_def
      RidesAccept_prog_def RidesComplete_prog_def invalidate_then_def Let_def
      split: option.split sum.split intro!: call_bounded)

lemma login_bounded: "bounded (AuthLogin_prog lib env req resp) 2"
  by (auto simp: AuthLogin_prog_def Let_def split: option.split sum.split
      intro!: call_bounded read_bounded)

lemma users_get_bounded: "bounded (UsersGet_prog lib env req resp) 3"
  by (auto simp: UsersGet_prog_def set_then_def Let_def split: option.split sum.split
      intro!: call_bounded read_bounded)

lemma rides_get_cached_bounded: "bounded (RidesGet_cached_prog lib env h a resp) 3"
  by (auto simp: RidesGet_cached_prog_def set_then_def Let_def split: option.split sum.split
      intro!: call_bounded read_bounded)

lemma rides_get_bounded: "bounded (RidesGet_prog lib env req resp) 4"
  using bounded_mono [OF rides_get_cached_bounded, of 4]
  by (auto simp: RidesGet_prog_def Let_def rides_get_cached_bounded split: option.split sum.split
      intro!: call_bounded)

lemmas handler_bounds = writers_bounded login_bounded users_get_bounded rides_get_bounded

lemma sql_prog_bounded: "sql_prog ep = Some p \<Longrightarrow> bounded (p lib env req resp) 4"
  by (cases ep) (auto intro: handler_bounds bounded_mono [OF handler_bounds(1)]
      bounded_mono [OF handler_bounds(2)] bounded_mono [OF handler_bounds(3)]
      bounded_mono [OF handler_bounds(4)] bounded_mono [OF handler_bounds(5)]
      bounded_mono [OF handler_bounds(6)] bounded_mono [OF handler_bounds(7)])

lemma mongo_create_bounded: "bounded (MongoUsersCreate_prog lib ml env req resp) 4"
  by (auto simp: MongoUsersCreate_prog_def mongo_create_body_prog_def mongo_insert_prog_def Let_def
      split: option.split bool.split sum.split intro!: bounded_zoom call_bounded read_bounded)

lemma dispatch_bounded: "bounded (dispatch_prog pf env req resp) 4"
  by (auto simp: dispatch_prog_def sql_prog_bounded mongo_create_bounded split: option.split
      intro!: bounded_zoom read_bounded)

text \<open>Whatever the others do in between, a request takes at most five actions.\<close>

lemma request_bounded: "bounded (request_prog pf env req) 5"
  using bounded_mono [OF dispatch_bounded, of 5 pf env req empty_response]
  by (auto simp: request_prog_def dispatch_bounded split: option.split intro!: read_bounded)

end
