(* ===== verification/Interleaving.thy ===== *)
theory Interleaving
  imports ServerPrograms CacheTransparency
begin

text \<open>
  Requests that run at the same time, in any order of their actions. A locale says what an
  invariant of the storage and one of the cache must respect, and carries it through every
  schedule; it is interpreted for the dispatch board, for the progress of one ride, for the
  tokens and for the age of the entries of the cache. A schedule that lets every request finish
  before the next one starts is a run of the server.
\<close>

section \<open>Pools of requests\<close>

definition pool_of :: "('j, 'm, 'd) platform \<Rightarrow> operation list \<Rightarrow> 'm server \<Rightarrow>
    ('m server, response result) pool" where
  "pool_of pf ops s = (map (\<lambda>op. request_prog pf (fst op) (snd op)) ops, s)"

definition concurrent_run :: "('j, 'm, 'd) platform \<Rightarrow> nat list \<Rightarrow> operation list \<Rightarrow> 'm server \<Rightarrow> 'm server" where
  "concurrent_run pf is ops s = snd (schedule is (pool_of pf ops s))"

section \<open>Invariants of the service\<close>

text \<open>
  \<open>P\<close> is kept by every operation of the storage that changes it, \<open>Q\<close> by every operation of the
  cache, insertions at a time and with a time to live that \<open>env_ok\<close> admits.
\<close>

locale service_invariant =
  fixes P :: "taxi_storage \<Rightarrow> bool" and Q :: "response_cache \<Rightarrow> bool" and env_ok :: "req_env \<Rightarrow> bool"
  assumes CreateUser_keeps: "P st \<Longrightarrow> CreateUser pg l p f st = (ures, st') \<Longrightarrow> P st'"
    and CreateDriver_keeps: "P st \<Longrightarrow> CreateDriver pg uid m n l st = (dres, st') \<Longrightarrow> P st'"
    and CreateRide_keeps: "P st \<Longrightarrow> CreateRide pg uid m n st = (rres, st') \<Longrightarrow> P st'"
    and AcceptRide_keeps: "P st \<Longrightarrow> AcceptRide pg i j st = (rres, st') \<Longrightarrow> P st'"
    and CompleteRide_keeps: "P st \<Longrightarrow> CompleteRide pg i st = (rres, st') \<Longrightarrow> P st'"
    and IssueToken_keeps: "P st \<Longrightarrow> IssueToken u st = (tres, st') \<Longrightarrow> P st'"
    and CacheGet_keeps: "Q c \<Longrightarrow> Q (snd (CacheGet now k c))"
    and CacheSet_keeps: "Q c \<Longrightarrow> env_ok env \<Longrightarrow> ttl \<le> 60 \<Longrightarrow> Q (CacheSet (steady_set env) k v ttl c)"
    and InvalidatePrefix_keeps: "Q c \<Longrightarrow> Q (InvalidatePrefix p c)"
begin

definition service_ok :: "service \<Rightarrow> bool" where
  "service_ok sv \<longleftrightarrow> P (storage sv) \<and> Q (cache sv)"

lemma storage_action:
  assumes "\<And>st x st'. P st \<Longrightarrow> f st = (x, st') \<Longrightarrow> P st'" and "\<And>x. keeps service_ok (k x)"
  shows "keeps service_ok (call (on_storage f) k)"
  using assms by (intro keeps_call) (auto simp: on_storage_def service_ok_def split: prod.splits)

lemma cache_action:
  assumes "\<And>c. Q c \<Longrightarrow> Q (snd (f c))" and "\<And>x. keeps service_ok (k x)"
  shows "keeps service_ok (call (on_cache f) k)"
proof (rule keeps_call)
  fix s x s'
  assume ok: "service_ok s" and run: "on_cache f s = (x, s')"
  from run have "s' = s\<lparr>cache := snd (f (cache s))\<rparr>"
    by (auto simp: on_cache_def split: prod.splits)
  with ok assms show "service_ok s' \<and> keeps service_ok (k x)"
    by (simp add: service_ok_def)
qed

lemma limiter_action:
  assumes "\<And>x. keeps service_ok (k x)"
  shows "keeps service_ok (call (on_limiter f) k)"
  using assms by (intro keeps_call) (auto simp: on_limiter_def service_ok_def split: prod.splits)

lemma read_action: "(\<And>x. keeps service_ok (k x)) \<Longrightarrow> keeps service_ok (read f k)"
  by (rule keeps_read)

lemma invalidate_action: "keeps service_ok k \<Longrightarrow> keeps service_ok (invalidate_then p k)"
  unfolding invalidate_then_def by (rule cache_action) (simp_all add: InvalidatePrefix_keeps)

lemma set_action:
  "env_ok env \<Longrightarrow> ttl \<le> 60 \<Longrightarrow> keeps service_ok k \<Longrightarrow> keeps service_ok (set_then env key body ttl k)"
  unfolding set_then_def by (rule cache_action) (simp_all add: CacheSet_keeps)

lemma get_action:
  "(\<And>x. keeps service_ok (k x)) \<Longrightarrow> keeps service_ok (call (on_cache (CacheGet now key)) k)"
  by (rule cache_action) (simp_all add: CacheGet_keeps)

lemma writers_keep:
  "keeps service_ok (UsersCreate_prog lib env req resp)"
  "keeps service_ok (DriversCreate_prog lib env req resp)"
  "keeps service_ok (RidesCreate_prog lib env req resp)"
  "keeps service_ok (RidesAccept_prog lib env req resp)"
  "keeps service_ok (RidesComplete_prog lib env req resp)"
  "keeps service_ok (AuthLogin_prog lib env req resp)"
  by (auto simp: UsersCreate_prog_def DriversCreate_prog_def RidesCreate_prog_def
      RidesAccept_prog_def RidesComplete_prog_def AuthLogin_prog_def Let_def
      split: option.split sum.split intro!: storage_action read_action invalidate_action
      intro: CreateUser_keeps CreateDriver_keeps CreateRide_keeps AcceptRide_keeps
        CompleteRide_keeps IssueToken_keeps)

lemma readers_keep:
  assumes "env_ok env"
  shows "keeps service_ok (UsersGet_prog lib env req resp)"
    and "keeps service_ok (RidesGet_cached_prog lib env h a resp)"
  using assms
  by (auto simp: UsersGet_prog_def RidesGet_cached_prog_def Let_def
      split: option.split sum.split intro!: get_action read_action set_action)

lemma rides_get_keeps: "env_ok env \<Longrightarrow> keeps service_ok (RidesGet_prog lib env req resp)"
  by (auto simp: RidesGet_prog_def Let_def readers_keep split: sum.split intro!: limiter_action)

lemma sql_prog_keeps: "sql_prog ep = Some p \<Longrightarrow> env_ok env \<Longrightarrow> keeps service_ok (p lib env req resp)"
  by (cases ep) (auto simp: writers_keep readers_keep rides_get_keeps)

lemma dispatch_keeps:
  assumes "env_ok env"
  shows "keeps (\<lambda>s. service_ok (svc s)) (dispatch_prog pf env req resp)"
proof -
  have other: "keeps (\<lambda>s. service_ok (svc s)) (zoom mongo_users put_mongo f p)" for f p
    by (induction p) (auto simp: put_mongo_def)
  show ?thesis
    using assms by (auto simp: dispatch_prog_def other sql_prog_keeps split: option.split prod.split
        intro!: keeps_zoom part_of_server keeps_read)
qed

lemma request_keeps: "env_ok env \<Longrightarrow> keeps (\<lambda>s. service_ok (svc s)) (request_prog pf env req)"
  by (auto simp: request_prog_def dispatch_keeps split: option.split intro!: keeps_read)

text \<open>The invariant holds after every schedule of every pool of requests.\<close>

lemma concurrent_keeps:
  assumes "P (server_storage s)" and "Q (cache (svc s))" and "\<forall>op\<in>set ops. env_ok (fst op)"
  shows "P (server_storage (concurrent_run pf is ops s)) \<and> Q (cache (svc (concurrent_run pf is ops s)))"
proof -
  have "\<forall>p\<in>set (fst (pool_of pf ops s)). keeps (\<lambda>s. service_ok (svc s)) p"
    using assms(3) by (auto simp: pool_of_def request_keeps)
  moreover have "service_ok (svc (snd (pool_of pf ops s)))"
    using assms(1,2) by (simp add: pool_of_def service_ok_def server_storage_def)
  ultimately have "service_ok (svc (concurrent_run pf is ops s))"
    unfolding concurrent_run_def by (rule schedule_keeps)
  then show ?thesis by (simp add: service_ok_def server_storage_def)
qed

end

section \<open>The board\<close>

text \<open>Whatever every step of the board keeps is kept by every operation of the storage.\<close>

definition board_inv :: "(board \<Rightarrow> bool) \<Rightarrow> taxi_storage \<Rightarrow> bool" where
  "board_inv K st \<longleftrightarrow> dispatch_wf (pg_cluster st) \<and> K (show_board (pg_cluster st))"

lemma IssueToken_pg_cluster: "IssueToken u st = (res, st') \<Longrightarrow> pg_cluster st' = pg_cluster st"
  by (auto simp: IssueToken_def Let_def split: if_splits)

lemma board_inv_operations:
  assumes "\<And>b b'. board_step b b' \<Longrightarrow> K b \<Longrightarrow> K b'"
  shows "board_inv K st \<Longrightarrow> CreateUser pg l p f st = (ures, st') \<Longrightarrow> board_inv K st'"
    and "board_inv K st \<Longrightarrow> CreateDriver pg uid m n l st = (dres, st') \<Longrightarrow> board_inv K st'"
    and "board_inv K st \<Longrightarrow> CreateRide pg uid m n st = (rres, st') \<Longrightarrow> board_inv K st'"
    and "board_inv K st \<Longrightarrow> AcceptRide pg i j st = (rres, st') \<Longrightarrow> board_inv K st'"
    and "board_inv K st \<Longrightarrow> CompleteRide pg i st = (rres, st') \<Longrightarrow> board_inv K st'"
    and "board_inv K st \<Longrightarrow> IssueToken u st = (tres, st') \<Longrightarrow> board_inv K st'"
  using assms CreateUser_board CreateDriver_board CreateRide_board AcceptRide_board CompleteRide_board
    IssueToken_pg_cluster
  unfolding board_inv_def by (metis, metis, metis, metis, metis, metis)

lemma board_service:
  assumes "\<And>b b'. board_step b b' \<Longrightarrow> K b \<Longrightarrow> K b'"
  shows "service_invariant (board_inv K) (\<lambda>_. True) (\<lambda>_. True)"
proof (unfold_locales, goal_cases)
  case 1 then show ?case using board_inv_operations(1) [of K] assms by blast
next
  case 2 then show ?case using board_inv_operations(2) [of K] assms by blast
next
  case 3 then show ?case using board_inv_operations(3) [of K] assms by blast
next
  case 4 then show ?case using board_inv_operations(4) [of K] assms by blast
next
  case 5 then show ?case using board_inv_operations(5) [of K] assms by blast
next
  case 6 then show ?case using board_inv_operations(6) [of K] assms by blast
qed simp_all

interpretation board_sched: service_invariant "board_inv board_ok" "\<lambda>_. True" "\<lambda>_. True"
  by (rule board_service) (rule board_step_ok)

definition ride_at_least :: "int \<Rightarrow> phase \<Rightarrow> board \<Rightarrow> bool" where
  "ride_at_least i p b \<longleftrightarrow> (\<exists>q. ride_phase b i = Some q \<and> phase_le p q)"

lemma ride_at_least_step: "board_step b b' \<Longrightarrow> ride_at_least i p b \<Longrightarrow> ride_at_least i p b'"
  unfolding ride_at_least_def by (meson board_step_phase phase_le_trans)

interpretation ride_sched: service_invariant "board_inv (ride_at_least i p)" "\<lambda>_. True" "\<lambda>_. True" for i p
  by (rule board_service) (rule ride_at_least_step)

lemma concurrent_good:
  assumes "good_start (server_db s)"
  shows "good_start (server_db (concurrent_run pf is ops s))"
  using board_sched.concurrent_keeps [of s ops pf "is"] assms
  by (simp add: board_inv_def good_start_def server_db_storage)

section \<open>Tokens\<close>

definition token_known :: "string \<Rightarrow> taxi_storage \<Rightarrow> bool" where
  "token_known t st \<longleftrightarrow> tokens_inv st \<and> IsTokenValid st t"

lemma IssueToken_tokens_inv: "tokens_inv st \<Longrightarrow> IssueToken u st = (res, st') \<Longrightarrow> tokens_inv st'"
  by (fastforce simp: tokens_inv_def IssueToken_def Let_def split: if_splits)

lemma IssueToken_keeps_tokens: "IssueToken u st = (res, st') \<Longrightarrow> IsTokenValid st t \<Longrightarrow> IsTokenValid st' t"
  by (auto simp: IsTokenValid_def IssueToken_def Let_def split: if_splits)

lemmas storage_tokens = CreateUser_tokens CreateDriver_tokens CreateRide_tokens AcceptRide_tokens
  CompleteRide_tokens

interpretation token_sched: service_invariant "token_known t" "\<lambda>_. True" "\<lambda>_. True" for t
  by unfold_locales
    (auto simp: token_known_def IsTokenValid_def dest: storage_tokens
      intro: tokens_inv_frame IssueToken_tokens_inv dest: IssueToken_keeps_tokens [unfolded IsTokenValid_def])

interpretation tokens_sched: service_invariant tokens_inv "\<lambda>_. True" "\<lambda>_. True"
  by unfold_locales
    (auto dest: storage_tokens intro: tokens_inv_frame IssueToken_tokens_inv)

section \<open>The age of the cache\<close>

interpretation expiry_sched: service_invariant "\<lambda>_. True" "expires_by T"
    "\<lambda>env. steady_set env + 60 * SECOND \<le> T" for T
proof unfold_locales
  fix c env and ttl :: int and k v
  assume c: "expires_by T c" and env: "steady_set env + 60 * SECOND \<le> T" and ttl: "ttl \<le> 60"
  from env ttl have "steady_set env + ttl * SECOND \<le> T" by linarith
  with c show "expires_by T (CacheSet (steady_set env) k v ttl c)" by (rule expires_by_put)
qed (simp_all add: expires_by_get, simp add: expires_by_def rc.invalidate_wf rc.invalidate_live)

lemma concurrent_heals:
  assumes "expires_by T (cache (svc s))" and "\<forall>op\<in>set ops. steady_set (fst op) + 60 * SECOND \<le> T"
  shows "server_coherent lib lower T (concurrent_run pf is ops s)"
  using expiry_sched.concurrent_keeps [OF _ assms]
  by (auto simp: server_coherent_def intro: expires_by_coherent)

section \<open>One request after the other\<close>

text \<open>The responses of a run, in the order of the requests.\<close>

fun responses :: "('j, 'm, 'd) platform \<Rightarrow> operation list \<Rightarrow> 'm server \<Rightarrow> response result list" where
  "responses pf [] s = []"
| "responses pf (op # ops) s =
     fst (handle pf (fst op) (snd op) s) # responses pf ops (server_step pf op s)"

lemma run_serial_requests:
  "run_serial (map (\<lambda>op. request_prog pf (fst op) (snd op)) ops) s =
     (responses pf ops s, server_run pf ops s)"
  by (induction ops arbitrary: s)
    (simp_all add: request_run_alone server_step_def server_run_def split: prod.split)

text \<open>Five turns in a row are enough for any request.\<close>

definition in_order :: "nat \<Rightarrow> nat list" where
  "in_order n = concat (map (replicate 5) [0..<n])"

lemma in_order_run:
  "schedule (in_order (length ops)) (pool_of pf ops s) =
     (map Done (responses pf ops s), server_run pf ops s)"
  using schedule_serial [of "map (\<lambda>op. request_prog pf (fst op) (snd op)) ops" 5 s]
  by (simp add: in_order_def pool_of_def run_serial_requests request_bounded)

lemma fair_requests_end:
  assumes "j < length ops" and "5 \<le> count_list is j"
  shows "is_done (fst (schedule is (pool_of pf ops s)) ! j)"
  by (rule fair_schedule_ends [of _ _ 5]) (use assms in \<open>simp_all add: pool_of_def request_bounded\<close>)

end
