(* ===== verification/StorageProperties.thy ===== *)
theory StorageProperties
  imports Scenario
begin

text \<open>
  The properties of the operations of \<open>TaxiStorage\<close>: the two transactions compute the steps of
  the dispatch board and are atomic under faults, inserts obey the constraints of the schema,
  what was inserted can be found, and the lists are complete and in order.
\<close>

section \<open>Accepting and completing rides\<close>

lemma kAcceptRide_row:
  "row \<in> set (fst (kAcceptRide rid did db)) \<Longrightarrow>
   ride_id (ParseRide row) = rid \<and> ride_driver_id (ParseRide row) = did \<and> ride_status (ParseRide row) = ''accepted''"
  by (auto simp: kAcceptRide_def Let_def accept_ride_def select_ride_def coalesce_def ParseRide_def)

lemma kCompleteRide_row:
  "row \<in> set (fst (kCompleteRide now rid db)) \<Longrightarrow>
   ride_id (ParseRide row) = rid \<and> ride_status (ParseRide row) = ''completed''"
  by (auto simp: kCompleteRide_def Let_def complete_ride_def select_ride_def ParseRide_def)

lemma AcceptRide_faultless:
  assumes "pg_fault env = NoFault"
  shows "AcceptRide env rid did st =
    (case fst (kAcceptRide rid did (pg_cluster st)) of
       [] \<Rightarrow> (Inr None, st)
     | row # rows \<Rightarrow> (Inr (Some (ParseRide row)), st\<lparr>pg_cluster := snd (kAcceptRide rid did (pg_cluster st))\<rparr>))"
  using assms by (simp add: AcceptRide_def transaction_defs Let_def case_prod_unfold split: list.split)

lemma CompleteRide_faultless:
  assumes "pg_fault env = NoFault"
  shows "CompleteRide env rid st =
    (case fst (kCompleteRide (pg_now env) rid (pg_cluster st)) of
       [] \<Rightarrow> (Inr None, st)
     | row # rows \<Rightarrow>
         (Inr (Some (ParseRide row)), st\<lparr>pg_cluster := snd (kCompleteRide (pg_now env) rid (pg_cluster st))\<rparr>))"
  using assms by (simp add: CompleteRide_def transaction_defs Let_def case_prod_unfold split: list.split)

lemma AcceptRide_on_board:
  assumes inv: "db_inv (pg_cluster st)" and ok: "pg_fault env = NoFault"
  shows "case board_accept rid did (show_board (pg_cluster st)) of
      None \<Rightarrow> AcceptRide env rid did st = (Inr None, st)
    | Some b \<Rightarrow> \<exists>r st'. AcceptRide env rid did st = (Inr (Some r), st') \<and> show_board (pg_cluster st') = b \<and>
        ride_id r = rid \<and> ride_driver_id r = did \<and> ride_status r = ''accepted''"
proof (cases "fst (kAcceptRide rid did (pg_cluster st))")
  case Nil
  with kAcceptRide_refused [OF inv Nil] show ?thesis by (simp add: AcceptRide_faultless [OF ok])
next
  case (Cons row rows)
  then have "row \<in> set (fst (kAcceptRide rid did (pg_cluster st)))" by simp
  with kAcceptRide_row have row: "ride_id (ParseRide row) = rid" "ride_driver_id (ParseRide row) = did"
    "ride_status (ParseRide row) = ''accepted''" by blast+
  from Cons kAcceptRide_board [OF inv, of rid did] row show ?thesis
    by (simp add: AcceptRide_faultless [OF ok])
qed

text \<open>C4: \<open>AcceptRide\<close> is the accepting step of the board: on a database in good order and a
  working connection it accepts the ride for the driver exactly when the ride is searching and
  the driver is online, answers with the accepted ride, and otherwise answers with nothing and
  leaves the state alone.\<close>

theorem AcceptRide_refines_board:
  assumes inv: "db_inv (pg_cluster st)" and ok: "pg_fault env = NoFault"
  shows "case board_accept rid did (show_board (pg_cluster st)) of
      None \<Rightarrow> AcceptRide env rid did st = (Inr None, st)
    | Some b \<Rightarrow> \<exists>r st'. AcceptRide env rid did st = (Inr (Some r), st') \<and> show_board (pg_cluster st') = b \<and>
        ride_id r = rid \<and> ride_driver_id r = did \<and> ride_status r = ''accepted''"
  by (rule AcceptRide_on_board [OF assms])

theorem AcceptRide_refines_board_witness:
  "\<exists>r st'. AcceptRide (demo_pg 6) 1 1 (demo_storage 4) = (Inr (Some r), st') \<and>
     ride_id r = 1 \<and> ride_driver_id r = 1 \<and> ride_status r = ''accepted''"
proof -
  have "ride_phase (show_board (pg_cluster (demo_storage 4))) 1 = Some Searching"
    "driver_avail (show_board (pg_cluster (demo_storage 4))) 1 = Some Online"
    by code_simp+
  then obtain b where "board_accept 1 1 (show_board (pg_cluster (demo_storage 4))) = Some b"
    by (simp add: board_accept_def)
  with AcceptRide_refines_board [OF demo_storage_inv demo_pg_ok, of 6 1 1 4] show ?thesis by auto
qed

lemma CompleteRide_on_board:
  assumes wf: "dispatch_wf (pg_cluster st)" and ok: "pg_fault env = NoFault"
  shows "case board_complete rid (show_board (pg_cluster st)) of
      None \<Rightarrow> CompleteRide env rid st = (Inr None, st)
    | Some b \<Rightarrow> \<exists>r st'. CompleteRide env rid st = (Inr (Some r), st') \<and> show_board (pg_cluster st') = b \<and>
        ride_id r = rid \<and> ride_status r = ''completed''"
proof (cases "fst (kCompleteRide (pg_now env) rid (pg_cluster st))")
  case Nil
  from wf have inv: "db_inv (pg_cluster st)" by (simp add: dispatch_wf_def)
  from Nil kCompleteRide_refused [OF inv Nil] show ?thesis by (simp add: CompleteRide_faultless [OF ok])
next
  case (Cons row rows)
  then have "row \<in> set (fst (kCompleteRide (pg_now env) rid (pg_cluster st)))" by simp
  with kCompleteRide_row have row: "ride_id (ParseRide row) = rid" "ride_status (ParseRide row) = ''completed''"
    by blast+
  from Cons kCompleteRide_board [OF wf, of "pg_now env" rid] row show ?thesis
    by (simp add: CompleteRide_faultless [OF ok])
qed

text \<open>C5: \<open>CompleteRide\<close> is the completing step of the board: it completes an accepted ride and
  puts its driver online again, answers with the completed ride, and otherwise answers with
  nothing and leaves the state alone.\<close>

theorem CompleteRide_refines_board:
  assumes wf: "dispatch_wf (pg_cluster st)" and ok: "pg_fault env = NoFault"
  shows "case board_complete rid (show_board (pg_cluster st)) of
      None \<Rightarrow> CompleteRide env rid st = (Inr None, st)
    | Some b \<Rightarrow> \<exists>r st'. CompleteRide env rid st = (Inr (Some r), st') \<and> show_board (pg_cluster st') = b \<and>
        ride_id r = rid \<and> ride_status r = ''completed''"
  by (rule CompleteRide_on_board [OF assms])

theorem CompleteRide_refines_board_witness:
  "\<exists>r st'. CompleteRide (demo_pg 8) 1 (demo_storage 7) = (Inr (Some r), st') \<and>
     ride_id r = 1 \<and> ride_status r = ''completed''"
proof -
  have "ride_phase (show_board (pg_cluster (demo_storage 7))) 1 = Some (Accepted 1)" by code_simp
  then obtain b where "board_complete 1 (show_board (pg_cluster (demo_storage 7))) = Some b"
    by (simp add: board_complete_def)
  with CompleteRide_refines_board [OF demo_storage_wf demo_pg_ok, of 8 1 7] show ?thesis by auto
qed

text \<open>C16: Accepting a ride is atomic, also when the connection fails at any point: either nothing
  changed, or the ride has the driver and is accepted and the driver is busy, no other ride and
  no other driver changed. The state changed whenever a ride is answered and did not when
  nothing is.\<close>

theorem AcceptRide_atomic:
  assumes inv: "db_inv (pg_cluster st)" and run: "AcceptRide env rid did st = (res, st')"
  shows "(st' = st \<and> (\<forall>r. res \<noteq> Inr (Some r))) \<or>
    (res \<noteq> Inr None \<and> tokens st' = tokens st \<and> users (pg_cluster st') = users (pg_cluster st) \<and>
     (\<exists>r d. ride_of (pg_cluster st) rid = Some r \<and> driver_of (pg_cluster st) did = Some d \<and>
        ride_of (pg_cluster st') =
          (ride_of (pg_cluster st))(rid \<mapsto> r\<lparr>rr_driver_id := Some did, rr_status := ''accepted''\<rparr>) \<and>
        driver_of (pg_cluster st') = (driver_of (pg_cluster st))(did \<mapsto> d\<lparr>dr_status := ''busy''\<rparr>)))"
  using run
proof (cases rule: AcceptRide_cases)
  case Unchanged
  then show ?thesis by blast
next
  case (Committed row rows)
  then have ret: "fst (kAcceptRide rid did (pg_cluster st)) \<noteq> []" by simp
  then obtain r d where rd: "ride_of (pg_cluster st) rid = Some r" "driver_of (pg_cluster st) did = Some d"
    by (auto simp: kAcceptRide_rows [OF inv] split: option.splits)
  have "ride_of (pg_cluster st') =
      (ride_of (pg_cluster st))(rid \<mapsto> r\<lparr>rr_driver_id := Some did, rr_status := ''accepted''\<rparr>)"
    "driver_of (pg_cluster st') = (driver_of (pg_cluster st))(did \<mapsto> d\<lparr>dr_status := ''busy''\<rparr>)"
    using rd by (auto simp: Committed(2) kAcceptRide_lookup [OF inv ret] fun_eq_iff)
  with rd Committed(2,3) show ?thesis
    by (auto simp: kAcceptRide_def Let_def)
qed

theorem AcceptRide_atomic_witness:
  "\<exists>st'. AcceptRide (env_pg (demo_env 6 FaultAfter)) 1 1 (demo_storage 4) = (Inl PgConnectionFailure, st') \<and>
     (st' = demo_storage 4 \<or> users (pg_cluster st') = users (pg_cluster (demo_storage 4)))"
proof -
  let ?run = "AcceptRide (env_pg (demo_env 6 FaultAfter)) 1 1 (demo_storage 4)"
  have res: "case fst ?run of Inl e \<Rightarrow> e = PgConnectionFailure | Inr x \<Rightarrow> False" by code_simp
  obtain r st' where run: "?run = (r, st')" by fastforce
  with AcceptRide_atomic [OF demo_storage_inv run] res show ?thesis
    by (auto split: sum.splits)
qed

section \<open>Users and tokens\<close>

lemma login_row:
  assumes "first_row ParseUser (kSelectUserByLogin login db) = Some u"
  obtains r where "r \<in> set (users db)" "ur_login r = login" "u = ParseUser (select_user r)"
proof -
  from assms have "u \<in> ParseUser ` set (kSelectUserByLogin login db)"
    by (auto simp: first_row_def split: list.splits)
  with that show thesis by (auto simp: kSelectUserByLogin_def)
qed

text \<open>C22: A login succeeds only with the login and the password of a user: then the token is made
  for that user and mapped to him. Nothing else in the storage changes.\<close>

theorem Login_sound:
  assumes "Login env login password st = (Inr (Some t), st')"
  shows "\<exists>r\<in>set (users (pg_cluster st)). ur_login r = login \<and> ur_password r = password \<and>
    t = MakeToken (ur_id r) (next_token_id st) \<and>
    st' = st\<lparr>next_token_id := next_token_id st + 1, tokens := (tokens st)(t \<mapsto> ur_id r)\<rparr>"
  using assms
proof (cases rule: Login_cases)
  case (Issued u)
  then have "first_row ParseUser (kSelectUserByLogin login (pg_cluster st)) = Some u"
    by (simp add: read_results split: if_splits)
  then obtain r where r: "r \<in> set (users (pg_cluster st))" "ur_login r = login" "u = ParseUser (select_user r)"
    by (rule login_row)
  with Issued show ?thesis
    by (intro bexI [of _ r]) (auto simp: ParseUser_def select_user_def)
next
  case Rejected
  from Rejected(2) [of t] show ?thesis by simp
qed

theorem Login_sound_witness:
  "\<exists>st' r. Login (demo_pg 2) ''ann'' ''pw'' (demo_storage 1) = (Inr (Some ann_token), st') \<and>
     r \<in> set (users (pg_cluster (demo_storage 1))) \<and> ur_login r = ''ann'' \<and> ur_password r = ''pw''"
proof -
  let ?run = "Login (demo_pg 2) ''ann'' ''pw'' (demo_storage 1)"
  have "case fst ?run of Inr (Some t) \<Rightarrow> t = ann_token | _ \<Rightarrow> False" by code_simp
  then obtain st' where run: "?run = (Inr (Some ann_token), st')"
    by (cases ?run) (auto split: sum.splits option.splits)
  from Login_sound [OF run] run show ?thesis by blast
qed

text \<open>Tokens of different users or with different numbers differ.\<close>

theorem MakeToken_injective: "MakeToken u n = MakeToken u' n' \<longleftrightarrow> u = u' \<and> n = n'"
  by (rule MakeToken_inject)

text \<open>C32: A user that was created can be found by his login, and it is he that is found.\<close>

theorem created_user_found:
  assumes "db_inv (pg_cluster st)" and "CreateUser env login password full_name st = (Inr (Some u), st')"
    and "pg_fault env' = NoFault"
  shows "GetUserByLogin env' (user_login u) st' = Inr (Some u) \<and>
    (char_length login \<le> 100 \<longrightarrow> user_login u = login) \<and>
    GetUserById env' (user_id u) st' = Inr (Some u)"
  using assms(2)
proof (cases rule: CreateUser_cases)
  case (Ok row)
  from CreateUser_inv [OF assms(1,2)] Ok(1)
  have new: "ur_login row \<notin> ur_login ` set (users (pg_cluster st))" "ur_id row \<notin> ur_id ` set (users (pg_cluster st))"
    by (auto simp: db_inv_defs)
  from Ok have u: "u = ParseUser (select_user row)" by auto
  have flt: "filter (\<lambda>r. ur_login r = ur_login row) (users (pg_cluster st')) = [row]"
    "filter (\<lambda>r. ur_id r = ur_id row) (users (pg_cluster st')) = [row]"
    using new by (auto simp: Ok(1) filter_empty_conv image_iff)
  from Ok(4) have "char_length login \<le> 100 \<longrightarrow> ur_login row = login"
    by (auto simp: users_columns_def varchar_short split: sum.splits)
  with flt show ?thesis
    by (simp add: read_results assms(3) kSelectUserByLogin_def kSelectUserById_def first_row_def u
        ParseUser_def select_user_def)
next
  case None
  from None(2) [of u] show ?thesis by simp
qed

theorem created_user_found_witness:
  "\<exists>u st'. CreateUser (demo_pg 1) ''bob'' ''pw'' ''Bob Ray'' (demo_storage 1) = (Inr (Some u), st') \<and>
     GetUserByLogin (demo_pg 2) (user_login u) st' = Inr (Some u)"
proof -
  let ?run = "CreateUser (demo_pg 1) ''bob'' ''pw'' ''Bob Ray'' (demo_storage 1)"
  have "case fst ?run of Inr (Some u) \<Rightarrow> True | _ \<Rightarrow> False" by code_simp
  then obtain u st' where run: "?run = (Inr (Some u), st')"
    by (cases ?run) (auto split: sum.splits option.splits)
  from created_user_found [OF demo_storage_inv run demo_pg_ok] run show ?thesis by blast
qed

text \<open>A login that is taken is answered with nothing and the tables stay as they are; only
  the identity sequence moves on.\<close>

theorem taken_login_refused:
  assumes "\<exists>r\<in>set (users (pg_cluster st)). ur_login r = login"
    and "char_length login \<le> 100" "char_length password \<le> 255" "char_length full_name \<le> 255"
    and "not_blank login" "not_blank password" "not_blank full_name"
    and "users_id_seq (pg_cluster st) \<le> INT_MAX" and "pg_fault env = NoFault"
  shows "CreateUser env login password full_name st =
    (Inr None, st\<lparr>pg_cluster := (pg_cluster st)\<lparr>users_id_seq := users_id_seq (pg_cluster st) + 1\<rparr>\<rparr>)"
proof -
  have "kInsertUser (pg_now env) login password full_name (pg_cluster st) =
      (Inl PgUniqueViolation, (pg_cluster st)\<lparr>users_id_seq := users_id_seq (pg_cluster st) + 1\<rparr>)"
    using assms by (auto simp: kInsertUser_def users_columns_def varchar_short users_check_def Let_def)
  then show ?thesis by (simp add: CreateUser_def Execute_def assms(9))
qed

theorem taken_login_refused_witness:
  "fst (CreateUser (demo_pg 1) ''ann'' ''other'' ''Ann Two'' (demo_storage 1)) = Inr None"
proof -
  have "list_ex (\<lambda>r. ur_login r = ''ann'') (users (pg_cluster (demo_storage 1)))" by code_simp
  then have taken: "\<exists>r\<in>set (users (pg_cluster (demo_storage 1))). ur_login r = ''ann''"
    by (simp add: list_ex_iff)
  have "users_id_seq (pg_cluster (demo_storage 1)) \<le> INT_MAX" by code_simp
  then show ?thesis
    by (subst taken_login_refused [OF taken])
      (simp_all add: demo_pg_ok char_length_def not_blank_def btrim_eq_Nil is_continuation_def)
qed

text \<open>A field of spaces only passes the checks for emptiness of the handlers and violates a
  \<open>CHECK\<close> of the schema; \<open>CreateUser\<close> does not catch that error, so it leaves the handler as an
  exception.\<close>

theorem blank_login_raises:
  assumes "list_all (\<lambda>c. c = CHR '' '') login" and "char_length login \<le> 100"
    and "char_length password \<le> 255" "char_length full_name \<le> 255"
    and "users_id_seq (pg_cluster st) \<le> INT_MAX" and "pg_fault env = NoFault"
  shows "fst (CreateUser env login password full_name st) = Inl PgCheckViolation"
proof -
  have "\<not> not_blank login" using assms(1) by (simp add: not_blank_def btrim_eq_Nil)
  then have "kInsertUser (pg_now env) login password full_name (pg_cluster st) =
      (Inl PgCheckViolation, (pg_cluster st)\<lparr>users_id_seq := users_id_seq (pg_cluster st) + 1\<rparr>)"
    using assms by (auto simp: kInsertUser_def users_columns_def varchar_short users_check_def Let_def)
  then show ?thesis by (simp add: CreateUser_def Execute_def assms(6))
qed

theorem blank_login_raises_witness:
  "fst (CreateUser (demo_pg 1) ''  '' ''pw'' ''Ann'' (demo_storage 1)) = Inl PgCheckViolation"
proof -
  have "users_id_seq (pg_cluster (demo_storage 1)) \<le> INT_MAX" by code_simp
  then show ?thesis
    by (intro blank_login_raises) (simp_all add: demo_pg_ok char_length_def is_continuation_def)
qed

section \<open>Lists\<close>

lemma sorted_key_distinct:
  fixes f :: "'a \<Rightarrow> 'k::linorder"
  assumes "distinct (map f xs)"
  shows "sorted_wrt (\<lambda>x y. f x < f y) (sort_key f xs)"
proof -
  have d: "distinct (map f (sort_key f xs))"
    using assms by (simp add: distinct_map)
  have "sorted (map f (sort_key f xs))" by simp
  with d have "sorted_wrt (<) (map f (sort_key f xs))"
    by (simp add: strict_sorted_iff)
  then show ?thesis by (simp add: sorted_wrt_map)
qed

lemma distinct_map_sub: "distinct (map f xs) \<Longrightarrow> distinct (map f (filter P xs))"
  by (simp add: distinct_map_filter)

text \<open>C31: A search by a mask without wildcards finds exactly the users whose full name contains it
  without regard to case, each once and in the order of their ids.\<close>

theorem search_finds_substrings:
  assumes "db_inv (pg_cluster st)" and "pg_fault env = NoFault" and "plain_pattern (pg_lower env name_mask)"
  shows "\<exists>rows. FindUsersByNameMask env name_mask st = Inr (map (ParseUser \<circ> select_user) rows) \<and>
    set rows = {r \<in> set (users (pg_cluster st)). sublist (pg_lower env name_mask) (pg_lower env (ur_full_name r))} \<and>
    sorted_wrt (\<lambda>r r'. ur_id r < ur_id r') rows"
proof -
  let ?rows = "sort_key ur_id (filter (\<lambda>r. like (''%'' @ pg_lower env name_mask @ ''%'') (pg_lower env (ur_full_name r)))
    (users (pg_cluster st)))"
  have "FindUsersByNameMask env name_mask st = Inr (map (ParseUser \<circ> select_user) ?rows)"
    using assms(2) by (simp add: read_results kFindUsersByMask_def)
  moreover have "set ?rows =
      {r \<in> set (users (pg_cluster st)). sublist (pg_lower env name_mask) (pg_lower env (ur_full_name r))}"
    by (simp only: like_contains [OF assms(3)] set_sort set_filter)
  moreover have "sorted_wrt (\<lambda>r r'. ur_id r < ur_id r') ?rows"
    by (intro sorted_key_distinct distinct_map_sub) (use assms(1) in \<open>simp add: db_inv_defs\<close>)
  ultimately show ?thesis by blast
qed

theorem search_finds_substrings_witness:
  "\<exists>rows. FindUsersByNameMask (demo_pg 2) ''Lee'' (demo_storage 1) = Inr (map (ParseUser \<circ> select_user) rows) \<and>
     set rows = {r \<in> set (users (pg_cluster (demo_storage 1))).
       sublist (pg_lower (demo_pg 2) ''Lee'') (pg_lower (demo_pg 2) (ur_full_name r))} \<and>
     sorted_wrt (\<lambda>r r'. ur_id r < ur_id r') rows"
  by (rule search_finds_substrings [OF demo_storage_inv demo_pg_ok])
    (simp add: plain_pattern_def demo_pg_def demo_env_def)

text \<open>C29: The history of a passenger holds exactly his rides, each once, the newest first and among
  rides of the same time the one with the larger id first.\<close>

theorem history_newest_first:
  assumes "db_inv (pg_cluster st)" and "pg_fault env = NoFault"
  shows "\<exists>rows. GetRidesByUserId env uid st = Inr (map (ParseRide \<circ> select_ride) rows) \<and>
    set rows = {r \<in> set (rides (pg_cluster st)). rr_passenger_id r = uid} \<and>
    sorted_wrt (\<lambda>r r'. rr_created_at r' < rr_created_at r \<or>
      rr_created_at r' = rr_created_at r \<and> rr_id r' < rr_id r) rows"
proof -
  let ?key = "\<lambda>r. (- rr_created_at r, - rr_id r)"
  let ?rows = "sort_key ?key (filter (\<lambda>r. rr_passenger_id r = uid) (rides (pg_cluster st)))"
  have "inj_on ?key (set (filter (\<lambda>r. rr_passenger_id r = uid) (rides (pg_cluster st))))"
    using assms(1) by (auto simp: db_inv_defs distinct_map inj_on_def)
  moreover have "distinct (filter (\<lambda>r. rr_passenger_id r = uid) (rides (pg_cluster st)))"
    using assms(1) by (simp add: db_inv_defs distinct_map)
  ultimately have "sorted_wrt (\<lambda>r r'. ?key r < ?key r') ?rows"
    by (intro sorted_key_distinct) (simp add: distinct_map)
  then have "sorted_wrt (\<lambda>r r'. rr_created_at r' < rr_created_at r \<or>
      rr_created_at r' = rr_created_at r \<and> rr_id r' < rr_id r) ?rows"
    by (rule sorted_wrt_mono_rel [rotated]) auto
  moreover have "GetRidesByUserId env uid st = Inr (map (ParseRide \<circ> select_ride) ?rows)"
    using assms(2) by (simp add: read_results kSelectRidesByUserId_def)
  ultimately show ?thesis by (intro exI [of _ ?rows]) auto
qed

theorem history_newest_first_witness:
  "\<exists>rows. GetRidesByUserId (demo_pg 9) 1 (demo_storage 9) = Inr (map (ParseRide \<circ> select_ride) rows) \<and>
     set rows = {r \<in> set (rides (pg_cluster (demo_storage 9))). rr_passenger_id r = 1} \<and>
     sorted_wrt (\<lambda>r r'. rr_created_at r' < rr_created_at r \<or>
       rr_created_at r' = rr_created_at r \<and> rr_id r' < rr_id r) rows"
  by (rule history_newest_first [OF demo_storage_inv demo_pg_ok])

text \<open>C30: The list of active rides holds exactly the rides that are searching or accepted, each once
  and in the order of their ids, with driver 0 exactly for those still searching.\<close>

theorem active_rides_complete:
  assumes "dispatch_wf (pg_cluster st)" and "pg_fault env = NoFault"
  shows "\<exists>rows. GetActiveRides env st = Inr (map (ParseRide \<circ> select_ride) rows) \<and>
    set rows = {r \<in> set (rides (pg_cluster st)). rr_status r = ''searching'' \<or> rr_status r = ''accepted''} \<and>
    sorted_wrt (\<lambda>r r'. rr_id r < rr_id r') rows \<and>
    list_all (\<lambda>r. ride_driver_id ((ParseRide \<circ> select_ride) r) = 0 \<longleftrightarrow> rr_status r = ''searching'') rows"
proof -
  let ?rows = "sort_key rr_id (filter (\<lambda>r. rr_status r \<in> {''searching'', ''accepted''}) (rides (pg_cluster st)))"
  have "sorted_wrt (\<lambda>r r'. rr_id r < rr_id r') ?rows"
    by (intro sorted_key_distinct distinct_map_sub) (use assms(1) in \<open>simp add: dispatch_wf_def db_inv_defs\<close>)
  moreover have "GetActiveRides env st = Inr (map (ParseRide \<circ> select_ride) ?rows)"
    using assms(2) by (simp add: read_results kSelectActiveRides_def)
  moreover have "ride_driver_id (ParseRide (select_ride r)) = 0 \<longleftrightarrow> rr_status r = ''searching''"
    if r: "r \<in> set (rides (pg_cluster st))" for r
  proof -
    have "rr_driver_id r \<noteq> Some 0" "rr_driver_id r = None \<longleftrightarrow> rr_status r = ''searching''"
      using assms(1) r by (fastforce simp: dispatch_wf_def db_inv_defs rides_shape_def ride_shape_def)+
    then show ?thesis by (auto simp: ParseRide_def select_ride_def coalesce_def split: option.split)
  qed
  ultimately show ?thesis by (intro exI [of _ ?rows]) (auto simp: list_all_iff)
qed

theorem active_rides_complete_witness:
  "\<exists>rows. GetActiveRides (demo_pg 5) (demo_storage 4) = Inr (map (ParseRide \<circ> select_ride) rows) \<and>
     set rows = {r \<in> set (rides (pg_cluster (demo_storage 4))).
       rr_status r = ''searching'' \<or> rr_status r = ''accepted''}"
  using active_rides_complete [OF demo_storage_wf demo_pg_ok, of 5 4] by blast

end
