(* ===== verification/Progress.thy ===== *)
theory Progress
  imports StorageProperties
begin

text \<open>
  What the service achieves when it is asked to: which statuses its answers can have, as
  \<open>openapi.yaml\<close> documents them, and that a ride that is searching can be served to its end.
\<close>

section \<open>Statuses\<close>

text \<open>The responses of each operation in \<open>openapi.yaml\<close>.\<close>

fun documented_statuses :: "endpoint \<Rightarrow> nat list" where
  "documented_statuses EP_UsersCreate = [201, 400, 409]"
| "documented_statuses EP_UsersGet = [200, 400, 404]"
| "documented_statuses EP_AuthLogin = [200, 400, 401]"
| "documented_statuses EP_DriversCreate = [201, 400, 401, 409]"
| "documented_statuses EP_RidesCreate = [201, 400, 401, 409]"
| "documented_statuses EP_RidesGet = [200, 400, 401, 429]"
| "documented_statuses EP_RidesAccept = [200, 400, 401, 409]"
| "documented_statuses EP_RidesComplete = [200, 400, 401, 409]"
| "documented_statuses EP_MongoUsersCreate = [201, 400, 409]"
| "documented_statuses EP_MongoUsersGet = [200, 400, 404]"

lemma writers_status:
  "UsersCreate_HandleRequestThrow lib env req empty_response sv = (Inr body, resp, sv') \<Longrightarrow>
     resp_status resp \<in> {201, 400, 409}"
  "DriversCreate_HandleRequestThrow lib env req empty_response sv = (Inr body, resp, sv') \<Longrightarrow>
     resp_status resp \<in> {201, 400, 409}"
  "RidesCreate_HandleRequestThrow lib env req empty_response sv = (Inr body, resp, sv') \<Longrightarrow>
     resp_status resp \<in> {201, 400, 409}"
  "RidesAccept_HandleRequestThrow lib env req empty_response sv = (Inr body, resp, sv') \<Longrightarrow>
     resp_status resp \<in> {200, 400, 409}"
  "RidesComplete_HandleRequestThrow lib env req empty_response sv = (Inr body, resp, sv') \<Longrightarrow>
     resp_status resp \<in> {200, 400, 409}"
  "AuthLogin_HandleRequestThrow lib env req empty_response sv = (Inr body, resp, sv') \<Longrightarrow>
     resp_status resp \<in> {200, 400, 401}"
  by (auto simp: UsersCreate_HandleRequestThrow_def DriversCreate_HandleRequestThrow_def
      RidesCreate_HandleRequestThrow_def RidesAccept_HandleRequestThrow_def
      RidesComplete_HandleRequestThrow_def AuthLogin_HandleRequestThrow_def Let_def
      response_defs empty_response_def split: handler_splits)

lemma users_get_status:
  "UsersGet_HandleRequestThrow lib env req empty_response sv = (Inr body, resp, sv') \<Longrightarrow>
     resp_status resp \<in> {200, 400, 404}"
  by (auto simp: UsersGet_HandleRequestThrow_def Let_def response_defs empty_response_def split: handler_splits)

lemma rides_get_cached_status:
  "RidesGet_cached lib env h a resp0 sv = (Inr body, resp, sv') \<Longrightarrow> resp_status resp = resp_status resp0"
  by (auto simp: RidesGet_cached_def Let_def response_defs split: handler_splits)

lemma rides_get_status:
  "RidesGet_HandleRequestThrow lib env req empty_response sv = (Inr body, resp, sv') \<Longrightarrow>
     resp_status resp \<in> {200, 400, 429}"
  by (auto simp: RidesGet_HandleRequestThrow_def SetRateLimitHeaders_def Let_def response_defs empty_response_def
      split: handler_splits dest!: rides_get_cached_status)

text \<open>The \<open>try\<close> blocks of the handlers over MongoDB: no response after an exception.\<close>

definition status_in :: "nat set \<Rightarrow> (string \<times> response) option \<Rightarrow> bool" where
  "status_in S out \<longleftrightarrow> (case out of None \<Rightarrow> True | Some (body, resp) \<Rightarrow> resp_status resp \<in> S)"

lemma status_in_simps [simp]:
  "status_in S None" "status_in S (Some (body, resp)) \<longleftrightarrow> resp_status resp \<in> S"
  by (simp_all add: status_in_def)

lemma mongo_insert_status:
  "status_in {201, 400, 409}
     (fst (mongo_insert lib ml now login password first_name last_name status email phone resp m))"
  by (simp add: mongo_insert_def response_defs split: option.split sum.split prod.split)

lemma status_in_branches:
  "status_in S (fst n) \<Longrightarrow> (\<And>x. status_in S (fst (g x))) \<Longrightarrow>
     status_in S (fst (case z of None \<Rightarrow> n | Some x \<Rightarrow> g x))"
  "status_in S (fst x) \<Longrightarrow> status_in S (fst y) \<Longrightarrow> status_in S (fst (if c then x else y))"
  "status_in S (fst x) \<Longrightarrow> status_in S (fst y) \<Longrightarrow> status_in S (fst (case b of True \<Rightarrow> x | False \<Rightarrow> y))"
  by (simp_all split: option.split bool.split)

lemma mongo_create_body_status: "status_in {201, 400, 409} (fst (mongo_create_body lib ml now json resp m))"
  unfolding mongo_create_body_def prod.case
  by (intro status_in_branches mongo_insert_status) (simp_all add: response_defs)

lemma mongo_create_status:
  "MongoUsersCreate_HandleRequestThrow lib ml env req resp m = (body, resp', m') \<Longrightarrow>
     resp_status resp' \<in> {201, 400, 409, 500}"
proof -
  assume run: "MongoUsersCreate_HandleRequestThrow lib ml env req resp m = (body, resp', m')"
  show ?thesis
  proof (cases "FromString lib (RequestBody req)")
    case None
    with run show ?thesis
      by (auto simp: MongoUsersCreate_HandleRequestThrow_def Let_def response_defs)
  next
    case (Some json)
    with run mongo_create_body_status [of lib ml "system_now env" json "SetContentType ''application/json'' resp" m]
    show ?thesis
      by (auto simp: MongoUsersCreate_HandleRequestThrow_def Let_def response_defs split: option.splits prod.splits)
  qed
qed

lemma mongo_get_body_status: "status_in {200, 404} (mongo_get_body lib ml login name_mask resp m)"
  by (simp add: mongo_get_body_def response_defs split: option.split sum.split)

lemma mongo_get_status:
  "MongoUsersGet_HandleRequestThrow lib ml req resp m = (body, resp') \<Longrightarrow>
     resp_status resp' \<in> {200, 400, 404, 500}"
  using mongo_get_body_status [of lib ml "GetArg req ''login''" "GetArg req ''name_mask''"
      "SetContentType ''application/json'' resp" m]
  by (auto simp: MongoUsersGet_HandleRequestThrow_def Let_def response_defs split: option.splits if_splits)

lemma dispatch_status:
  fixes pf :: "('j, 'm, 'd) platform"
  assumes "pf_route pf req = Some ep" and "dispatch pf env req empty_response s = (Inr resp, s')"
  shows "resp_status resp \<in> set (documented_statuses ep) \<or>
    sql_handler ep = (None :: 'j handler option) \<and> resp_status resp = 500"
proof (cases "sql_handler ep :: 'j handler option")
  case None
  then have "ep = EP_MongoUsersCreate \<or> ep = EP_MongoUsersGet" by (cases ep) simp_all
  with assms show ?thesis
    by (auto simp: dispatch_def Let_def SetData_def split: prod.splits
        dest!: mongo_create_status mongo_get_status)
next
  case (Some h)
  obtain r resp1 sv where run: "h (pf_json pf) env req empty_response (svc s) = (r, resp1, sv)"
    by (metis prod.collapse)
  with Some assms obtain body where "r = Inr body" "resp = SetData body resp1"
    by (auto simp: dispatch_def run_sql_def finish_def split: sum.splits)
  with Some run show ?thesis
    by (cases ep)
      (auto simp: SetData_def dest!: writers_status users_get_status rides_get_status)
qed

section \<open>Serving a ride\<close>

lemma RidesAccept_served:
  assumes "accept_args lib req = Some (i, d)" and "AcceptRide (env_pg env) i d (storage sv) = (Inr (Some r), st)"
  shows "RidesAccept_HandleRequestThrow lib env req resp sv =
    (Inr (ride_body lib r), SetContentType ''application/json'' resp,
     sv\<lparr>storage := st, cache := InvalidatePrefix ''rides:'' (cache sv)\<rparr>)"
  using assms
  by (auto simp: RidesAccept_HandleRequestThrow_def accept_args_def path_ride_id_def Let_def
      split: option.splits sum.splits if_splits)

lemma RidesComplete_served:
  assumes "path_ride_id req = Some i" and "CompleteRide (env_pg env) i (storage sv) = (Inr (Some r), st)"
  shows "RidesComplete_HandleRequestThrow lib env req resp sv =
    (Inr (ride_body lib r), SetContentType ''application/json'' resp,
     sv\<lparr>storage := st, cache := InvalidatePrefix ''rides:'' (cache sv)\<rparr>)"
  using assms
  by (auto simp: RidesComplete_HandleRequestThrow_def path_ride_id_def Let_def
      split: option.splits sum.splits if_splits)

lemma accept_served:
  assumes wf: "server_wf s" and ride: "ride_phase (server_board s) i = Some Searching"
    and driver: "driver_avail (server_board s) d = Some Online"
    and req: "pf_route pf req = Some EP_RidesAccept" "accept_args (pf_json pf) req = Some (i, d)"
      "authorized (server_storage s) req" "pg_fault (env_pg env) = NoFault"
  obtains resp s' where "handle pf env req s = (Inr resp, s')" "resp_status resp = 200"
    "ride_phase (server_board s') i = Some (Accepted d)" "driver_avail (server_board s') d = Some Busy"
    "tokens (server_storage s') = tokens (server_storage s)" "server_wf s'"
proof -
  from wf have inv: "db_inv (pg_cluster (storage (svc s)))"
    by (simp add: server_wf_def dispatch_wf_def server_db_def)
  obtain b where b: "board_accept i d (server_board s) = Some b" "ride_phase b i = Some (Accepted d)"
    "driver_avail b d = Some Busy"
    using ride driver by (simp add: board_accept_def)
  from AcceptRide_on_board [OF inv req(4), of i d] b(1) obtain r st where
    run: "AcceptRide (env_pg env) i d (storage (svc s)) = (Inr (Some r), st)" "show_board (pg_cluster st) = b"
    by (auto simp: server_board_def server_db_def)
  let ?s = "s\<lparr>svc := (svc s)\<lparr>storage := st, cache := InvalidatePrefix ''rides:'' (cache (svc s))\<rparr>\<rparr>"
  have "handle pf env req s =
      (Inr (SetData (ride_body (pf_json pf) r) (SetContentType ''application/json'' empty_response)), ?s)"
    using RidesAccept_served [OF req(2) run(1)] req(1,3)
    by (simp add: handle_def AuthMiddleware_pass dispatch_def run_sql_def finish_def)
  moreover have "server_wf ?s"
    using AcceptRide_board [OF _ run(1)] wf by (simp add: server_wf_def server_db_def)
  ultimately show thesis
    using b run that AcceptRide_tokens [OF run(1)]
    by (simp add: server_board_def server_db_def server_storage_def response_defs empty_response_def)
qed

lemma complete_served:
  assumes wf: "server_wf s" and ride: "ride_phase (server_board s) i = Some (Accepted d)"
    and req: "pf_route pf req = Some EP_RidesComplete" "path_ride_id req = Some i"
      "authorized (server_storage s) req" "pg_fault (env_pg env) = NoFault"
  obtains resp s' where "handle pf env req s = (Inr resp, s')" "resp_status resp = 200"
    "ride_phase (server_board s') i = Some (Completed d)" "driver_avail (server_board s') d = Some Online"
proof -
  obtain b where b: "board_complete i (server_board s) = Some b" "ride_phase b i = Some (Completed d)"
    "driver_avail b d = Some Online"
    using ride by (simp add: board_complete_def)
  have "dispatch_wf (pg_cluster (storage (svc s)))" using wf by (simp add: server_wf_def server_db_def)
  from CompleteRide_on_board [OF this req(4), of i] b(1) obtain r st where
    run: "CompleteRide (env_pg env) i (storage (svc s)) = (Inr (Some r), st)" "show_board (pg_cluster st) = b"
    by (auto simp: server_board_def server_db_def)
  let ?s = "s\<lparr>svc := (svc s)\<lparr>storage := st, cache := InvalidatePrefix ''rides:'' (cache (svc s))\<rparr>\<rparr>"
  have "handle pf env req s =
      (Inr (SetData (ride_body (pf_json pf) r) (SetContentType ''application/json'' empty_response)), ?s)"
    using RidesComplete_served [OF req(2) run(1), where lib = "pf_json pf"] req(1,3)
    by (simp add: handle_def AuthMiddleware_pass dispatch_def run_sql_def finish_def)
  then show thesis
    using b run that
    by (simp add: server_board_def server_db_def response_defs empty_response_def)
qed

section \<open>Properties\<close>



text \<open>C9: A ride can be served to its end: when it is searching and a driver is online, and the
  database connection works, the request to accept it with this driver and then the request to
  complete it are both answered with 200, and afterwards the ride is completed by the driver and he is
  online again.\<close>

theorem ride_can_be_served:
  assumes "dispatch_wf (server_db s)" and "ride_phase (show_board (server_db s)) i = Some Searching"
    and "driver_avail (show_board (server_db s)) d = Some Online"
    and "pf_route pf req1 = Some EP_RidesAccept" and "accept_args (pf_json pf) req1 = Some (i, d)"
    and "authorized (server_storage s) req1" and "pg_fault (env_pg env1) = NoFault"
    and "pf_route pf req2 = Some EP_RidesComplete" and "path_ride_id req2 = Some i"
    and "authorized (server_storage s) req2" and "pg_fault (env_pg env2) = NoFault"
  shows "\<exists>resp1 s1 resp2 s2.
    handle pf env1 req1 s = (Inr resp1, s1) \<and> resp_status resp1 = 200 \<and>
    ride_phase (show_board (server_db s1)) i = Some (Accepted d) \<and>
    driver_avail (show_board (server_db s1)) d = Some Busy \<and>
    handle pf env2 req2 s1 = (Inr resp2, s2) \<and> resp_status resp2 = 200 \<and>
    ride_phase (show_board (server_db s2)) i = Some (Completed d) \<and>
    driver_avail (show_board (server_db s2)) d = Some Online"
proof -
  note board = server_board_def [symmetric]
  from accept_served [of s i d pf req1 env1] assms(1-7) obtain resp1 s1 where
    one: "handle pf env1 req1 s = (Inr resp1, s1)" "resp_status resp1 = 200"
      "ride_phase (server_board s1) i = Some (Accepted d)" "driver_avail (server_board s1) d = Some Busy"
    and tok: "tokens (server_storage s1) = tokens (server_storage s)" and wf: "server_wf s1"
    unfolding server_wf_def server_board_def by blast
  from assms(10) tok have "authorized (server_storage s1) req2"
    by (auto simp: authorized_def IsTokenValid_def split: option.splits)
  from complete_served [OF wf one(3) assms(8,9) this assms(11)] obtain resp2 s2 where
    "handle pf env2 req2 s1 = (Inr resp2, s2)" "resp_status resp2 = 200"
    "ride_phase (server_board s2) i = Some (Completed d)" "driver_avail (server_board s2) d = Some Online" .
  with one show ?thesis unfolding board by blast
qed

theorem ride_can_be_served_witness:
  "\<exists>resp1 s1 resp2 s2.
    handle demo (demo_env 6 NoFault) (snd (ride_accepted NoFault)) (server_run demo (take 4 demo_day) demo_start) = (Inr resp1, s1) \<and>
    handle demo (demo_env 8 NoFault) (snd ride_completed) s1 = (Inr resp2, s2) \<and>
    ride_phase (show_board (server_db s2)) 1 = Some (Completed 1)"
proof -
  let ?s = "server_run demo (take 4 demo_day) demo_start"
  have wf: "dispatch_wf (server_db ?s)"
    using demo_storage_wf [of 4] by (simp add: demo_storage_def server_db_storage)
  have state: "ride_phase (show_board (server_db ?s)) 1 = Some Searching"
    "driver_avail (show_board (server_db ?s)) 1 = Some Online"
    by code_simp+
  have req1: "pf_route demo (snd (ride_accepted NoFault)) = Some EP_RidesAccept"
    "accept_args (pf_json demo) (snd (ride_accepted NoFault)) = Some (1, 1)"
    "authorized (server_storage ?s) (snd (ride_accepted NoFault))" "pg_fault (env_pg (demo_env 6 NoFault)) = NoFault"
    by code_simp+
  have req2: "pf_route demo (snd ride_completed) = Some EP_RidesComplete"
    "path_ride_id (snd ride_completed) = Some 1"
    "authorized (server_storage ?s) (snd ride_completed)" "pg_fault (env_pg (demo_env 8 NoFault)) = NoFault"
    by code_simp+
  from ride_can_be_served [OF wf state req1 req2] show ?thesis by blast
qed

end
