(* ===== verification/ServerLinearization.thy ===== *)
theory ServerLinearization
  imports Linearization Interleaving Progress
begin

text \<open>
  Requests that run at the same time take effect one after the other, on the storage and on the limiter.
  Every handler that writes has one action on the storage with its effect; what it does before and after
  changes nothing there, and the answer it gives is that of its operation at that moment. The login is
  the one handler with two actions, a query and the issue of a token: the user it found is still the
  answer of the query when the token is issued, for users are only appended. The same is true of the
  check of the token in front of every handler, for no token is ever withdrawn. The effect of a request
  for the active rides is its call of the limiter, which also decides whether it is refused; the list
  that it answers otherwise may come from the cache and is left open.
\<close>

section \<open>What a storage only gains\<close>

definition storage_grows :: "taxi_storage \<Rightarrow> taxi_storage \<Rightarrow> bool" where
  "storage_grows st st' \<longleftrightarrow>
     (\<forall>t. IsTokenValid st t \<longrightarrow> IsTokenValid st' t) \<and>
     (\<exists>new. users (pg_cluster st') = users (pg_cluster st) @ new)"

lemma storage_grows_refl: "storage_grows st st"
  by (simp add: storage_grows_def)

lemma storage_grows_trans: "storage_grows st st' \<Longrightarrow> storage_grows st' st'' \<Longrightarrow> storage_grows st st''"
  by (auto simp: storage_grows_def)

lemma storage_grows_operations:
  "CreateUser pg l p f st = (ures, st') \<Longrightarrow> storage_grows st st'"
  "CreateDriver pg uid m n c st = (dres, st') \<Longrightarrow> storage_grows st st'"
  "CreateRide pg uid m n st = (rres, st') \<Longrightarrow> storage_grows st st'"
  "AcceptRide pg i j st = (rres, st') \<Longrightarrow> storage_grows st st'"
  "CompleteRide pg i st = (rres, st') \<Longrightarrow> storage_grows st st'"
  "IssueToken u st = (tres, st') \<Longrightarrow> storage_grows st st'"
  unfolding storage_grows_def
  subgoal by (frule CreateUser_tokens, cases rule: CreateUser_cases)
      (auto simp: IsTokenValid_def same_tables_def)
  subgoal by (frule CreateDriver_tokens, cases rule: CreateDriver_cases)
      (auto simp: IsTokenValid_def same_tables_def)
  subgoal by (frule CreateRide_tokens, cases rule: CreateRide_cases)
      (auto simp: IsTokenValid_def same_tables_def)
  subgoal by (frule AcceptRide_tokens, cases rule: AcceptRide_cases)
      (auto simp: IsTokenValid_def users_transaction)
  subgoal by (frule CompleteRide_tokens, cases rule: CompleteRide_cases)
      (auto simp: IsTokenValid_def users_transaction)
  subgoal by (simp add: IssueToken_pg_cluster IssueToken_keeps_tokens)
  done

interpretation growth_sched: service_invariant "storage_grows st0" "\<lambda>_. True" "\<lambda>_. True" for st0
  by unfold_locales (blast intro: storage_grows_trans storage_grows_operations | simp)+

text \<open>A user that was found by login is found by every later query.\<close>

lemma found_user_stays:
  assumes "GetUserByLogin pg l st = Inr (Some u)" and "storage_grows st st'"
  shows "GetUserByLogin pg l st' = Inr (Some u)"
  using assms
  by (auto simp: read_results storage_grows_def kSelectUserByLogin_def first_row_def
      split: if_splits list.splits)

section \<open>What the requests share\<close>

text \<open>What is observed: the storage and the limiter.\<close>

definition shared :: "service \<Rightarrow> taxi_storage \<times> rate_limiter" where
  "shared sv = (storage sv, limiter sv)"

definition server_shared :: "'m server \<Rightarrow> taxi_storage \<times> rate_limiter" where
  "server_shared s = shared (svc s)"

lemma shared_simps [simp]:
  "shared (sv\<lparr>cache := c\<rparr>) = shared sv" "shared (sv\<lparr>limiter := rl\<rparr>) = (storage sv, rl)"
  "fst (shared sv) = storage sv" "snd (shared sv) = limiter sv"
  by (simp_all add: shared_def)

lemma fst_server_shared [simp]: "fst (server_shared s) = server_storage s"
  by (simp add: server_shared_def server_storage_def)

text \<open>A service with these parts and a cache as it is constructed.\<close>

definition bare :: "taxi_storage \<times> rate_limiter \<Rightarrow> service" where
  "bare sh = \<lparr>storage = fst sh, cache = ResponseCache_init, limiter = snd sh\<rparr>"

lemma bare_simps [simp]:
  "storage (bare sh) = fst sh" "limiter (bare sh) = snd sh" "shared (bare sh) = sh"
  by (simp_all add: bare_def shared_def)

definition grows :: "taxi_storage \<times> rate_limiter \<Rightarrow> taxi_storage \<times> rate_limiter \<Rightarrow> bool" where
  "grows sh sh' \<longleftrightarrow> storage_grows (fst sh) (fst sh')"

lemma grows_refl: "grows sh sh"
  by (simp add: grows_def storage_grows_refl)

lemma grows_trans: "grows sh sh' \<Longrightarrow> grows sh' sh'' \<Longrightarrow> grows sh sh''"
  unfolding grows_def by (rule storage_grows_trans)

section \<open>Which answers are fixed\<close>

text \<open>The endpoints whose handlers change the storage.\<close>

fun writes_storage :: "endpoint \<Rightarrow> bool" where
  "writes_storage EP_UsersGet = False"
| "writes_storage EP_RidesGet = False"
| "writes_storage EP_MongoUsersCreate = False"
| "writes_storage EP_MongoUsersGet = False"
| "writes_storage _ = True"

definition is_write :: "('j, 'm, 'd) platform \<Rightarrow> request \<Rightarrow> bool" where
  "is_write pf req \<longleftrightarrow> (case pf_route pf req of None \<Rightarrow> False | Some ep \<Rightarrow> writes_storage ep)"

text \<open>An answer that the limiter refused, and two answers that agree in this.\<close>

definition limited :: "response result \<Rightarrow> bool" where
  "limited r \<longleftrightarrow> (case r of Inl e \<Rightarrow> False | Inr resp \<Rightarrow> resp_status resp = 429)"

definition same_limit :: "response result \<Rightarrow> response result \<Rightarrow> bool" where
  "same_limit r r' \<longleftrightarrow> limited r' = limited r \<and> (limited r \<longrightarrow> r' = r)"

text \<open>
  How far the answer of an endpoint depends on the storage and the limiter alone: of the handlers that
  write, completely; of the lists of rides, whether it is a refusal.
\<close>

definition same_for :: "endpoint \<Rightarrow> response result \<Rightarrow> response result \<Rightarrow> bool" where
  "same_for ep r r' \<longleftrightarrow>
     (if writes_storage ep then r' = r else if ep = EP_RidesGet then same_limit r r' else True)"

definition same_answer :: "('j, 'm, 'd) platform \<Rightarrow> request \<Rightarrow> response result \<Rightarrow> response result \<Rightarrow> bool" where
  "same_answer pf req r r' \<longleftrightarrow> (case pf_route pf req of None \<Rightarrow> r' = r | Some ep \<Rightarrow> same_for ep r r')"

lemma same_for_refl: "same_for ep r r"
  by (simp add: same_for_def same_limit_def)

lemma same_for_trans: "same_for ep r r' \<Longrightarrow> same_for ep r' r'' \<Longrightarrow> same_for ep r r''"
  by (auto simp: same_for_def same_limit_def split: if_splits)

lemma same_for_sym: "same_for ep r r' \<Longrightarrow> same_for ep r' r"
  by (auto simp: same_for_def same_limit_def split: if_splits)

lemma limited_finish [simp]: "limited (finish r resp) \<longleftrightarrow> (\<exists>b. r = Inr b) \<and> resp_status resp = 429"
  by (auto simp: limited_def finish_def SetData_def split: sum.split)

section \<open>The effect of a handler\<close>

definition handler_effect :: "endpoint \<Rightarrow> 'j handler \<Rightarrow> 'j json_lib \<Rightarrow> req_env \<Rightarrow> request \<Rightarrow>
    taxi_storage \<times> rate_limiter \<Rightarrow> (string result \<times> response \<Rightarrow> bool) \<times> (taxi_storage \<times> rate_limiter)" where
  "handler_effect ep h lib env req sh =
     (case h lib env req empty_response (bare sh) of
        (r, resp, sv) \<Rightarrow> (\<lambda>(r', resp'). same_for ep (finish r resp) (finish r' resp'), shared sv))"

text \<open>What the cache holds has no influence on what is fixed.\<close>

definition by_shared :: "endpoint \<Rightarrow> 'j handler \<Rightarrow> bool" where
  "by_shared ep h \<longleftrightarrow>
     (\<forall>lib env req sv.
        case h lib env req empty_response sv of (r, resp, sv') \<Rightarrow>
          fst (handler_effect ep h lib env req (shared sv)) (r, resp) \<and>
          snd (handler_effect ep h lib env req (shared sv)) = shared sv')"

lemma writers_by_shared:
  "by_shared EP_UsersCreate UsersCreate_HandleRequestThrow"
  "by_shared EP_AuthLogin AuthLogin_HandleRequestThrow"
  "by_shared EP_DriversCreate DriversCreate_HandleRequestThrow"
  "by_shared EP_RidesCreate RidesCreate_HandleRequestThrow"
  "by_shared EP_RidesAccept RidesAccept_HandleRequestThrow"
  "by_shared EP_RidesComplete RidesComplete_HandleRequestThrow"
  by (simp_all add: by_shared_def handler_effect_def same_for_def shared_def
      UsersCreate_HandleRequestThrow_def AuthLogin_HandleRequestThrow_def DriversCreate_HandleRequestThrow_def
      RidesCreate_HandleRequestThrow_def RidesAccept_HandleRequestThrow_def
      RidesComplete_HandleRequestThrow_def Let_def split: option.split sum.split prod.split)

lemma users_get_by_shared: "by_shared EP_UsersGet UsersGet_HandleRequestThrow"
  unfolding by_shared_def
proof (intro allI)
  fix lib :: "'j json_lib" and env req and sv :: service
  obtain r resp sv' where run: "UsersGet_HandleRequestThrow lib env req empty_response sv = (r, resp, sv')"
    by (metis prod.collapse)
  obtain r2 resp2 sv2 where bare: "UsersGet_HandleRequestThrow lib env req empty_response (bare (shared sv)) =
      (r2, resp2, sv2)"
    by (metis prod.collapse)
  from UsersGet_storage [OF run] UsersGet_storage [OF bare] have "shared sv2 = shared sv'"
    by (simp add: shared_def)
  with run bare show "case UsersGet_HandleRequestThrow lib env req empty_response sv of (r, resp, sv') \<Rightarrow>
      fst (handler_effect EP_UsersGet UsersGet_HandleRequestThrow lib env req (shared sv)) (r, resp) \<and>
      snd (handler_effect EP_UsersGet UsersGet_HandleRequestThrow lib env req (shared sv)) = shared sv'"
    by (simp add: handler_effect_def same_for_def)
qed

section \<open>The lists of rides\<close>

text \<open>The list is answered with the status of the response that the handler has prepared.\<close>

lemma RidesGet_cached_limit:
  assumes "RidesGet_cached lib env h a resp sv = (r, resp', sv')" and "resp_status resp \<noteq> 429"
  shows "\<not> limited (finish r resp') \<and> shared sv' = shared sv"
proof (cases r)
  case (Inr b)
  with assms(1) have "resp_status resp' = resp_status resp" by (auto dest: rides_get_cached_status)
  with assms(2) RidesGet_cached_storage [OF assms(1)] show ?thesis by (simp add: shared_def)
qed (use RidesGet_cached_storage [OF assms(1)] in \<open>simp add: shared_def\<close>)

text \<open>What the handler does before the lookup in the cache: an answer, or the response to go on with.\<close>

definition rides_gate :: "'j json_lib \<Rightarrow> req_env \<Rightarrow> request \<Rightarrow> rate_limiter \<Rightarrow>
    ((string result \<times> response) + response) \<times> rate_limiter" where
  "rides_gate lib env req rl =
     (let resp = SetContentType ''application/json'' empty_response
      in if GetArg req ''user_id'' \<noteq> [] then (Inr resp, rl)
         else if GetArg req ''status'' \<noteq> ''active''
         then (Inl (Inr (error_body lib ''user_id or status=active query parameter is required''),
                    SetStatus 400 resp), rl)
         else (case Check (system_now env) ACTIVE_RIDES_KEY kActiveRidesLimitPerMinute 60 rl of
             (Inl e, rl') \<Rightarrow> (Inl (Inl e, resp), rl')
           | (Inr r, rl') \<Rightarrow>
               (if allowed r then Inr (SetRateLimitHeaders r resp)
                else Inl (Inr (error_body lib ''too many requests''),
                          SetStatus 429 (SetHeader ''Retry-After'' ''60'' (SetRateLimitHeaders r resp))), rl')))"

lemma rides_gate_open: "rides_gate lib env req rl = (Inr resp, rl') \<Longrightarrow> resp_status resp = 200"
  by (auto simp: rides_gate_def Let_def SetRateLimitHeaders_def response_defs empty_response_def
      split: if_splits prod.splits sum.splits)

lemma RidesGet_gate:
  "RidesGet_HandleRequestThrow lib env req empty_response sv =
     (case rides_gate lib env req (limiter sv) of
        (Inl (r, resp), rl) \<Rightarrow> (r, resp, sv\<lparr>limiter := rl\<rparr>)
      | (Inr resp, rl) \<Rightarrow> RidesGet_cached lib env (GetArg req ''user_id'' \<noteq> []) (GetArg req ''user_id'') resp
          (sv\<lparr>limiter := rl\<rparr>))"
  by (simp add: RidesGet_HandleRequestThrow_def rides_gate_def Let_def split: prod.split sum.split)

lemma RidesGet_by_shared: "by_shared EP_RidesGet RidesGet_HandleRequestThrow"
  unfolding by_shared_def
proof (intro allI)
  fix lib :: "'j json_lib" and env req and sv :: service
  obtain g rl where gate: "rides_gate lib env req (limiter sv) = (g, rl)" by fastforce
  show "case RidesGet_HandleRequestThrow lib env req empty_response sv of (r, resp, sv') \<Rightarrow>
      fst (handler_effect EP_RidesGet RidesGet_HandleRequestThrow lib env req (shared sv)) (r, resp) \<and>
      snd (handler_effect EP_RidesGet RidesGet_HandleRequestThrow lib env req (shared sv)) = shared sv'"
  proof (cases g)
    case (Inl a)
    then show ?thesis
      by (cases a) (simp add: handler_effect_def RidesGet_gate gate same_for_refl shared_def)
  next
    case (Inr resp)
    let ?h = "GetArg req ''user_id'' \<noteq> []" and ?a = "GetArg req ''user_id''"
    let ?bare = "(bare (shared sv))\<lparr>limiter := rl\<rparr>"
    obtain r1 resp1 sv1 where run: "RidesGet_cached lib env ?h ?a resp (sv\<lparr>limiter := rl\<rparr>) = (r1, resp1, sv1)"
      by (metis prod.collapse)
    obtain r2 resp2 sv2 where bare: "RidesGet_cached lib env ?h ?a resp ?bare = (r2, resp2, sv2)"
      by (metis prod.collapse)
    from gate Inr have "resp_status resp \<noteq> 429" by (auto dest: rides_gate_open)
    with RidesGet_cached_limit [OF run] RidesGet_cached_limit [OF bare] show ?thesis
      by (auto simp: handler_effect_def RidesGet_gate gate Inr run bare same_for_def same_limit_def)
  qed
qed

section \<open>The handlers that write\<close>

lemma settles_invalidate: "settles shared P k \<Longrightarrow> settles shared P (invalidate_then p k)"
  unfolding invalidate_then_def by (rule settles_call) (simp_all add: on_cache_def)

lemmas action_awaits = handler_effect_def same_for_def shared_def Let_def on_storage_def

lemma single_action_awaits:
  "awaits shared later (handler_effect EP_UsersCreate UsersCreate_HandleRequestThrow lib env req)
     (UsersCreate_prog lib env req empty_response) sh"
  "awaits shared later (handler_effect EP_DriversCreate DriversCreate_HandleRequestThrow lib env req)
     (DriversCreate_prog lib env req empty_response) sh"
  "awaits shared later (handler_effect EP_RidesCreate RidesCreate_HandleRequestThrow lib env req)
     (RidesCreate_prog lib env req empty_response) sh"
  "awaits shared later (handler_effect EP_RidesAccept RidesAccept_HandleRequestThrow lib env req)
     (RidesAccept_prog lib env req empty_response) sh"
  "awaits shared later (handler_effect EP_RidesComplete RidesComplete_HandleRequestThrow lib env req)
     (RidesComplete_prog lib env req empty_response) sh"
  by (auto simp: UsersCreate_prog_def UsersCreate_HandleRequestThrow_def
      DriversCreate_prog_def DriversCreate_HandleRequestThrow_def
      RidesCreate_prog_def RidesCreate_HandleRequestThrow_def
      RidesAccept_prog_def RidesAccept_HandleRequestThrow_def
      RidesComplete_prog_def RidesComplete_HandleRequestThrow_def action_awaits
      split: option.split sum.split prod.split intro!: awaits_call settles_invalidate)

text \<open>
  The login: a query that finds no such user or another password is the effect; otherwise the
  issue of the token is, for which the query would still give the same.
\<close>

lemma Login_found:
  assumes "GetUserByLogin pg l st = Inr (Some u)" and "user_password u = p" and "storage_grows st st'"
  shows "Login pg l p st' = IssueToken u st'"
  using assms(2) by (simp add: Login_IssueToken found_user_stays [OF assms(1,3)])

lemma AuthLogin_awaits:
  "awaits shared grows (handler_effect EP_AuthLogin AuthLogin_HandleRequestThrow lib env req)
     (AuthLogin_prog lib env req empty_response) sh"
proof (cases "login_request lib req")
  case None
  then show ?thesis
    by (auto simp: login_request_def AuthLogin_prog_def AuthLogin_HandleRequestThrow_def
        handler_effect_def same_for_def Let_def split: option.splits if_splits)
next
  case (Some lp)
  let ?resp = "SetContentType ''application/json'' empty_response"
  obtain l p json where lp: "lp = (l, p)" and json: "FromString lib (RequestBody req) = Some json"
    "as_string lib json ''login'' = Some l" "as_string lib json ''password'' = Some p" "l \<noteq> []" "p \<noteq> []"
    using Some by (auto simp: login_request_def split: option.splits if_splits)
  have eff: "handler_effect EP_AuthLogin AuthLogin_HandleRequestThrow lib env req sh =
      (case Login (env_pg env) l p (fst sh) of (res, st') \<Rightarrow>
         (\<lambda>(r', resp'). finish r' resp' = (case res of
             Inl e \<Rightarrow> finish (Inl e) ?resp
           | Inr None \<Rightarrow> finish (Inr (error_body lib ''invalid credentials'')) (SetStatus 401 ?resp)
           | Inr (Some t) \<Rightarrow> finish (Inr (token_body lib t)) ?resp), (st', snd sh)))" for sh
    by (simp add: handler_effect_def same_for_def shared_def AuthLogin_HandleRequestThrow_def json Let_def
        split: prod.split sum.split option.split)
  have issue: "awaits shared grows (handler_effect EP_AuthLogin AuthLogin_HandleRequestThrow lib env req)
      (call (on_storage (IssueToken u)) (\<lambda>res. case res of
          Inl e \<Rightarrow> Done (Inl e, ?resp)
        | Inr None \<Rightarrow> Done (Inr (error_body lib ''invalid credentials''), SetStatus 401 ?resp)
        | Inr (Some token) \<Rightarrow> Done (Inr (token_body lib token), ?resp))) sh"
    if "GetUserByLogin (env_pg env) l (fst sh) = Inr (Some u)" "user_password u = p" for u sh
    using Login_found [OF that]
    by (intro awaits_call)
      (simp add: eff grows_def shared_def on_storage_def split: prod.split sum.split option.split)
  show ?thesis
    unfolding AuthLogin_prog_def Let_def json option.case prod.case
    using json(4,5) issue
    by (auto simp: eff Login_IssueToken shared_def split: sum.split option.split intro!: awaits_read)
qed

section \<open>The handlers that read\<close>

lemma settles_set: "settles shared P k \<Longrightarrow> settles shared P (set_then env key body ttl k)"
  unfolding set_then_def by (rule settles_call) (simp_all add: on_cache_def)

lemma settles_get: "(\<And>x. settles shared P (k x)) \<Longrightarrow> settles shared P (call (on_cache f) k)"
  by (rule settles_call) (simp_all add: on_cache_def split: prod.split)

lemma UsersGet_settles: "settles shared (\<lambda>_. True) (UsersGet_prog lib env req resp)"
  by (auto simp: UsersGet_prog_def Let_def split: option.split sum.split
      intro!: settles_get settles_read settles_set)

lemma RidesGet_cached_settles:
  "resp_status resp \<noteq> 429 \<Longrightarrow>
   settles shared (\<lambda>(r, resp'). \<not> limited (finish r resp')) (RidesGet_cached_prog lib env h a resp)"
  by (auto simp: RidesGet_cached_prog_def Let_def response_defs split: option.split sum.split
      intro!: settles_get settles_read settles_set)

lemma handler_effect_same:
  "by_shared ep h \<Longrightarrow> (\<And>sv. shared (snd (snd (h lib env req empty_response sv))) = shared sv) \<Longrightarrow>
   snd (handler_effect ep h lib env req sh) = sh"
  by (simp add: handler_effect_def split: prod.split) (metis bare_simps(3) snd_conv)

lemma UsersGet_awaits:
  "awaits shared grows (handler_effect EP_UsersGet UsersGet_HandleRequestThrow lib env req)
     (UsersGet_prog lib env req empty_response) sh"
proof (rule settles_awaits [OF _ _ _ UsersGet_settles])
  fix sh
  show "snd (handler_effect EP_UsersGet UsersGet_HandleRequestThrow lib env req sh) = sh"
  proof (rule handler_effect_same [OF users_get_by_shared])
    fix sv
    show "shared (snd (snd (UsersGet_HandleRequestThrow lib env req empty_response sv))) = shared sv"
      by (metis UsersGet_storage prod.collapse shared_def)
  qed
qed (auto simp: handler_effect_def same_for_def intro: grows_refl grows_trans split: prod.split)

text \<open>The list of rides after the gate.\<close>

lemma RidesGet_rest:
  assumes gate: "rides_gate lib env req (snd sh) = (Inr resp, rl)"
  shows "settles shared (fst (handler_effect EP_RidesGet RidesGet_HandleRequestThrow lib env req sh))
      (RidesGet_cached_prog lib env (GetArg req ''user_id'' \<noteq> []) (GetArg req ''user_id'') resp)"
    and "snd (handler_effect EP_RidesGet RidesGet_HandleRequestThrow lib env req sh) = (fst sh, rl)"
proof -
  let ?h = "GetArg req ''user_id'' \<noteq> []" and ?a = "GetArg req ''user_id''"
  obtain r resp' sv where run: "RidesGet_cached lib env ?h ?a resp ((bare sh)\<lparr>limiter := rl\<rparr>) = (r, resp', sv)"
    by (metis prod.collapse)
  have ok: "resp_status resp \<noteq> 429" using rides_gate_open [OF gate] by simp
  have eff: "handler_effect EP_RidesGet RidesGet_HandleRequestThrow lib env req sh =
      (\<lambda>(r', resp''). same_limit (finish r resp') (finish r' resp''), shared sv)"
    using run by (simp add: handler_effect_def RidesGet_gate gate same_for_def)
  from RidesGet_cached_limit [OF run ok] have lim: "\<not> limited (finish r resp')" "shared sv = (fst sh, rl)"
    by (simp_all add: shared_def)
  show "settles shared (fst (handler_effect EP_RidesGet RidesGet_HandleRequestThrow lib env req sh))
      (RidesGet_cached_prog lib env ?h ?a resp)"
    unfolding eff fst_conv
    by (rule settles_mono [OF RidesGet_cached_settles [OF ok]]) (use lim(1) in \<open>auto simp: same_limit_def\<close>)
  show "snd (handler_effect EP_RidesGet RidesGet_HandleRequestThrow lib env req sh) = (fst sh, rl)"
    by (simp add: eff lim(2))
qed

lemma RidesGet_closed:
  "rides_gate lib env req (snd sh) = (Inl (r, resp), rl) \<Longrightarrow>
   handler_effect EP_RidesGet RidesGet_HandleRequestThrow lib env req sh =
     (\<lambda>(r', resp'). same_limit (finish r resp) (finish r' resp'), (fst sh, rl))"
  by (simp add: handler_effect_def RidesGet_gate same_for_def shared_def)

text \<open>The history of a passenger is not limited.\<close>

lemma history_awaits:
  assumes "GetArg req ''user_id'' \<noteq> []"
  shows "awaits shared grows (handler_effect EP_RidesGet RidesGet_HandleRequestThrow lib env req)
     (RidesGet_prog lib env req empty_response) sh"
proof -
  let ?resp = "SetContentType ''application/json'' empty_response" and ?a = "GetArg req ''user_id''"
  let ?eff = "handler_effect EP_RidesGet RidesGet_HandleRequestThrow lib env req"
  have gate: "rides_gate lib env req rl = (Inr ?resp, rl)" for rl
    using assms by (simp add: rides_gate_def Let_def)
  have "awaits shared grows ?eff (RidesGet_cached_prog lib env True ?a ?resp) sh"
  proof (rule settles_awaits [OF _ _ _ RidesGet_cached_settles])
    fix sh' and y :: "string result \<times> response"
    show "snd (?eff sh') = sh'" using RidesGet_rest(2) [OF gate] by simp
    assume y: "case y of (r, resp') \<Rightarrow> \<not> limited (finish r resp')"
    obtain r resp' sv where run: "RidesGet_cached lib env True ?a ?resp (bare sh') = (r, resp', sv)"
      by (metis prod.collapse)
    have bare: "(bare sh')\<lparr>limiter := snd sh'\<rparr> = bare sh'" by (simp add: bare_def)
    from run assms have "?eff sh' = (\<lambda>(r', resp''). same_limit (finish r resp') (finish r' resp''), shared sv)"
      by (simp add: handler_effect_def RidesGet_gate gate bare same_for_def)
    moreover have "\<not> limited (finish r resp')"
      using RidesGet_cached_limit [OF run] by (simp add: response_defs empty_response_def)
    ultimately show "fst (?eff sh') y" using y by (auto simp: same_limit_def)
  qed (auto simp: response_defs empty_response_def intro: grows_refl grows_trans)
  with assms show ?thesis by (simp add: RidesGet_prog_def Let_def)
qed

text \<open>A request for the active rides takes effect with its call of the limiter.\<close>

lemma active_awaits:
  assumes active: "GetArg req ''user_id'' = []" "GetArg req ''status'' = ''active''"
  shows "awaits shared grows (handler_effect EP_RidesGet RidesGet_HandleRequestThrow lib env req)
     (RidesGet_prog lib env req empty_response) sh"
proof -
  let ?resp = "SetContentType ''application/json'' empty_response" and ?a = "GetArg req ''user_id''"
  let ?eff = "handler_effect EP_RidesGet RidesGet_HandleRequestThrow lib env req"
  let ?check = "Check (system_now env) ACTIVE_RIDES_KEY kActiveRidesLimitPerMinute 60"
  let ?k = "case_sum (\<lambda>e. Done (Inl e, ?resp))
      (\<lambda>r. if \<not> allowed r
          then Done (Inr (error_body lib ''too many requests''),
            SetStatus 429 (SetHeader ''Retry-After'' ''60'' (SetRateLimitHeaders r ?resp)))
          else RidesGet_cached_prog lib env (?a \<noteq> []) ?a (SetRateLimitHeaders r ?resp))"
  have prog: "RidesGet_prog lib env req empty_response = call (on_limiter ?check) ?k"
    unfolding RidesGet_prog_def Let_def active by simp
  show ?thesis
    unfolding prog
  proof (rule awaits_call)
    fix s :: service
    obtain res rl where check: "?check (limiter s) = (res, rl)" by fastforce
    show "shared (snd (on_limiter ?check s)) = snd (?eff (shared s)) \<and>
        settles shared (fst (?eff (shared s))) (?k (fst (on_limiter ?check s)))"
    proof (cases "\<exists>r. res = Inr r \<and> allowed r")
      case True
      then obtain r where r: "res = Inr r" "allowed r" by blast
      with check active have "rides_gate lib env req (snd (shared s)) = (Inr (SetRateLimitHeaders r ?resp), rl)"
        by (simp add: rides_gate_def Let_def)
      from RidesGet_rest [OF this] active(1) r check show ?thesis
        by (simp add: on_limiter_def shared_def)
    next
      case False
      with check active obtain r resp where
        gate: "rides_gate lib env req (snd (shared s)) = (Inl (r, resp), rl)"
        and k: "?k res = Done (r, resp)"
        by (cases res) (auto simp: rides_gate_def Let_def)
      from RidesGet_closed [OF gate] k check show ?thesis
        by (simp add: on_limiter_def shared_def same_limit_def)
    qed
  qed
qed

lemma RidesGet_awaits:
  "awaits shared grows (handler_effect EP_RidesGet RidesGet_HandleRequestThrow lib env req)
     (RidesGet_prog lib env req empty_response) sh"
proof (cases "GetArg req ''user_id'' = [] \<and> GetArg req ''status'' \<noteq> ''active''")
  case True
  let ?bad = "(Inr (error_body lib ''user_id or status=active query parameter is required''),
    SetStatus 400 (SetContentType ''application/json'' empty_response))"
  from True have "rides_gate lib env req rl = (Inl ?bad, rl)" for rl
    by (simp add: rides_gate_def Let_def)
  from RidesGet_closed [OF this]
  have "awaits shared grows (handler_effect EP_RidesGet RidesGet_HandleRequestThrow lib env req) (Done ?bad) sh"
    by (simp add: same_limit_def)
  with True show ?thesis by (simp add: RidesGet_prog_def Let_def)
qed (use history_awaits active_awaits in blast)

section \<open>A request\<close>

text \<open>Handlers and programs of the endpoints, together.\<close>

lemma sql_awaits:
  assumes "sql_prog ep = Some p"
  obtains h where "sql_handler ep = Some h" and "by_shared ep h"
    and "\<And>lib env req sh. awaits shared grows (handler_effect ep h lib env req) (p lib env req empty_response) sh"
  using assms writers_by_shared users_get_by_shared RidesGet_by_shared single_action_awaits [of grows]
    AuthLogin_awaits UsersGet_awaits RidesGet_awaits
  by (cases ep) (auto intro: that)

text \<open>A request as one step on what is shared, with the answers that are admitted.\<close>

definition request_effect :: "('j, 'm, 'd) platform \<Rightarrow> 'm \<Rightarrow> operation \<Rightarrow> taxi_storage \<times> rate_limiter \<Rightarrow>
    (response result \<Rightarrow> bool) \<times> (taxi_storage \<times> rate_limiter)" where
  "request_effect pf m op sh =
     (case handle pf (fst op) (snd op) \<lparr>svc = bare sh, mongo_users = m\<rparr> of
        (r, s') \<Rightarrow>
          (\<lambda>r'. if authorized (fst sh) (snd op) then same_answer pf (snd op) r r' else r' = r, server_shared s'))"

lemma handle_authorized:
  "authorized (server_storage s) req \<Longrightarrow> handle pf env req s = dispatch pf env req empty_response s"
  by (simp add: handle_def AuthMiddleware_pass)

lemma handle_refused:
  "\<not> authorized (server_storage s) req \<Longrightarrow>
   handle pf env req s = (Inr (unauthorized (refusal_body req) empty_response), s)"
  by (simp add: handle_def AuthMiddleware_refuse)

lemma server_bare [simp]:
  "server_storage \<lparr>svc = bare sh, mongo_users = m\<rparr> = fst sh"
  "server_shared \<lparr>svc = sv, mongo_users = m\<rparr> = shared sv"
  "server_shared (s\<lparr>svc := sv\<rparr>) = shared sv"
  by (simp_all add: server_storage_def server_shared_def)

lemma request_effect_refused:
  "\<not> authorized (fst sh) (snd op) \<Longrightarrow>
   request_effect pf m op sh = (\<lambda>r'. r' = Inr (unauthorized (refusal_body (snd op)) empty_response), sh)"
  by (simp add: request_effect_def handle_refused)

lemma request_effect_passed:
  assumes "authorized (fst sh) req"
  shows "request_effect pf m (env, req) sh =
    (case dispatch pf env req empty_response \<lparr>svc = bare sh, mongo_users = m\<rparr> of
       (r, s') \<Rightarrow> (same_answer pf req r, server_shared s'))"
  using assms by (simp add: request_effect_def handle_authorized fun_eq_iff split: prod.split)

lemma dispatch_sql:
  assumes "pf_route pf req = Some ep" and "sql_handler ep = Some h"
  shows "dispatch pf env req resp s =
    (case h (pf_json pf) env req resp (svc s) of (r, resp', sv) \<Rightarrow> (finish r resp', s\<lparr>svc := sv\<rparr>))"
  using assms by (simp add: dispatch_def run_sql_def)

lemma dispatch_no_sql:
  fixes pf :: "('j, 'm, 'd) platform"
  assumes "pf_route pf req = Some ep" and "sql_handler ep = (None :: 'j handler option)"
  shows "svc (snd (dispatch pf env req resp s)) = svc s"
  using assms by (simp add: dispatch_svc)

lemma no_sql_same:
  "sql_handler ep = (None :: 'j handler option) \<Longrightarrow> same_for ep r r'"
  by (cases ep) (simp_all add: same_for_def)

lemma mongo_settles: "settles server_shared (\<lambda>_. True) (zoom mongo_users put_mongo f p)"
  by (induction p) (simp_all add: put_mongo_def server_shared_def)

lemma dispatch_no_sql_settles:
  fixes pf :: "('j, 'm, 'd) platform"
  assumes "pf_route pf req = Some ep" and "sql_prog ep = (None :: 'j program option)"
  shows "settles server_shared (\<lambda>_. True) (dispatch_prog pf env req resp)"
  using assms by (auto simp: dispatch_prog_def intro!: settles_read mongo_settles split: prod.split)

lemma dispatch_awaits:
  fixes pf :: "('j, 'm, 'd) platform"
  assumes auth: "authorized (fst sh) req"
  shows "awaits server_shared grows (request_effect pf m (env, req)) (dispatch_prog pf env req empty_response) sh"
proof -
  have later: "authorized (fst sh') req" if "grows sh sh'" for sh'
    using auth that by (auto simp: authorized_def grows_def storage_grows_def split: option.splits)
  note eff = request_effect_passed [OF later, of _ pf m env]
  show ?thesis
  proof (cases "pf_route pf req")
    case None
    then show ?thesis by (simp add: dispatch_prog_def eff dispatch_def same_answer_def)
  next
    case rt: (Some ep)
    show ?thesis
    proof (cases "sql_prog ep :: 'j program option")
      case None
      then have h: "sql_handler ep = (None :: 'j handler option)" by (simp add: sql_prog_None)
      have "request_effect pf m (env, req) sh' = (\<lambda>_. True, sh')" if "grows sh sh'" for sh'
        using dispatch_no_sql [OF rt h, of env empty_response "\<lparr>svc = bare sh', mongo_users = m\<rparr>"]
        by (simp add: eff [OF that] same_answer_def rt no_sql_same [OF h] server_shared_def fun_eq_iff case_prod_unfold)
      with dispatch_no_sql_settles [OF rt None] show ?thesis
        by (intro settles_awaits [of _ sh]) (auto intro: grows_trans grows_refl)
    next
      case p: (Some p)
      from sql_awaits [OF this] obtain h where h: "sql_handler ep = Some h"
        and aw: "\<And>(lib :: 'j json_lib) env req sh.
          awaits shared grows (handler_effect ep h lib env req) (p lib env req empty_response) sh"
        by metis
      have step: "snd (request_effect pf m (env, req) sh') = snd (handler_effect ep h (pf_json pf) env req sh')"
        "fst (handler_effect ep h (pf_json pf) env req sh') y \<Longrightarrow>
          fst (request_effect pf m (env, req) sh') ((\<lambda>(r, resp'). finish r resp') y)"
        if "grows sh sh'" for sh' y
        by (simp_all add: eff [OF that] dispatch_sql [OF rt h] handler_effect_def same_answer_def rt
            server_shared_def split: prod.splits)
      from awaits_zoom [OF part_of_server(1) grows_trans aw step] show ?thesis
        by (simp add: dispatch_prog_def rt p server_shared_def [abs_def])
    qed
  qed
qed

lemma request_awaits:
  "awaits server_shared grows (request_effect pf m (env, req)) (request_prog pf env req) sh"
proof (cases "IsPublicRequest req")
  case True
  then show ?thesis by (simp add: request_prog_def dispatch_awaits authorized_def)
next
  case False
  show ?thesis
  proof (cases "bearer_token req")
    case None
    with False have "\<not> authorized st' req" for st' by (simp add: authorized_def)
    with None False show ?thesis
      by (simp add: request_prog_def request_effect_refused refusal_body_def)
  next
    case (Some t)
    have "awaits server_shared grows (request_effect pf m (env, req))
        (dispatch_prog pf env req empty_response) sh'" if "IsTokenValid (fst sh') t" for sh'
      by (rule dispatch_awaits) (simp add: authorized_def Some that)
    note accepted = this
    have refused: "request_effect pf m (env, req) sh' =
        (\<lambda>r'. r' = Inr (unauthorized invalid_token_body empty_response), sh')"
      if "\<not> IsTokenValid (fst sh') t" for sh'
      using that Some False by (simp add: request_effect_refused authorized_def refusal_body_def)
    show ?thesis
      unfolding request_prog_def Some option.case if_not_P [OF False]
    proof (rule awaits_read, goal_cases)
      case (1 s)
      show ?case
        using accepted [of "server_shared s"] refused [of "server_shared s"]
        by (cases "IsTokenValid (server_storage s) t") simp_all
    qed
  qed
qed

section \<open>Every schedule is explained by a serial order\<close>

lemma request_effect_grows: "grows sh (snd (request_effect pf m op sh))"
proof -
  let ?s = "\<lparr>svc = bare sh, mongo_users = m\<rparr>"
  have "storage_grows (fst sh) (server_storage (concurrent_run pf (in_order 1) [op] ?s))"
    using growth_sched.concurrent_keeps [of "fst sh" ?s "[op]" pf "in_order 1"] by (simp add: storage_grows_refl)
  moreover have "concurrent_run pf (in_order 1) [op] ?s = snd (handle pf (fst op) (snd op) ?s)"
    using in_order_run [of "[op]" pf ?s] by (simp add: concurrent_run_def server_run_def server_step_def)
  ultimately show ?thesis by (simp add: request_effect_def grows_def case_prod_unfold)
qed

interpretation service_linear: linearizable server_shared grows "\<lambda>j. request_effect pf m (ops ! j)"
  for pf :: "('j, 'm, 'd) platform" and m ops
  by unfold_locales (auto intro: grows_refl grows_trans request_effect_grows)

text \<open>The effect of a request is what the server does, whatever its cache and its MongoDB hold.\<close>

lemma dispatch_server:
  fixes pf :: "('j, 'm, 'd) platform" and s :: "'m server"
  defines "bare_run \<equiv> \<lambda>env req m. dispatch pf env req empty_response \<lparr>svc = bare (server_shared s), mongo_users = m\<rparr>"
  shows "server_shared (snd (bare_run env req m)) = server_shared (snd (dispatch pf env req empty_response s))"
    and "same_answer pf req (fst (bare_run env req m)) r \<longleftrightarrow>
      same_answer pf req (fst (dispatch pf env req empty_response s)) r"
proof -
  let ?bare = "\<lparr>svc = bare (server_shared s), mongo_users = m\<rparr>"
  have "server_shared (snd (bare_run env req m)) = server_shared (snd (dispatch pf env req empty_response s)) \<and>
    (same_answer pf req (fst (bare_run env req m)) r \<longleftrightarrow>
      same_answer pf req (fst (dispatch pf env req empty_response s)) r)"
  proof (cases "pf_route pf req")
    case None
    then show ?thesis by (simp add: bare_run_def dispatch_def)
  next
    case rt: (Some ep)
    show ?thesis
    proof (cases "sql_prog ep :: 'j program option")
      case None
      then have h: "sql_handler ep = (None :: 'j handler option)" by (simp add: sql_prog_None)
      have "server_shared (snd (dispatch pf env req empty_response ?bare)) = server_shared s"
        "server_shared (snd (dispatch pf env req empty_response s)) = server_shared s"
        by (simp_all add: server_shared_def dispatch_no_sql [OF rt h])
      then show ?thesis by (simp add: bare_run_def same_answer_def rt no_sql_same [OF h])
    next
      case (Some p)
      from sql_awaits [OF this] obtain h :: "'j handler" where h: "sql_handler ep = Some h" "by_shared ep h"
        by metis
      obtain r1 resp1 sv1 where real: "h (pf_json pf) env req empty_response (svc s) = (r1, resp1, sv1)"
        by (metis prod.collapse)
      obtain r2 resp2 sv2 where fake: "h (pf_json pf) env req empty_response (bare (server_shared s)) = (r2, resp2, sv2)"
        by (metis prod.collapse)
      from h(2) real fake have "shared sv2 = shared sv1" "same_for ep (finish r2 resp2) (finish r1 resp1)"
        by (force simp: by_shared_def handler_effect_def server_shared_def split: prod.splits)+
      with real fake show ?thesis
        by (auto simp: bare_run_def dispatch_sql [OF rt h(1)] same_answer_def rt
            intro: same_for_trans same_for_sym)
    qed
  qed
  then show "server_shared (snd (bare_run env req m)) = server_shared (snd (dispatch pf env req empty_response s))"
    and "same_answer pf req (fst (bare_run env req m)) r \<longleftrightarrow>
      same_answer pf req (fst (dispatch pf env req empty_response s)) r"
    by simp_all
qed

lemma request_effect_server:
  fixes pf :: "('j, 'm, 'd) platform"
  shows "snd (request_effect pf m op (server_shared s)) = server_shared (server_step pf op s)"
    and "fst (request_effect pf m op (server_shared s)) r \<longleftrightarrow>
      (if authorized (server_storage s) (snd op) then same_answer pf (snd op) (fst (handle pf (fst op) (snd op) s)) r
       else r = fst (handle pf (fst op) (snd op) s))"
  using dispatch_server [where pf = pf and env = "fst op" and req = "snd op" and s = s and m = m]
  by (cases "authorized (server_storage s) (snd op)";
      simp add: request_effect_def handle_refused handle_authorized server_step_def case_prod_unfold)+

lemma effects_server_run:
  "effects (\<lambda>j. request_effect pf m (ops ! j)) js (server_shared s) =
     server_shared (server_run pf (map ((!) ops) js) s)"
proof (induction js rule: rev_induct)
  case (snoc j js)
  then show ?case by (simp add: request_effect_server(1) server_run_def)
qed (simp add: server_run_def)

text \<open>Where a request stands in a serial order, and how it was answered there.\<close>

definition answered_at :: "('j, 'm, 'd) platform \<Rightarrow> operation list \<Rightarrow> 'm server \<Rightarrow> nat list \<Rightarrow> nat \<Rightarrow>
    response result \<Rightarrow> bool" where
  "answered_at pf ops s js j r \<longleftrightarrow>
     (\<exists>k<length js. js ! k = j \<and>
        (let s' = server_run pf (map ((!) ops) (take k js)) s; r' = fst (handle pf (fst (ops ! j)) (snd (ops ! j)) s')
         in if authorized (server_storage s') (snd (ops ! j)) then same_answer pf (snd (ops ! j)) r' r else r = r'))"

lemma concurrent_linear:
  obtains js where "distinct js" and "set js \<subseteq> {..<length ops}"
    and "server_shared (concurrent_run pf is ops s) = server_shared (server_run pf (map ((!) ops) js) s)"
    and "\<And>j r. j < length ops \<Longrightarrow> fst (schedule is (pool_of pf ops s)) ! j = Done r \<Longrightarrow> answered_at pf ops s js j r"
    and "in_time (pool_of pf ops s) is js"
proof -
  let ?ps = "map (\<lambda>op. request_prog pf (fst op) (snd op)) ops"
  let ?eff = "\<lambda>j. request_effect pf (mongo_users s) (ops ! j)"
  obtain ps' s' where run: "schedule is (?ps, s) = (ps', s')" by fastforce
  have "\<forall>j<length ?ps. awaits server_shared grows (?eff j) (?ps ! j) (server_shared s)"
  proof (intro allI impI)
    fix j
    assume "j < length ?ps"
    with request_awaits [of pf "mongo_users s" "fst (ops ! j)" "snd (ops ! j)" "server_shared s"]
    show "awaits server_shared grows (?eff j) (?ps ! j) (server_shared s)" by simp
  qed
  from service_linear.schedule_linear [OF this run] obtain js
    where js: "distinct js" "set js \<subseteq> {..<length ops}"
      and st: "server_shared s' = effects ?eff js (server_shared s)"
      and ends: "\<And>j y. j < length ops \<Longrightarrow> ps' ! j = Done y \<Longrightarrow> \<exists>k<length js. js ! k = j \<and>
        fst (?eff j (effects ?eff (take k js) (server_shared s))) y"
      and time: "in_time (?ps, s) is js"
    by auto
  have "answered_at pf ops s js j r" if "j < length ops" "ps' ! j = Done r" for j r
    using ends [OF that] by (auto simp: effects_server_run request_effect_server(2) answered_at_def Let_def)
  with run st js time show thesis
    by (intro that) (simp_all add: concurrent_run_def pool_of_def effects_server_run)
qed

lemma answered_member: "answered_at pf ops s js j r \<Longrightarrow> j \<in> set js"
  unfolding answered_at_def by (metis nth_mem)

text \<open>A request that writes is answered exactly as at its place.\<close>

lemma answered_write:
  "answered_at pf ops s js j r \<Longrightarrow> is_write pf (snd (ops ! j)) \<Longrightarrow>
   \<exists>k<length js. js ! k = j \<and>
     r = fst (handle pf (fst (ops ! j)) (snd (ops ! j)) (server_run pf (map ((!) ops) (take k js)) s))"
  by (auto simp: answered_at_def is_write_def same_answer_def same_for_def Let_def split: option.splits if_splits)

end
