(* ===== verification/ActiveLimit.thy ===== *)
theory ActiveLimit
  imports ServerLinearization
begin

text \<open>
  The limit on the requests for the active rides, from the limiter to the answers of the service: what a
  request does to the bucket of the current minute, a run of requests, and requests that run at the
  same time, which are limited as in the serial order that explains them.
\<close>

section \<open>The request for the active rides\<close>

text \<open>A request that the router sends to the handler and for which \<open>is_active_query\<close> holds.\<close>

definition asks_active :: "('j, 'm, 'd) platform \<Rightarrow> request \<Rightarrow> bool" where
  "asks_active pf req \<longleftrightarrow>
     pf_route pf req = Some EP_RidesGet \<and> GetArg req ''user_id'' = [] \<and> GetArg req ''status'' = ''active''"

text \<open>The calls that the bucket has counted in the window that starts at \<open>w\<close>.\<close>

definition used_in :: "int \<Rightarrow> rate_limiter \<Rightarrow> int" where
  "used_in w rl =
     (let b = bucket_of rl ACTIVE_RIDES_KEY in if window_start b = w then bucket_count b else 0)"

definition ok_answer :: "response result \<Rightarrow> bool" where
  "ok_answer r \<longleftrightarrow> (case r of Inl e \<Rightarrow> False | Inr resp \<Rightarrow> resp_status resp = 200)"

lemma Check_used:
  assumes "Check t ACTIVE_RIDES_KEY kActiveRidesLimitPerMinute 60 rl = (res, rl')"
    and "window_start_at t 60 = w"
  obtains r where "res = Inr r" and
    "allowed r \<and> used_in w rl < 100 \<and> used_in w rl' = used_in w rl + 1 \<or>
     \<not> allowed r \<and> used_in w rl' = used_in w rl"
proof (cases res)
  case (Inr r)
  with assms that [of r] show thesis
    by (auto simp: Check_def used_in_def kActiveRidesLimitPerMinute_def Let_def split: if_splits)
qed (use assms in \<open>auto simp: Check_def Let_def split: if_splits\<close>)

lemma handlers_keep_limiter:
  "limiter (snd (snd (UsersCreate_HandleRequestThrow lib env req resp sv))) = limiter sv"
  "limiter (snd (snd (AuthLogin_HandleRequestThrow lib env req resp sv))) = limiter sv"
  "limiter (snd (snd (DriversCreate_HandleRequestThrow lib env req resp sv))) = limiter sv"
  "limiter (snd (snd (RidesCreate_HandleRequestThrow lib env req resp sv))) = limiter sv"
  "limiter (snd (snd (RidesAccept_HandleRequestThrow lib env req resp sv))) = limiter sv"
  "limiter (snd (snd (RidesComplete_HandleRequestThrow lib env req resp sv))) = limiter sv"
  "limiter (snd (snd (UsersGet_HandleRequestThrow lib env req resp sv))) = limiter sv"
  by (simp_all add: UsersCreate_HandleRequestThrow_def AuthLogin_HandleRequestThrow_def
      DriversCreate_HandleRequestThrow_def RidesCreate_HandleRequestThrow_def
      RidesAccept_HandleRequestThrow_def RidesComplete_HandleRequestThrow_def
      UsersGet_HandleRequestThrow_def Let_def split: option.split sum.split prod.split)

lemma rides_gate_closed:
  assumes "\<not> (GetArg req ''user_id'' = [] \<and> GetArg req ''status'' = ''active'')"
  shows "snd (rides_gate lib env req rl) = rl"
  using assms by (auto simp: rides_gate_def Let_def)

lemma RidesGet_limiter:
  "limiter (snd (snd (RidesGet_HandleRequestThrow lib env req empty_response sv))) =
     snd (rides_gate lib env req (limiter sv))"
proof (cases "rides_gate lib env req (limiter sv)")
  case (Pair g rl)
  have "limiter (snd (snd (RidesGet_cached lib env h a resp (sv\<lparr>limiter := rl\<rparr>)))) = rl" for h a resp
    using RidesGet_cached_storage [of lib env h a resp "sv\<lparr>limiter := rl\<rparr>"]
    by (cases "RidesGet_cached lib env h a resp (sv\<lparr>limiter := rl\<rparr>)") simp
  with Pair show ?thesis by (simp add: RidesGet_gate split: prod.split sum.split)
qed

text \<open>Every other request leaves the limiter alone.\<close>

lemma other_keeps_limiter:
  fixes pf :: "('j, 'm, 'd) platform"
  assumes "\<not> asks_active pf (snd op) \<or> \<not> authorized (server_storage s) (snd op)"
  shows "limiter (svc (server_step pf op s)) = limiter (svc s)"
proof (cases "authorized (server_storage s) (snd op)")
  case False
  then show ?thesis by (simp add: server_step_def handle_refused)
next
  case True
  obtain env req where op: "op = (env, req)" by fastforce
  have step: "server_step pf op s = snd (dispatch pf env req empty_response s)"
    using True by (simp add: op server_step_def handle_authorized)
  show ?thesis
  proof (cases "pf_route pf req")
    case None
    then show ?thesis by (simp add: step dispatch_unrouted)
  next
    case rt: (Some ep)
    show ?thesis
    proof (cases "sql_handler ep :: 'j handler option")
      case None
      from dispatch_no_sql [OF rt None] show ?thesis by (simp add: step)
    next
      case h: (Some h)
      have "limiter (svc (server_step pf op s)) = limiter (snd (snd (h (pf_json pf) env req empty_response (svc s))))"
        by (simp add: step dispatch_sql [OF rt h] split: prod.split)
      also have "\<dots> = limiter (svc s)"
        using h assms True rt
        by (cases ep) (auto simp: handlers_keep_limiter RidesGet_limiter op asks_active_def intro!: rides_gate_closed)
      finally show ?thesis .
    qed
  qed
qed

text \<open>A request for the active rides that passes the middleware and the limiter.\<close>

definition admitted :: "('j, 'm, 'd) platform \<Rightarrow> operation \<Rightarrow> 'm server \<Rightarrow> bool" where
  "admitted pf op s \<longleftrightarrow> asks_active pf (snd op) \<and> authorized (server_storage s) (snd op) \<and>
     \<not> limited (fst (handle pf (fst op) (snd op) s))"

text \<open>What one request does to the count of a minute.\<close>

lemma active_step:
  fixes pf :: "('j, 'm, 'd) platform" and s :: "'m server"
  assumes "asks_active pf (snd op) \<longrightarrow> window_start_at (system_now (fst op)) 60 = w"
  defines "u \<equiv> used_in w (limiter (svc s))" and "u' \<equiv> used_in w (limiter (svc (server_step pf op s)))"
  shows "u \<le> u' \<and> u' \<le> max 100 u \<and> (admitted pf op s \<longrightarrow> u < u')"
proof -
  obtain env req where op: "op = (env, req)" by fastforce
  show ?thesis
  proof (cases "asks_active pf req \<and> authorized (server_storage s) req")
    case False
    with other_keeps_limiter [of pf op s] have "u' = u" by (auto simp: u_def u'_def op)
    with False show ?thesis by (auto simp: op admitted_def)
  next
    case True
    then have rt: "pf_route pf req = Some EP_RidesGet" by (simp add: asks_active_def)
    let ?check = "Check (system_now env) ACTIVE_RIDES_KEY kActiveRidesLimitPerMinute 60 (limiter (svc s))"
    obtain res rl where check: "?check = (res, rl)" by fastforce
    have "window_start_at (system_now env) 60 = w" using assms(1) True by (simp add: op)
    from Check_used [OF check this] obtain r where r: "res = Inr r"
      "allowed r \<and> u < 100 \<and> used_in w rl = u + 1 \<or> \<not> allowed r \<and> used_in w rl = u"
      unfolding u_def by metis
    have run: "handle pf env req s = (case RidesGet_HandleRequestThrow (pf_json pf) env req empty_response (svc s) of
        (b, resp, sv) \<Rightarrow> (finish b resp, s\<lparr>svc := sv\<rparr>))"
      using True by (simp add: handle_authorized dispatch_sql [OF rt])
    have "u' = used_in w (snd (rides_gate (pf_json pf) env req (limiter (svc s))))"
      by (simp add: u'_def op server_step_def run flip: RidesGet_limiter split: prod.split)
    with True check r(1) have u': "u' = used_in w rl" by (simp add: rides_gate_def asks_active_def Let_def)
    have "limited (fst (handle pf env req s))" if "\<not> allowed r"
      using True check r(1) that
      by (simp add: run RidesGet_gate rides_gate_def asks_active_def Let_def response_defs)
    with r(2) u' show ?thesis by (auto simp: op admitted_def)
  qed
qed

section \<open>Runs\<close>

text \<open>The places of a run where a request for the active rides is admitted.\<close>

definition admitted_at :: "('j, 'm, 'd) platform \<Rightarrow> operation list \<Rightarrow> 'm server \<Rightarrow> nat \<Rightarrow> bool" where
  "admitted_at pf ops s k \<longleftrightarrow> admitted pf (ops ! k) (server_run pf (take k ops) s)"

lemma admitted_at_append:
  "k < length ops \<Longrightarrow> admitted_at pf (ops @ [op]) s k \<longleftrightarrow> admitted_at pf ops s k"
  "admitted_at pf (ops @ [op]) s (length ops) \<longleftrightarrow> admitted pf op (server_run pf ops s)"
  by (simp_all add: admitted_at_def nth_append)

lemma run_admitted:
  fixes pf :: "('j, 'm, 'd) platform" and s :: "'m server"
  assumes "\<forall>op\<in>set ops. asks_active pf (snd op) \<longrightarrow> window_start_at (system_now (fst op)) 60 = w"
  defines "u \<equiv> used_in w (limiter (svc s))"
  shows "u + int (card {k. k < length ops \<and> admitted_at pf ops s k}) \<le> used_in w (limiter (svc (server_run pf ops s))) \<and>
    used_in w (limiter (svc (server_run pf ops s))) \<le> max 100 u"
  using assms(1)
proof (induction ops rule: rev_induct)
  case Nil
  then show ?case by (simp add: u_def server_run_def)
next
  case (snoc op ops)
  let ?s = "server_run pf ops s"
  let ?old = "{k. k < length ops \<and> admitted_at pf ops s k}"
  have run: "server_run pf (ops @ [op]) s = server_step pf op ?s" by (simp add: server_run_def)
  have "{k. k < length (ops @ [op]) \<and> admitted_at pf (ops @ [op]) s k} =
      ?old \<union> (if admitted_at pf (ops @ [op]) s (length ops) then {length ops} else {})"
    by (auto simp: admitted_at_append less_Suc_eq)
  then have "card {k. k < length (ops @ [op]) \<and> admitted_at pf (ops @ [op]) s k} =
      card ?old + (if admitted_at pf (ops @ [op]) s (length ops) then 1 else 0)"
    by simp
  moreover from active_step [of pf op w ?s] snoc.prems
  have "used_in w (limiter (svc ?s)) \<le> used_in w (limiter (svc (server_step pf op ?s))) \<and>
    used_in w (limiter (svc (server_step pf op ?s))) \<le> max 100 (used_in w (limiter (svc ?s))) \<and>
    (admitted_at pf (ops @ [op]) s (length ops) \<longrightarrow>
      used_in w (limiter (svc ?s)) < used_in w (limiter (svc (server_step pf op ?s))))"
    by (simp add: admitted_at_append)
  ultimately show ?case using snoc by (auto simp: run)
qed

section \<open>Requests at the same time\<close>

text \<open>A request that ended with 200 was admitted at its place in the serial order.\<close>

lemma ok_admitted:
  assumes "answered_at pf ops s js j r" and "ok_answer r" and "asks_active pf (snd (ops ! j))"
  shows "\<exists>k<length js. js ! k = j \<and> admitted_at pf (map ((!) ops) js) s k"
proof -
  from assms(1) obtain k where k: "k < length js" "js ! k = j"
    and ans: "let s' = server_run pf (map ((!) ops) (take k js)) s; r' = fst (handle pf (fst (ops ! j)) (snd (ops ! j)) s')
      in if authorized (server_storage s') (snd (ops ! j)) then same_answer pf (snd (ops ! j)) r' r else r = r'"
    by (auto simp: answered_at_def)
  let ?s = "server_run pf (map ((!) ops) (take k js)) s"
  let ?r = "fst (handle pf (fst (ops ! j)) (snd (ops ! j)) ?s)"
  have auth: "authorized (server_storage ?s) (snd (ops ! j))"
  proof (rule ccontr)
    assume "\<not> authorized (server_storage ?s) (snd (ops ! j))"
    with ans handle_refused [OF this, of pf "fst (ops ! j)"] assms(2) show False
      by (simp add: ok_answer_def unauthorized_def response_defs empty_response_def)
  qed
  with ans assms(3) have "same_limit ?r r"
    by (simp add: same_answer_def same_for_def asks_active_def)
  with assms(2) have "\<not> limited ?r"
    by (auto simp: same_limit_def ok_answer_def limited_def split: sum.splits)
  with auth assms(3) k show ?thesis
    by (auto simp: admitted_at_def admitted_def take_map)
qed

text \<open>The requests of a pool for the active rides that have ended with 200.\<close>

definition served :: "('j, 'm, 'd) platform \<Rightarrow> nat list \<Rightarrow> operation list \<Rightarrow> 'm server \<Rightarrow> nat set" where
  "served pf is ops s =
     {j. j < length ops \<and> asks_active pf (snd (ops ! j)) \<and>
       (case fst (schedule is (pool_of pf ops s)) ! j of Done r \<Rightarrow> ok_answer r | Act u k \<Rightarrow> False)}"

lemma concurrent_admitted:
  assumes "\<forall>op\<in>set ops. asks_active pf (snd op) \<longrightarrow> window_start_at (system_now (fst op)) 60 = w"
  shows "used_in w (limiter (svc s)) + int (card (served pf is ops s)) \<le> max 100 (used_in w (limiter (svc s)))"
proof -
  obtain js where js: "set js \<subseteq> {..<length ops}"
    and ans: "\<And>j r. j < length ops \<Longrightarrow> fst (schedule is (pool_of pf ops s)) ! j = Done r \<Longrightarrow> answered_at pf ops s js j r"
    by (rule concurrent_linear [of ops pf "is" s]) blast
  let ?K = "{k. k < length (map ((!) ops) js) \<and> admitted_at pf (map ((!) ops) js) s k}"
  have "served pf is ops s \<subseteq> (!) js ` ?K"
  proof
    fix j
    assume "j \<in> served pf is ops s"
    then obtain r where "j < length ops" "asks_active pf (snd (ops ! j))"
      "fst (schedule is (pool_of pf ops s)) ! j = Done r" "ok_answer r"
      by (auto simp: served_def split: prog.splits)
    with ok_admitted ans show "j \<in> (!) js ` ?K" by fastforce
  qed
  then have "card (served pf is ops s) \<le> card ?K"
    by (rule surj_card_le [rotated]) simp
  moreover have "\<forall>op\<in>set (map ((!) ops) js). asks_active pf (snd op) \<longrightarrow> window_start_at (system_now (fst op)) 60 = w"
    using assms js by auto
  from run_admitted [OF this, of s]
  have "used_in w (limiter (svc s)) + int (card ?K) \<le> max 100 (used_in w (limiter (svc s)))" by linarith
  ultimately show ?thesis by linarith
qed

end
