(* ===== verification/ConcurrencyProperties.thy ===== *)
theory ConcurrencyProperties
  imports ActiveLimit Scenario
begin

text \<open>
  The properties of requests that run at the same time, in any order of their actions.
\<close>

section \<open>Schedules and runs\<close>




section \<open>What every schedule keeps\<close>

text \<open>C6: However the actions of requests that run at the same time are interleaved, and wherever
  they stop, two rides that are accepted and have the same driver are the same ride, and a driver is
  busy exactly while one of the accepted rides is his.\<close>

theorem concurrent_accepts_exclude:
  assumes "good_start (server_db s)"
  shows "(\<forall>r\<in>set (rides (server_db (concurrent_run pf is ops s))).
      \<forall>r'\<in>set (rides (server_db (concurrent_run pf is ops s))).
       rr_status r = ''accepted'' \<and> rr_status r' = ''accepted'' \<and> rr_driver_id r = rr_driver_id r' \<longrightarrow> r = r') \<and>
    (\<forall>d\<in>set (drivers (server_db (concurrent_run pf is ops s))). dr_status d = ''busy'' \<longleftrightarrow>
       (\<exists>r\<in>set (rides (server_db (concurrent_run pf is ops s))).
          rr_status r = ''accepted'' \<and> rr_driver_id r = Some (dr_id d)))"
  using good_accepted_unique [OF concurrent_good [OF assms]] good_busy [OF concurrent_good [OF assms]]
  by blast

text \<open>Two rides, one driver, and the two requests to accept them with him.\<close>

definition second_order :: operation where
  "second_order = (demo_env 5 NoFault,
     demo_req ''POST'' ''/rides'' ann_token [] []
       ''passenger_id=1&pickup_address=Arbat 3&destination_address=Arbat 4'')"

definition accept_ride_with_1 :: "string \<Rightarrow> operation" where
  "accept_ride_with_1 i = (demo_env 6 NoFault,
     demo_req ''PATCH'' (''/rides/'' @ i @ ''/accept'') ann_token [] i ''driver_id=1'')"

definition two_orders :: "bson list server" where
  "two_orders = server_run demo [ann_joins, ann_logs_in, ann_drives, ann_orders, second_order] demo_start"

definition both_accept :: "nat list \<Rightarrow> bson list server" where
  "both_accept is = concurrent_run demo is [accept_ride_with_1 ''1'', accept_ride_with_1 ''2''] two_orders"

lemma good_two_orders: "good_start (server_db two_orders)"
  using run_good [OF good_start_empty] by (simp add: two_orders_def demo_start_def)

theorem concurrent_accepts_exclude_witness:
  "map rr_status (rides (server_db (both_accept [0, 1, 1, 0, 1, 0]))) = [''searching'', ''accepted''] \<and>
   (dr_status (hd (drivers (server_db (both_accept [0, 1, 1, 0, 1, 0])))) = ''busy'' \<longleftrightarrow>
    (\<exists>r\<in>set (rides (server_db (both_accept [0, 1, 1, 0, 1, 0]))).
       rr_status r = ''accepted'' \<and>
       rr_driver_id r = Some (dr_id (hd (drivers (server_db (both_accept [0, 1, 1, 0, 1, 0])))))))"
proof
  show "map rr_status (rides (server_db (both_accept [0, 1, 1, 0, 1, 0]))) = [''searching'', ''accepted'']"
    by code_simp
  have "map dr_status (drivers (server_db (both_accept [0, 1, 1, 0, 1, 0]))) = [''busy'']" by code_simp
  then have "hd (drivers (server_db (both_accept [0, 1, 1, 0, 1, 0]))) \<in>
      set (drivers (server_db (both_accept [0, 1, 1, 0, 1, 0])))"
    by (intro hd_in_set) auto
  with concurrent_accepts_exclude [OF good_two_orders] show
    "dr_status (hd (drivers (server_db (both_accept [0, 1, 1, 0, 1, 0])))) = ''busy'' \<longleftrightarrow>
    (\<exists>r\<in>set (rides (server_db (both_accept [0, 1, 1, 0, 1, 0]))).
       rr_status r = ''accepted'' \<and>
       rr_driver_id r = Some (dr_id (hd (drivers (server_db (both_accept [0, 1, 1, 0, 1, 0]))))))"
    unfolding both_accept_def by blast
qed


text \<open>Requests that write are serializable, with exactly the answers of the serial order.\<close>

theorem concurrent_writes_serializable:
  "\<exists>js. distinct js \<and> set js \<subseteq> {..<length ops} \<and>
     server_storage (concurrent_run pf is ops s) = server_storage (server_run pf (map ((!) ops) js) s) \<and>
     (\<forall>j<length ops. \<forall>r. is_write pf (snd (ops ! j)) \<and> fst (schedule is (pool_of pf ops s)) ! j = Done r \<longrightarrow>
        (\<exists>k<length js. js ! k = j \<and>
          r = fst (handle pf (fst (ops ! j)) (snd (ops ! j)) (server_run pf (map ((!) ops) (take k js)) s))))"
proof -
  obtain js where js: "distinct js" "set js \<subseteq> {..<length ops}"
    and same: "server_shared (concurrent_run pf is ops s) = server_shared (server_run pf (map ((!) ops) js) s)"
    and ans: "\<And>j r. j < length ops \<Longrightarrow> fst (schedule is (pool_of pf ops s)) ! j = Done r \<Longrightarrow> answered_at pf ops s js j r"
    by (rule concurrent_linear [of ops pf "is" s]) blast
  from same have "server_storage (concurrent_run pf is ops s) = server_storage (server_run pf (map ((!) ops) js) s)"
    by (simp add: server_shared_def shared_def server_storage_def)
  moreover have "\<exists>k<length js. js ! k = j \<and>
      r = fst (handle pf (fst (ops ! j)) (snd (ops ! j)) (server_run pf (map ((!) ops) (take k js)) s))"
    if "j < length ops" "is_write pf (snd (ops ! j))" "fst (schedule is (pool_of pf ops s)) ! j = Done r" for j r
    using answered_write [OF ans [OF that(1,3)] that(2)] .
  ultimately show ?thesis using js by blast
qed

theorem concurrent_writes_serializable_witness:
  "\<exists>js. distinct js \<and> set js \<subseteq> {..<2} \<and>
     server_storage (both_accept [0, 1, 1, 0, 1, 0]) = server_storage (server_run demo
       (map ((!) [accept_ride_with_1 ''1'', accept_ride_with_1 ''2'']) js) two_orders) \<and>
     (\<exists>k<length js. js ! k = 1)"
proof -
  let ?ops = "[accept_ride_with_1 ''1'', accept_ride_with_1 ''2'']"
  let ?pool = "fst (schedule [0, 1, 1, 0, 1, 0] (pool_of demo ?ops two_orders))"
  have "case ?pool ! 1 of Done r \<Rightarrow> True | _ \<Rightarrow> False" by code_simp
  then obtain r where ended: "?pool ! 1 = Done r" by (auto split: prog.splits)
  have writes: "is_write demo (snd (?ops ! 1))" by code_simp
  from concurrent_writes_serializable [of ?ops demo "[0, 1, 1, 0, 1, 0]" two_orders] obtain js
    where js: "distinct js" "set js \<subseteq> {..<length ?ops}"
      "server_storage (concurrent_run demo [0, 1, 1, 0, 1, 0] ?ops two_orders) =
        server_storage (server_run demo (map ((!) ?ops) js) two_orders)"
      and answered: "\<forall>j<length ?ops. \<forall>r. is_write demo (snd (?ops ! j)) \<and> ?pool ! j = Done r \<longrightarrow>
        (\<exists>k<length js. js ! k = j \<and> r = fst (handle demo (fst (?ops ! j)) (snd (?ops ! j))
          (server_run demo (map ((!) ?ops) (take k js)) two_orders)))"
    by blast
  from answered ended writes have "\<exists>k<length js. js ! k = 1"
    by (metis One_nat_def length_Cons lessI list.size(3))
  with js show ?thesis by (simp add: both_accept_def numeral_2_eq_2) blast
qed


section \<open>The limit\<close>

text \<open>C20: The limit on the active rides holds for requests at the same time: of all requests for them
  whose clock is in one minute, however many there are and however their actions are interleaved, at
  most as many are answered with 200 as are left of the hundred calls of this minute.\<close>

theorem concurrent_burst_limited:
  assumes "\<forall>op\<in>set ops. asks_active pf (snd op) \<longrightarrow> window_start_at (system_now (fst op)) 60 = w"
  shows "int (card (served pf is ops s)) \<le> max 0 (100 - used_in w (limiter (svc s)))"
  using concurrent_admitted [OF assms, of s "is"] by linarith

text \<open>Ninety-nine calls have been made in the minute, and two more come at the same time.\<close>

definition nearly_full :: "bson list server" where
  "nearly_full = (let s = server_run demo [ann_joins, ann_logs_in] demo_start
     in s\<lparr>svc := (svc s)\<lparr>limiter := \<lparr>buckets = [ACTIVE_RIDES_KEY \<mapsto> \<lparr>window_start = 60, bucket_count = 99\<rparr>]\<rparr>\<rparr>\<rparr>)"

theorem concurrent_burst_limited_witness:
  "int (card (served demo [0, 1, 1, 0, 1, 0, 1, 1, 0] [active_rides 70, active_rides 75] nearly_full)) \<le> 1 \<and>
   map (\<lambda>p. case p of Done (Inr resp) \<Rightarrow> resp_status resp | _ \<Rightarrow> 0)
     (fst (schedule [0, 1, 1, 0, 1, 0, 1, 1, 0] (pool_of demo [active_rides 70, active_rides 75] nearly_full))) = [429, 200]"
proof
  have "window_start_at (system_now (fst (active_rides 70))) 60 = 60"
    "window_start_at (system_now (fst (active_rides 75))) 60 = 60" by code_simp+
  then have "\<forall>op\<in>set [active_rides 70, active_rides 75]. asks_active demo (snd op) \<longrightarrow>
      window_start_at (system_now (fst op)) 60 = 60" by simp
  moreover have "used_in 60 (limiter (svc nearly_full)) = 99" by code_simp
  ultimately show "int (card (served demo [0, 1, 1, 0, 1, 0, 1, 1, 0] [active_rides 70, active_rides 75] nearly_full)) \<le> 1"
    using concurrent_burst_limited [of "[active_rides 70, active_rides 75]" demo 60 "[0, 1, 1, 0, 1, 0, 1, 1, 0]" nearly_full]
    by simp
  show "map (\<lambda>p. case p of Done (Inr resp) \<Rightarrow> resp_status resp | _ \<Rightarrow> 0)
     (fst (schedule [0, 1, 1, 0, 1, 0, 1, 1, 0] (pool_of demo [active_rides 70, active_rides 75] nearly_full))) = [429, 200]"
    by code_simp
qed

section \<open>Progress\<close>

text \<open>Under every schedule a ride only moves forward and keeps its driver, and a token that is
  valid stays valid.\<close>

theorem concurrent_progress_is_kept:
  assumes "dispatch_wf (server_db s)" and "ride_phase (show_board (server_db s)) i = Some p"
    and "tokens_inv (server_storage s)" and "IsTokenValid (server_storage s) t"
  shows "(\<exists>q. ride_phase (show_board (server_db (concurrent_run pf is ops s))) i = Some q \<and>
      phase_stage p \<le> phase_stage q \<and> (phase_driver p \<noteq> None \<longrightarrow> phase_driver q = phase_driver p)) \<and>
    IsTokenValid (server_storage (concurrent_run pf is ops s)) t"
proof
  have "board_inv (ride_at_least i p) (server_storage s)"
    using assms(1,2) by (simp add: board_inv_def ride_at_least_def server_db_storage)
  from ride_sched.concurrent_keeps [OF this, of ops pf "is"]
  show "\<exists>q. ride_phase (show_board (server_db (concurrent_run pf is ops s))) i = Some q \<and>
      phase_stage p \<le> phase_stage q \<and> (phase_driver p \<noteq> None \<longrightarrow> phase_driver q = phase_driver p)"
    by (simp add: board_inv_def ride_at_least_def phase_le_def server_db_storage)
  have "token_known t (server_storage s)" using assms(3,4) by (simp add: token_known_def)
  from token_sched.concurrent_keeps [OF this, of ops pf "is"]
  show "IsTokenValid (server_storage (concurrent_run pf is ops s)) t" by (simp add: token_known_def)
qed

theorem concurrent_progress_is_kept_witness:
  "\<exists>q. ride_phase (show_board (server_db (both_accept [0, 1, 1, 0]))) 2 = Some q \<and> StageSearching \<le> phase_stage q"
proof -
  have wf: "dispatch_wf (server_db two_orders)"
    using good_two_orders by (simp add: good_start_def)
  have ph: "ride_phase (show_board (server_db two_orders)) 2 = Some Searching" by code_simp
  have inv: "tokens_inv (server_storage two_orders)"
    unfolding two_orders_def demo_start_def by (rule run_tokens_inv)
  have tok: "IsTokenValid (server_storage two_orders) ann_token" by code_simp
  from concurrent_progress_is_kept [OF wf ph inv tok] show ?thesis
    unfolding both_accept_def by fastforce
qed

section \<open>The cache\<close>

text \<open>C12: Whatever requests ran at the same time up to a time, in whatever order their actions came
  and whatever faults they met, sixty seconds later a request is answered as without the cache, as long as
  the requests since then came one after the other and no write of theirs lost its connection.\<close>

theorem concurrent_stale_at_most_a_minute:
  assumes "\<forall>op\<in>set ops1. steady_set (fst op) \<le> \<tau>" and "\<forall>op\<in>set ops2. settled lower (fst op)"
    and "faultless lower (\<tau> + 60 * SECOND) env"
  shows "answer (fst (handle pf env req (server_run pf ops2 (concurrent_run pf is ops1 (server_init db m))))) =
    answer (fst (handle pf env req (server_clear (server_run pf ops2 (concurrent_run pf is ops1 (server_init db m))))))"
proof -
  let ?T = "\<tau> + 60 * SECOND"
  have "server_coherent (pf_json pf) lower ?T (concurrent_run pf is ops1 (server_init db m))"
    using assms(1) by (intro concurrent_heals) (auto simp: server_init_def expires_by_init)
  from server_run_coherent [OF this assms(2)]
  have "server_coherent (pf_json pf) lower ?T (server_run pf ops2 (concurrent_run pf is ops1 (server_init db m)))" .
  with handle_transparent [of pf env ?T _ req] assms(3) show ?thesis by (simp add: faultless_def)
qed

text \<open>
  A reader of the active rides misses and queries; the accept of the ride commits and
  invalidates; then the reader inserts its body.
\<close>

definition overtaken_reader :: "bson list server" where
  "overtaken_reader = concurrent_run demo [0, 0, 0, 0, 1, 1, 1, 0] [active_rides 5, ride_accepted NoFault]
     (server_run demo (take 4 demo_day) demo_start)"


text \<open>The minute after which the stale list is gone, on the same schedule.\<close>

theorem concurrent_stale_at_most_a_minute_witness:
  "answer (fst (handle demo (fst (active_rides 70)) (snd (active_rides 70)) (server_run demo [ann_logs_in]
     (concurrent_run demo [2, 2, 1, 0, 0, 0] [ann_joins, ann_logs_in, active_rides 5] demo_start)))) =
   answer (fst (handle demo (fst (active_rides 70)) (snd (active_rides 70)) (server_clear (server_run demo [ann_logs_in]
     (concurrent_run demo [2, 2, 1, 0, 0, 0] [ann_joins, ann_logs_in, active_rides 5] demo_start)))))"
  unfolding demo_start_def
  by (rule concurrent_stale_at_most_a_minute [where lower = "\<lambda>s. s" and \<tau> = "6 * SECOND"])
    (simp_all add: demo_defs demo_env_def faultless_def settled_def)

section \<open>Users in MongoDB\<close>

definition bob_joins :: "string \<Rightarrow> operation" where
  "bob_joins first_name = (demo_env 1 NoFault,
     demo_req ''POST'' ''/mongo/users'' [] [] []
       (''login=bob&password=secret&last_name=Roe&first_name='' @ first_name))"

definition logins_in :: "bson list \<Rightarrow> bson option list" where
  "logins_in = map (\<lambda>d. doc_member d ''login'')"

text \<open>The check for a taken login in MongoDB does not exclude two requests: when both look for
  the login before either inserts, both are answered with 201 and the collection has two documents with
  that login, while one after the other the second is answered with 409.\<close>

theorem concurrent_mongo_duplicates:
  "map (\<lambda>p. case p of Done (Inr resp) \<Rightarrow> resp_status resp | _ \<Rightarrow> 0)
     (fst (schedule [0, 1, 0, 1] (pool_of demo [bob_joins ''Bob'', bob_joins ''Rob''] demo_start))) = [201, 201] \<and>
   logins_in (mongo_users (concurrent_run demo [0, 1, 0, 1] [bob_joins ''Bob'', bob_joins ''Rob''] demo_start)) =
     [Some (BStr ''bob''), Some (BStr ''bob'')] \<and>
   map (\<lambda>p. case p of Done (Inr resp) \<Rightarrow> resp_status resp | _ \<Rightarrow> 0)
     (fst (schedule (in_order 2) (pool_of demo [bob_joins ''Bob'', bob_joins ''Rob''] demo_start))) = [201, 409] \<and>
   logins_in (mongo_users (concurrent_run demo (in_order 2) [bob_joins ''Bob'', bob_joins ''Rob''] demo_start)) =
     [Some (BStr ''bob'')]"
  by code_simp

end
