(* ===== verification/EventService.thy ===== *)
theory EventService
  imports Dispatch CppStd "HOL-Library.AList"
begin

text \<open>
  The event service in Python (\<open>event_service\<close>): the producer's events and the consumer that
  keeps a read model of the rides in a JSON file. The broker is not part of the repository: the
  consumer is a function of the deliveries it is given. A message is what \<open>json.loads\<close> makes of its
  body, or nothing when that raises; every exception of the consumer ends in a negative
  acknowledgement that asks for the message again.
\<close>

section \<open>Values of Python\<close>

text \<open>
  What \<open>json.loads\<close> yields. Texts are lists of bytes as elsewhere, a floating point number is kept as
  the text \<open>repr\<close> gives it, and a \<open>dict\<close> is the list of its items in the order of insertion.
\<close>

datatype pyval =
    PNone
  | PBool bool
  | PInt int
  | PFloat string
  | PStr string
  | PList "pyval list"
  | PDict "(string \<times> pyval) list"

type_synonym dict = "(string \<times> pyval) list"

text \<open>\<open>str\<close>; the representation of lists and dictionaries is an argument.\<close>

definition py_str :: "(pyval \<Rightarrow> string) \<Rightarrow> pyval \<Rightarrow> string" where
  "py_str rep v =
     (case v of
        PNone \<Rightarrow> ''None''
      | PBool b \<Rightarrow> if b then ''True'' else ''False''
      | PInt i \<Rightarrow> std_to_string i
      | PFloat t \<Rightarrow> t
      | PStr s \<Rightarrow> s
      | _ \<Rightarrow> rep v)"

text \<open>\<open>d.update(e)\<close>, item by item.\<close>

definition dict_update :: "dict \<Rightarrow> dict \<Rightarrow> dict" where
  "dict_update d e = fold (\<lambda>(k, v). AList.update k v) e d"

text \<open>\<open>xs[-n:]\<close>.\<close>

definition take_last :: "nat \<Rightarrow> 'a list \<Rightarrow> 'a list" where
  "take_last n xs = drop (length xs - n) xs"

section \<open>The producer\<close>

record producer_args =
  arg_user_id :: int
  arg_driver_id :: int
  arg_ride_id :: int
  arg_login :: string
  arg_full_name :: string
  arg_car_model :: string
  arg_car_number :: string
  arg_from_address :: string
  arg_to_address :: string
  arg_price :: string

text \<open>The payload of an event; an unsupported type raises.\<close>

definition event_payload :: "string \<Rightarrow> producer_args \<Rightarrow> dict option" where
  "event_payload ty args =
     (if ty = ''user.created''
      then Some [(''user_id'', PInt (arg_user_id args)), (''login'', PStr (arg_login args)),
                 (''full_name'', PStr (arg_full_name args))]
      else if ty = ''driver.registered''
      then Some [(''driver_id'', PInt (arg_driver_id args)), (''user_id'', PInt (arg_user_id args)),
                 (''car_model'', PStr (arg_car_model args)), (''car_number'', PStr (arg_car_number args))]
      else if ty = ''ride.created''
      then Some [(''ride_id'', PInt (arg_ride_id args)), (''user_id'', PInt (arg_user_id args)),
                 (''from_address'', PStr (arg_from_address args)),
                 (''to_address'', PStr (arg_to_address args)), (''status'', PStr ''active'')]
      else if ty = ''ride.accepted''
      then Some [(''ride_id'', PInt (arg_ride_id args)), (''driver_id'', PInt (arg_driver_id args)),
                 (''status'', PStr ''accepted'')]
      else if ty = ''ride.completed''
      then Some [(''ride_id'', PInt (arg_ride_id args)), (''driver_id'', PInt (arg_driver_id args)),
                 (''user_id'', PInt (arg_user_id args)), (''status'', PStr ''completed''),
                 (''price'', PFloat (arg_price args))]
      else None)"

text \<open>The event around a payload, at a time in milliseconds whose ISO text is \<open>now\<close>.\<close>

definition make_event :: "int \<Rightarrow> string \<Rightarrow> string \<Rightarrow> dict \<Rightarrow> pyval" where
  "make_event ms now ty payload =
     PDict [(''event_id'', PStr (ty @ ''-'' @ std_to_string ms)), (''event_type'', PStr ty),
            (''occurred_at'', PStr now), (''source'', PStr ''taxi-service''), (''payload'', PDict payload)]"

section \<open>The read model\<close>

record read_model =
  rm_active_rides :: "(string \<times> dict) list"
  rm_accepted_rides :: "(string \<times> dict) list"
  rm_completed_rides :: "(string \<times> dict) list"
  rm_last_events :: "pyval list"

definition empty_model :: read_model where
  "empty_model = \<lparr>rm_active_rides = [], rm_accepted_rides = [], rm_completed_rides = [], rm_last_events = []\<rparr>"

text \<open>
  The file: there is none yet, it holds a model, or it holds a part of one, because the process
  ended while it wrote.
\<close>

datatype model_file = Missing | Saved read_model | Damaged

fun load_read_model :: "model_file \<Rightarrow> read_model option" where
  "load_read_model Missing = Some empty_model"
| "load_read_model (Saved m) = Some m"
| "load_read_model Damaged = None"

text \<open>\<open>model[a].pop(i, {})\<close>.\<close>

definition popped :: "string \<Rightarrow> (string \<times> dict) list \<Rightarrow> dict" where
  "popped i rides = (case map_of rides i of None \<Rightarrow> [] | Some ride \<Rightarrow> ride)"

text \<open>\<open>str(payload["ride_id"])\<close> with the payload, which must be a \<open>dict\<close>.\<close>

definition ride_key :: "(pyval \<Rightarrow> string) \<Rightarrow> pyval \<Rightarrow> (string \<times> dict) option" where
  "ride_key rep payload =
     (case payload of
        PDict d \<Rightarrow> (case map_of d ''ride_id'' of None \<Rightarrow> None | Some v \<Rightarrow> Some (py_str rep v, d))
      | _ \<Rightarrow> None)"

definition ride_created :: "string \<Rightarrow> dict \<Rightarrow> read_model \<Rightarrow> read_model" where
  "ride_created i d m = m\<lparr>rm_active_rides := AList.update i d (rm_active_rides m)\<rparr>"

definition ride_accepted_event :: "string \<Rightarrow> dict \<Rightarrow> read_model \<Rightarrow> read_model" where
  "ride_accepted_event i d m =
     m\<lparr>rm_active_rides := AList.delete i (rm_active_rides m),
       rm_accepted_rides := AList.update i (dict_update (popped i (rm_active_rides m)) d) (rm_accepted_rides m)\<rparr>"

definition ride_completed_event :: "string \<Rightarrow> dict \<Rightarrow> read_model \<Rightarrow> read_model" where
  "ride_completed_event i d m =
     m\<lparr>rm_accepted_rides := AList.delete i (rm_accepted_rides m),
       rm_completed_rides := AList.update i (dict_update (popped i (rm_accepted_rides m)) d) (rm_completed_rides m)\<rparr>"

definition apply_event :: "(pyval \<Rightarrow> string) \<Rightarrow> string \<Rightarrow> pyval \<Rightarrow> read_model \<Rightarrow> read_model option" where
  "apply_event rep ty payload m =
     (if ty = ''ride.created''
      then map_option (\<lambda>(i, d). ride_created i d m) (ride_key rep payload)
      else if ty = ''ride.accepted''
      then map_option (\<lambda>(i, d). ride_accepted_event i d m) (ride_key rep payload)
      else if ty = ''ride.completed''
      then map_option (\<lambda>(i, d). ride_completed_event i d m) (ride_key rep payload)
      else Some m)"

definition log_event :: "string \<Rightarrow> pyval \<Rightarrow> pyval \<Rightarrow> read_model \<Rightarrow> read_model" where
  "log_event ty event_id occurred_at m =
     m\<lparr>rm_last_events := take_last 20 (rm_last_events m @
         [PDict [(''event_type'', PStr ty), (''event_id'', event_id), (''occurred_at'', occurred_at)]])\<rparr>"

text \<open>\<open>update_read_model\<close>; nothing is saved when it raises.\<close>

definition update_read_model :: "(pyval \<Rightarrow> string) \<Rightarrow> string \<Rightarrow> pyval \<Rightarrow> dict \<Rightarrow> model_file \<Rightarrow> model_file option" where
  "update_read_model rep ty payload event disk =
     (case load_read_model disk of
        None \<Rightarrow> None
      | Some m \<Rightarrow>
          (case apply_event rep ty payload m of
             None \<Rightarrow> None
           | Some m' \<Rightarrow>
               (case (map_of event ''event_id'', map_of event ''occurred_at'') of
                  (Some event_id, Some occurred_at) \<Rightarrow> Some (Saved (log_event ty event_id occurred_at m'))
                | _ \<Rightarrow> None)))"

section \<open>The consumer\<close>

datatype answer_to_broker = Ack | NackRequeue

type_synonym message = "pyval option"

definition handle_message :: "(pyval \<Rightarrow> string) \<Rightarrow> message \<Rightarrow> model_file \<Rightarrow> answer_to_broker \<times> model_file" where
  "handle_message rep msg disk =
     (case msg of
        Some (PDict event) \<Rightarrow>
          (case (map_of event ''event_type'', map_of event ''payload'') of
             (Some (PStr ty), Some payload) \<Rightarrow>
               if prefix ''ride.'' ty
               then (case update_read_model rep ty payload event disk of
                       None \<Rightarrow> (NackRequeue, disk)
                     | Some disk' \<Rightarrow> (Ack, disk'))
               else (Ack, disk)
           | _ \<Rightarrow> (NackRequeue, disk))
      | _ \<Rightarrow> (NackRequeue, disk))"

text \<open>The answers to a list of deliveries, and the file after them.\<close>

fun consume :: "(pyval \<Rightarrow> string) \<Rightarrow> message list \<Rightarrow> model_file \<Rightarrow> answer_to_broker list \<times> model_file" where
  "consume rep [] disk = ([], disk)"
| "consume rep (msg # msgs) disk =
     (let (a, disk') = handle_message rep msg disk;
          (as, disk'') = consume rep msgs disk'
      in (a # as, disk''))"

end
