(* ===== verification/EventProperties.thy ===== *)
theory EventProperties
  imports EventService
begin

text \<open>
  The read model of the rides against an abstract view of them, the deliveries with crashes of the
  consumer, and what happens to messages that cannot be processed or come again.
\<close>

section \<open>Lemmas on the operations\<close>

lemma map_of_dict_update:
  "distinct (map fst e) \<Longrightarrow> map_of (dict_update d e) = map_of d ++ map_of e"
  unfolding dict_update_def
proof (induction e arbitrary: d)
  case (Cons kv e)
  obtain k v where kv: "kv = (k, v)" by fastforce
  with Cons.prems have "map_of e k = None" by (auto simp: map_of_eq_None_iff)
  with kv Cons show ?case by (auto simp: update_conv' map_add_def fun_eq_iff split: option.split)
qed simp

lemma length_take_last [simp]: "length (take_last n xs) \<le> n"
  by (simp add: take_last_def)

lemmas section_defs = ride_created_def ride_accepted_event_def ride_completed_event_def

lemma log_event_sections [simp]:
  "rm_active_rides (log_event ty a b m) = rm_active_rides m"
  "rm_accepted_rides (log_event ty a b m) = rm_accepted_rides m"
  "rm_completed_rides (log_event ty a b m) = rm_completed_rides m"
  by (simp_all add: log_event_def)

lemma update_read_model_Some:
  assumes "update_read_model rep ty payload event disk = Some disk'"
  obtains m m' a b where "load_read_model disk = Some m" "apply_event rep ty payload m = Some m'"
    "disk' = Saved (log_event ty a b m')"
  using assms by (auto simp: update_read_model_def split: option.splits)

lemma handle_message_disj:
  "handle_message rep msg disk = (NackRequeue, disk) \<or> handle_message rep msg disk = (Ack, disk) \<or>
   (\<exists>ty payload event disk'. update_read_model rep ty payload event disk = Some disk' \<and>
      handle_message rep msg disk = (Ack, disk'))"
  unfolding handle_message_def by (auto split: option.split pyval.split)

lemma handle_message_cases:
  obtains (Nacked) "handle_message rep msg disk = (NackRequeue, disk)"
    | (Ignored) "handle_message rep msg disk = (Ack, disk)"
    | (Updated) ty payload event disk' where "update_read_model rep ty payload event disk = Some disk'"
        "handle_message rep msg disk = (Ack, disk')"
  using handle_message_disj [of rep msg disk] by blast

lemma handle_message_produced:
  "handle_message rep (Some (make_event ms now ty payload)) disk =
     (if prefix ''ride.'' ty
      then (case load_read_model disk of
              None \<Rightarrow> (NackRequeue, disk)
            | Some m \<Rightarrow>
                (case apply_event rep ty (PDict payload) m of
                   None \<Rightarrow> (NackRequeue, disk)
                 | Some m' \<Rightarrow> (Ack, Saved (log_event ty (PStr (ty @ ''-'' @ std_to_string ms)) (PStr now) m'))))
      else (Ack, disk))"
  by (simp add: handle_message_def make_event_def update_read_model_def split: option.split)

section \<open>The abstract view of the rides\<close>

text \<open>The stage of each ride and the fields the events have given it.\<close>

type_synonym rides_view = "string \<Rightarrow> (ride_stage \<times> (string \<Rightarrow> pyval option)) option"

fun view_step :: "string \<times> string \<times> dict \<Rightarrow> rides_view \<Rightarrow> rides_view option" where
  "view_step (ty, i, d) v =
     (if ty = ''ride.created'' then
        (case v i of None \<Rightarrow> Some (v(i \<mapsto> (StageSearching, map_of d))) | Some _ \<Rightarrow> None)
      else if ty = ''ride.accepted'' then
        (case v i of Some (StageSearching, f) \<Rightarrow> Some (v(i \<mapsto> (StageAccepted, f ++ map_of d))) | _ \<Rightarrow> None)
      else if ty = ''ride.completed'' then
        (case v i of Some (StageAccepted, f) \<Rightarrow> Some (v(i \<mapsto> (StageClosed, f ++ map_of d))) | _ \<Rightarrow> None)
      else None)"

text \<open>The event of a ride that a message carries; a \<open>dict\<close> has each key once.\<close>

definition ride_event_of :: "(pyval \<Rightarrow> string) \<Rightarrow> message \<Rightarrow> (string \<times> string \<times> dict) option" where
  "ride_event_of rep msg =
     (case msg of
        Some (PDict event) \<Rightarrow>
          (case (map_of event ''event_type'', map_of event ''payload'', map_of event ''event_id'',
                 map_of event ''occurred_at'') of
             (Some (PStr ty), Some payload, Some _, Some _) \<Rightarrow>
               (case ride_key rep payload of
                  None \<Rightarrow> None
                | Some (i, d) \<Rightarrow> if distinct (map fst d) then Some (ty, i, d) else None)
           | _ \<Rightarrow> None)
      | _ \<Rightarrow> None)"

text \<open>The view after messages that report the life of each ride in order.\<close>

fun view_run :: "(pyval \<Rightarrow> string) \<Rightarrow> message list \<Rightarrow> rides_view \<Rightarrow> rides_view option" where
  "view_run rep [] v = Some v"
| "view_run rep (msg # msgs) v =
     (case ride_event_of rep msg of
        None \<Rightarrow> None
      | Some ev \<Rightarrow> (case view_step ev v of None \<Rightarrow> None | Some v' \<Rightarrow> view_run rep msgs v'))"

definition rides_view :: "read_model \<Rightarrow> rides_view" where
  "rides_view m i =
     (case map_of (rm_active_rides m) i of
        Some d \<Rightarrow> Some (StageSearching, map_of d)
      | None \<Rightarrow>
          (case map_of (rm_accepted_rides m) i of
             Some d \<Rightarrow> Some (StageAccepted, map_of d)
           | None \<Rightarrow> map_option (\<lambda>d. (StageClosed, map_of d)) (map_of (rm_completed_rides m) i)))"

definition one_section :: "read_model \<Rightarrow> bool" where
  "one_section m \<longleftrightarrow>
     (\<forall>i. (map_of (rm_active_rides m) i \<noteq> None \<longrightarrow> map_of (rm_accepted_rides m) i = None \<and> map_of (rm_completed_rides m) i = None) \<and>
          (map_of (rm_accepted_rides m) i \<noteq> None \<longrightarrow> map_of (rm_completed_rides m) i = None))"

lemma one_section_empty: "one_section empty_model" "rides_view empty_model = Map.empty"
  by (simp_all add: one_section_def empty_model_def rides_view_def fun_eq_iff)

lemma log_event_view [simp]:
  "rides_view (log_event ty a b m) = rides_view m" "one_section (log_event ty a b m) = one_section m"
  by (simp_all add: rides_view_def one_section_def fun_eq_iff split: option.split)

lemma ride_created_view:
  assumes "one_section m" and "rides_view m i = None"
  shows "one_section (ride_created i d m) \<and>
    rides_view (ride_created i d m) = (rides_view m)(i \<mapsto> (StageSearching, map_of d))"
  using assms
  by (auto simp: one_section_def rides_view_def ride_created_def update_conv' fun_eq_iff
      split: option.splits)

lemma ride_accepted_view:
  assumes "one_section m" and "rides_view m i = Some (StageSearching, f)" and "distinct (map fst d)"
  shows "one_section (ride_accepted_event i d m) \<and>
    rides_view (ride_accepted_event i d m) = (rides_view m)(i \<mapsto> (StageAccepted, f ++ map_of d))"
proof -
  from assms(1,2) obtain r where "map_of (rm_active_rides m) i = Some r" "f = map_of r"
    "map_of (rm_completed_rides m) i = None"
    by (auto simp: one_section_def rides_view_def split: option.splits)
  with assms(1,3) show ?thesis
    by (auto simp: one_section_def rides_view_def ride_accepted_event_def popped_def update_conv'
        delete_conv' map_of_dict_update map_add_def fun_eq_iff split: option.splits)
qed

lemma ride_completed_view:
  assumes "one_section m" and "rides_view m i = Some (StageAccepted, f)" and "distinct (map fst d)"
  shows "one_section (ride_completed_event i d m) \<and>
    rides_view (ride_completed_event i d m) = (rides_view m)(i \<mapsto> (StageClosed, f ++ map_of d))"
proof -
  from assms(1,2) obtain r where "map_of (rm_accepted_rides m) i = Some r" "f = map_of r"
    "map_of (rm_active_rides m) i = None"
    by (auto simp: one_section_def rides_view_def split: option.splits)
  with assms(1,3) show ?thesis
    by (auto simp: one_section_def rides_view_def ride_completed_event_def popped_def update_conv'
        delete_conv' map_of_dict_update map_add_def fun_eq_iff split: option.splits)
qed

lemma view_step_apply:
  assumes "ride_key rep payload = Some (i, d)" and "distinct (map fst d)"
    and "view_step (ty, i, d) (rides_view m) = Some v" and "one_section m"
  obtains m' where "apply_event rep ty payload m = Some m'" "one_section m'" "rides_view m' = v"
    "prefix ''ride.'' ty"
  using assms ride_created_view [of m i d] ride_accepted_view [of m i _ d] ride_completed_view [of m i _ d]
  by (auto simp: apply_event_def split: if_splits option.splits prod.splits ride_stage.splits)

lemma handle_message_view:
  assumes "load_read_model disk = Some m" and "one_section m"
    and "ride_event_of rep msg = Some ev" and "view_step ev (rides_view m) = Some v"
  obtains m' where "handle_message rep msg disk = (Ack, Saved m')" "one_section m'" "rides_view m' = v"
proof -
  from assms(3) obtain event ty payload a b i d where msg: "msg = Some (PDict event)"
    and fields: "map_of event ''event_type'' = Some (PStr ty)" "map_of event ''payload'' = Some payload"
      "map_of event ''event_id'' = Some a" "map_of event ''occurred_at'' = Some b"
    and key: "ride_key rep payload = Some (i, d)" "distinct (map fst d)" and ev: "ev = (ty, i, d)"
    by (auto simp: ride_event_of_def split: option.splits pyval.splits prod.splits if_splits)
  from view_step_apply [OF key assms(4) [unfolded ev] assms(2)] obtain m'
    where "apply_event rep ty payload m = Some m'" "one_section m'" "rides_view m' = v" "prefix ''ride.'' ty" .
  with assms(1) msg fields that [of "log_event ty a b m'"] show thesis
    by (simp add: handle_message_def update_read_model_def)
qed

lemma consume_view:
  assumes "load_read_model disk = Some m" and "one_section m" and "view_run rep msgs (rides_view m) = Some v"
  shows "\<exists>disk' m'. consume rep msgs disk = (replicate (length msgs) Ack, disk') \<and>
    load_read_model disk' = Some m' \<and> one_section m' \<and> rides_view m' = v"
  using assms
proof (induction msgs arbitrary: disk m)
  case Nil
  then show ?case by auto
next
  case (Cons msg msgs)
  from Cons.prems(3) obtain ev v' where ev: "ride_event_of rep msg = Some ev"
    "view_step ev (rides_view m) = Some v'" and rest: "view_run rep msgs v' = Some v"
    by (auto split: option.splits)
  from handle_message_view [OF Cons.prems(1,2) ev] obtain m'
    where run: "handle_message rep msg disk = (Ack, Saved m')" and m': "one_section m'" "rides_view m' = v'" .
  from Cons.IH [of "Saved m'" m'] m' rest obtain disk' m'' where
    "consume rep msgs (Saved m') = (replicate (length msgs) Ack, disk')"
    "load_read_model disk' = Some m''" "one_section m''" "rides_view m'' = v"
    by auto
  with run show ?case by auto
qed

section \<open>Deliveries with crashes\<close>

text \<open>
  A delivery is handled, or the process ends before it saves, while it saves, or after it saved and
  before the broker hears of it; then the message comes again.
\<close>

inductive delivery :: "(pyval \<Rightarrow> string) \<Rightarrow> model_file \<Rightarrow> model_file \<Rightarrow> bool" for rep where
  handled: "handle_message rep msg disk = (a, disk') \<Longrightarrow> delivery rep disk disk'"
| ended_before: "delivery rep disk disk"
| ended_while_saving:
    "update_read_model rep ty payload event disk = Some disk' \<Longrightarrow> delivery rep disk Damaged"
| ended_before_ack: "handle_message rep msg disk = (Ack, disk') \<Longrightarrow> delivery rep disk disk'"

inductive_cases deliveryE: "delivery rep disk disk'"

definition short_log :: "model_file \<Rightarrow> bool" where
  "short_log disk \<longleftrightarrow> (\<forall>m. load_read_model disk = Some m \<longrightarrow> length (rm_last_events m) \<le> 20)"

lemma handle_message_short_log:
  assumes "short_log disk" and "handle_message rep msg disk = (a, disk')"
  shows "short_log disk'"
proof (cases rule: handle_message_cases [of rep msg disk])
  case (Updated ty payload event disk'')
  with assms(2) show ?thesis
    by (auto simp: short_log_def log_event_def elim!: update_read_model_Some)
qed (use assms in simp_all)

lemma delivery_short_log: "delivery rep disk disk' \<Longrightarrow> short_log disk \<Longrightarrow> short_log disk'"
  by (erule deliveryE) (auto dest: handle_message_short_log simp: short_log_def [of Damaged])

lemma reachable_short_log: "(delivery rep)\<^sup>*\<^sup>* disk disk' \<Longrightarrow> short_log disk \<Longrightarrow> short_log disk'"
  by (induction rule: rtranclp_induct) (auto dest: delivery_short_log)

section \<open>Properties\<close>

text \<open>The life of one ride as the producer reports it.\<close>

definition demo_args :: producer_args where
  "demo_args = \<lparr>arg_user_id = 1, arg_driver_id = 10, arg_ride_id = 100, arg_login = ''anna'',
     arg_full_name = ''Anna Yakushina'', arg_car_model = ''Kia Rio'', arg_car_number = ''B777AA'',
     arg_from_address = ''MAI'', arg_to_address = ''Sokol'', arg_price = ''420.0''\<rparr>"

definition produced :: "string \<Rightarrow> producer_args \<Rightarrow> message" where
  "produced ty args = map_option (make_event 0 ''now'' ty) (event_payload ty args)"

definition str_of_lists :: "pyval \<Rightarrow> string" where
  "str_of_lists v = []"

text \<open>C27: The read model follows the rides: when the delivered messages report the life of each ride
  in order (created, accepted, completed, each once), all of them are acknowledged, each ride is
  in exactly the section of its last event, and its entry has the fields of all its events, the later
  ones first.\<close>

theorem read_model_follows_rides:
  assumes "view_run rep msgs Map.empty = Some v"
  shows "\<exists>disk m. consume rep msgs Missing = (replicate (length msgs) Ack, disk) \<and>
    load_read_model disk = Some m \<and> one_section m \<and> rides_view m = v"
  using consume_view [of Missing empty_model rep msgs v] assms by (simp add: one_section_empty)

theorem read_model_follows_rides_witness:
  "\<exists>disk m. consume str_of_lists [produced ''ride.created'' demo_args, produced ''ride.accepted'' demo_args] Missing =
      ([Ack, Ack], disk) \<and> load_read_model disk = Some m \<and> one_section m \<and>
    map_option fst (rides_view m ''100'') = Some StageAccepted"
proof -
  let ?msgs = "[produced ''ride.created'' demo_args, produced ''ride.accepted'' demo_args]"
  have "map_option (\<lambda>v. map_option fst (v ''100'')) (view_run str_of_lists ?msgs Map.empty) =
      Some (Some StageAccepted)" by code_simp
  then obtain v where v: "view_run str_of_lists ?msgs Map.empty = Some v"
    "map_option fst (v ''100'') = Some StageAccepted" by auto
  from read_model_follows_rides [OF v(1)] v(2) show ?thesis by auto
qed

text \<open>The log of the read model never holds more than twenty events, whatever messages are
  delivered, however often, and whenever the consumer crashes.\<close>

theorem event_log_bounded:
  assumes "(delivery rep)\<^sup>*\<^sup>* Missing disk" and "load_read_model disk = Some m"
  shows "length (rm_last_events m) \<le> 20"
proof -
  have "short_log Missing" by (simp add: short_log_def empty_model_def)
  from reachable_short_log [OF assms(1) this] assms(2) show ?thesis by (simp add: short_log_def)
qed

theorem event_log_bounded_witness:
  "\<exists>m. load_read_model (snd (handle_message str_of_lists (produced ''ride.created'' demo_args) Missing)) = Some m \<and>
     length (rm_last_events m) = 1 \<and> length (rm_last_events m) \<le> 20"
proof -
  let ?disk = "snd (handle_message str_of_lists (produced ''ride.created'' demo_args) Missing)"
  have "delivery str_of_lists Missing ?disk" by (rule delivery.handled [OF prod.collapse [symmetric]])
  then have reach: "(delivery str_of_lists)\<^sup>*\<^sup>* Missing ?disk" ..
  have "map_option (\<lambda>m. length (rm_last_events m)) (load_read_model ?disk) = Some 1" by code_simp
  then obtain m where m: "load_read_model ?disk = Some m" "length (rm_last_events m) = 1" by auto
  with event_log_bounded [OF reach m(1)] show ?thesis by blast
qed

text \<open>Asking for a message again never helps: a message that is refused while the file is intact
  leaves the file as it is and is refused at every later delivery, whatever happened in between, so it
  comes back without end.\<close>

theorem refused_message_never_accepted:
  assumes "handle_message rep msg disk = (NackRequeue, disk')" and "disk \<noteq> Damaged"
  shows "disk' = disk \<and> fst (handle_message rep msg later) = NackRequeue"
proof
  show "disk' = disk"
    using handle_message_disj [of rep msg disk] assms(1) by auto
  have loads: "load_read_model disk \<noteq> None" using assms(2) by (cases disk) simp_all
  have "update_read_model rep ty payload event later = None"
    if "update_read_model rep ty payload event disk = None" for ty payload event
    using that loads
    by (auto simp: update_read_model_def apply_event_def split: option.splits if_splits)
  with assms(1) show "fst (handle_message rep msg later) = NackRequeue"
    by (auto simp: handle_message_def split: option.splits pyval.splits if_splits)
qed

theorem refused_message_never_accepted_witness:
  "fst (handle_message str_of_lists (Some (PDict [(''event_type'', PStr ''ride.created'')])) Missing) = NackRequeue \<and>
   fst (handle_message str_of_lists (Some (PDict [(''event_type'', PStr ''ride.created'')]))
     (snd (handle_message str_of_lists (produced ''ride.created'' demo_args) Missing))) = NackRequeue"
proof -
  let ?msg = "Some (PDict [(''event_type'', PStr ''ride.created'')])"
  have bad: "handle_message str_of_lists ?msg Missing = (NackRequeue, Missing)" by code_simp
  from refused_message_never_accepted [OF bad] bad show ?thesis by simp
qed

text \<open>A crash while the file is written stops the read model for good: afterwards every event
  of a ride that the producer publishes is refused and comes back, the file stays as it is, and only
  events that are not about rides are still acknowledged.\<close>

theorem damaged_model_stops:
  assumes "event_payload ty args = Some payload"
  shows "handle_message rep (Some (make_event ms now ty payload)) Damaged =
    (if prefix ''ride.'' ty then NackRequeue else Ack, Damaged)"
  by (simp add: handle_message_produced)

theorem damaged_model_stops_witness:
  "delivery str_of_lists Missing Damaged \<and>
   handle_message str_of_lists (Some (make_event 0 ''now'' ''ride.accepted''
     [(''ride_id'', PInt 100), (''driver_id'', PInt 10), (''status'', PStr ''accepted'')])) Damaged =
   (NackRequeue, Damaged)"
proof
  have "update_read_model str_of_lists ''ride.x'' PNone [(''event_id'', PNone), (''occurred_at'', PNone)] Missing =
      Some (Saved (log_event ''ride.x'' PNone PNone empty_model))"
    by (simp add: update_read_model_def apply_event_def)
  then show "delivery str_of_lists Missing Damaged" by (rule delivery.ended_while_saving)
  have args: "event_payload ''ride.accepted'' demo_args =
      Some [(''ride_id'', PInt 100), (''driver_id'', PInt 10), (''status'', PStr ''accepted'')]"
    by code_simp
  from damaged_model_stops [OF args, of str_of_lists 0 "''now''"]
  show "handle_message str_of_lists (Some (make_event 0 ''now'' ''ride.accepted''
     [(''ride_id'', PInt 100), (''driver_id'', PInt 10), (''status'', PStr ''accepted'')])) Damaged =
   (NackRequeue, Damaged)" by simp
qed

text \<open>What the producer publishes the consumer can process: every event it builds is acknowledged
  when the file is intact, and the file is intact afterwards.\<close>

theorem produced_events_acknowledged:
  assumes "event_payload ty args = Some payload" and "disk \<noteq> Damaged"
  shows "\<exists>disk'. handle_message rep (Some (make_event ms now ty payload)) disk = (Ack, disk') \<and> disk' \<noteq> Damaged"
proof -
  from assms(2) obtain m where "load_read_model disk = Some m" by (cases disk) simp_all
  with assms show ?thesis
    by (auto simp: handle_message_produced event_payload_def apply_event_def ride_key_def split: if_splits)
qed

theorem produced_events_acknowledged_witness:
  "\<exists>disk'. handle_message str_of_lists (Some (make_event 0 ''now'' ''user.created''
     [(''user_id'', PInt 1), (''login'', PStr ''anna''), (''full_name'', PStr ''Anna Yakushina'')])) Missing =
   (Ack, disk') \<and> disk' \<noteq> Damaged"
  by (rule produced_events_acknowledged [where args = demo_args])
    (simp_all add: event_payload_def demo_args_def)

text \<open>C39: An event that is delivered twice is not without effect: when the acceptance of an active
  ride comes again, the entry of the ride loses the addresses it had after the first delivery, and when
  its creation comes again after the acceptance the ride is in two sections.\<close>

theorem redelivery_corrupts_read_model:
  assumes "load_read_model disk = Some m" and "i = std_to_string (arg_ride_id args)"
    and "map_of (rm_active_rides m) i = Some ride" and "map_of ride ''from_address'' = Some a"
    and "event_payload ''ride.accepted'' args = Some accepted" and "event_payload ''ride.created'' args = Some created"
  shows "\<exists>m1 m2 m3.
    snd (handle_message rep (Some (make_event ms now ''ride.accepted'' accepted)) disk) = Saved m1 \<and>
    Option.bind (map_of (rm_accepted_rides m1) i) (\<lambda>r. map_of r ''from_address'') = Some a \<and>
    snd (handle_message rep (Some (make_event ms now ''ride.accepted'' accepted)) (Saved m1)) = Saved m2 \<and>
    map_of (rm_accepted_rides m2) i = Some accepted \<and> map_of accepted ''from_address'' = None \<and>
    snd (handle_message rep (Some (make_event ms now ''ride.created'' created)) (Saved m1)) = Saved m3 \<and>
    map_of (rm_active_rides m3) i \<noteq> None \<and> map_of (rm_accepted_rides m3) i \<noteq> None"
proof -
  from assms(5) have acc: "accepted = [(''ride_id'', PInt (arg_ride_id args)), (''driver_id'', PInt (arg_driver_id args)),
      (''status'', PStr ''accepted'')]" by (simp add: event_payload_def)
  then have key: "ride_key rep (PDict accepted) = Some (i, accepted)"
    by (simp add: ride_key_def py_str_def assms(2))
  have new: "dict_update [] accepted = accepted" by (simp add: acc dict_update_def)
  have keep: "map_of (dict_update ride accepted) ''from_address'' = Some a"
    by (simp add: acc dict_update_def update_conv' assms(4))
  from assms(6) have "ride_key rep (PDict created) = Some (i, created)"
    by (auto simp: event_payload_def ride_key_def py_str_def assms(2))
  with key new keep assms(1,3) acc show ?thesis
    by (simp add: handle_message_produced apply_event_def section_defs popped_def log_event_def
        update_conv' delete_conv')
qed

theorem redelivery_corrupts_read_model_witness:
  "\<exists>m1 m2.
    snd (handle_message str_of_lists (produced ''ride.accepted'' demo_args)
      (snd (handle_message str_of_lists (produced ''ride.created'' demo_args) Missing))) = Saved m1 \<and>
    Option.bind (map_of (rm_accepted_rides m1) ''100'') (\<lambda>r. map_of r ''from_address'') = Some (PStr ''MAI'') \<and>
    snd (handle_message str_of_lists (produced ''ride.accepted'' demo_args) (Saved m1)) = Saved m2 \<and>
    Option.bind (map_of (rm_accepted_rides m2) ''100'') (\<lambda>r. map_of r ''from_address'') = None"
proof -
  define disk where "disk = snd (handle_message str_of_lists (produced ''ride.created'' demo_args) Missing)"
  have num: "std_to_string (arg_ride_id demo_args) = ''100''" by code_simp
  obtain accepted where acc: "event_payload ''ride.accepted'' demo_args = Some accepted"
    by (simp add: event_payload_def)
  obtain created where cre: "event_payload ''ride.created'' demo_args = Some created"
    by (simp add: event_payload_def)
  have "map_option (\<lambda>m. Option.bind (map_of (rm_active_rides m) ''100'') (\<lambda>r. map_of r ''from_address''))
      (load_read_model disk) = Some (Some (PStr ''MAI''))"
    unfolding disk_def by code_simp
  then obtain m ride where "load_read_model disk = Some m" "map_of (rm_active_rides m) ''100'' = Some ride"
    "map_of ride ''from_address'' = Some (PStr ''MAI'')"
    by (auto simp: bind_eq_Some_conv)
  from redelivery_corrupts_read_model [OF this(1) num [symmetric] this(2,3) acc cre, of str_of_lists 0 "''now''"]
  moreover have "produced ''ride.accepted'' demo_args = Some (make_event 0 ''now'' ''ride.accepted'' accepted)"
    by (simp add: produced_def acc)
  ultimately show ?thesis unfolding disk_def [symmetric] by auto
qed

end
