(* ===== verification/Wiring.thy ===== *)
theory Wiring
  imports Server
begin

text \<open>
  How \<open>main.cpp\<close> and \<open>static_config.yaml\<close> put the service together: the names and the static
  schemas of the components, their constructors with the components they look up, the list of
  components and the configuration. The component system of the framework is not part of the
  repository: its context answers lookups by name, and the schema of its handlers is an argument.
\<close>

section \<open>Objects\<close>

text \<open>
  A reference to the storage is the name of the component that owns it, and so is a reference to a
  pool of MongoDB.
\<close>

datatype component =
    PostgresC database
  | MongoC
  | TaxiStorageC taxi_storage
  | SqlHandler endpoint string
  | MongoHandler endpoint string
  | AuthMiddlewareC string

type_synonym component_context = "(string \<times> component) list"

definition FindPostgres :: "string \<Rightarrow> component_context \<Rightarrow> database option" where
  "FindPostgres name ctx = (case map_of ctx name of Some (PostgresC db) \<Rightarrow> Some db | _ \<Rightarrow> None)"

definition FindMongo :: "string \<Rightarrow> component_context \<Rightarrow> string option" where
  "FindMongo name ctx = (case map_of ctx name of Some MongoC \<Rightarrow> Some name | _ \<Rightarrow> None)"

section \<open>Names\<close>

definition TaxiStorageComponent_kName :: string where
  "TaxiStorageComponent_kName = ''taxi-storage''"

definition AuthMiddlewareFactory_kName :: string where
  "AuthMiddlewareFactory_kName = ''auth-middleware''"

definition UsersCreate_kName :: string where
  "UsersCreate_kName = ''handler-users-create''"

definition UsersGet_kName :: string where
  "UsersGet_kName = ''handler-users-get''"

definition AuthLogin_kName :: string where
  "AuthLogin_kName = ''handler-auth-login''"

definition DriversCreate_kName :: string where
  "DriversCreate_kName = ''handler-drivers-create''"

definition RidesCreate_kName :: string where
  "RidesCreate_kName = ''handler-rides-create''"

definition RidesGet_kName :: string where
  "RidesGet_kName = ''handler-rides-get''"

definition RidesAccept_kName :: string where
  "RidesAccept_kName = ''handler-rides-accept''"

definition RidesComplete_kName :: string where
  "RidesComplete_kName = ''handler-rides-complete''"

definition MongoUsersCreate_kName :: string where
  "MongoUsersCreate_kName = ''handler-mongo-users-create''"

definition MongoUsersGet_kName :: string where
  "MongoUsersGet_kName = ''handler-mongo-users-get''"

lemmas kName_defs = TaxiStorageComponent_kName_def AuthMiddlewareFactory_kName_def
  UsersCreate_kName_def UsersGet_kName_def AuthLogin_kName_def DriversCreate_kName_def
  RidesCreate_kName_def RidesGet_kName_def RidesAccept_kName_def
  RidesComplete_kName_def MongoUsersCreate_kName_def MongoUsersGet_kName_def

section \<open>Constructors\<close>

text \<open>\<open>FindComponent\<close> throws when there is no such component; then the constructor throws, too.\<close>

definition TaxiStorageComponent_ctor :: "component_context \<Rightarrow> component option" where
  "TaxiStorageComponent_ctor ctx =
     map_option (\<lambda>db. TaxiStorageC (TaxiStorage_ctor db)) (FindPostgres ''postgres-db'' ctx)"

text \<open>\<open>FindComponent<TaxiStorageComponent>().GetStorage()\<close>.\<close>

definition GetStorage :: "component_context \<Rightarrow> string option" where
  "GetStorage ctx =
     (case map_of ctx TaxiStorageComponent_kName of
        Some (TaxiStorageC st) \<Rightarrow> Some TaxiStorageComponent_kName
      | _ \<Rightarrow> None)"

definition UsersCreate_ctor :: "component_context \<Rightarrow> component option" where
  "UsersCreate_ctor ctx = map_option (SqlHandler EP_UsersCreate) (GetStorage ctx)"

definition UsersGet_ctor :: "component_context \<Rightarrow> component option" where
  "UsersGet_ctor ctx = map_option (SqlHandler EP_UsersGet) (GetStorage ctx)"

definition AuthLogin_ctor :: "component_context \<Rightarrow> component option" where
  "AuthLogin_ctor ctx = map_option (SqlHandler EP_AuthLogin) (GetStorage ctx)"

definition DriversCreate_ctor :: "component_context \<Rightarrow> component option" where
  "DriversCreate_ctor ctx = map_option (SqlHandler EP_DriversCreate) (GetStorage ctx)"

definition RidesCreate_ctor :: "component_context \<Rightarrow> component option" where
  "RidesCreate_ctor ctx = map_option (SqlHandler EP_RidesCreate) (GetStorage ctx)"

definition RidesGet_ctor :: "component_context \<Rightarrow> component option" where
  "RidesGet_ctor ctx = map_option (SqlHandler EP_RidesGet) (GetStorage ctx)"

definition RidesAccept_ctor :: "component_context \<Rightarrow> component option" where
  "RidesAccept_ctor ctx = map_option (SqlHandler EP_RidesAccept) (GetStorage ctx)"

definition RidesComplete_ctor :: "component_context \<Rightarrow> component option" where
  "RidesComplete_ctor ctx = map_option (SqlHandler EP_RidesComplete) (GetStorage ctx)"

definition MongoUsersCreate_ctor :: "component_context \<Rightarrow> component option" where
  "MongoUsersCreate_ctor ctx = map_option (MongoHandler EP_MongoUsersCreate) (FindMongo ''mongo-db'' ctx)"

definition MongoUsersGet_ctor :: "component_context \<Rightarrow> component option" where
  "MongoUsersGet_ctor ctx = map_option (MongoHandler EP_MongoUsersGet) (FindMongo ''mongo-db'' ctx)"

definition AuthMiddlewareFactory_ctor :: "component_context \<Rightarrow> component option" where
  "AuthMiddlewareFactory_ctor ctx = map_option AuthMiddlewareC (GetStorage ctx)"

text \<open>The middleware that the factory makes for each handler has the storage of the factory.\<close>

definition AuthMiddlewareFactory_Create :: "component \<Rightarrow> string option" where
  "AuthMiddlewareFactory_Create factory = (case factory of AuthMiddlewareC st \<Rightarrow> Some st | _ \<Rightarrow> None)"

lemmas ctor_defs = TaxiStorageComponent_ctor_def AuthMiddlewareFactory_ctor_def
  UsersCreate_ctor_def UsersGet_ctor_def AuthLogin_ctor_def DriversCreate_ctor_def
  RidesCreate_ctor_def RidesGet_ctor_def RidesAccept_ctor_def RidesComplete_ctor_def
  MongoUsersCreate_ctor_def MongoUsersGet_ctor_def

section \<open>Static schemas\<close>

text \<open>The keys a section may have, and whether it may have others.\<close>

record schema =
  additionalProperties :: bool
  schema_properties :: "string list"

text \<open>A schema laid over the schema of the base class: the keys of both, and the rule of the upper one.\<close>

definition MergeSchemas :: "schema \<Rightarrow> schema \<Rightarrow> schema" where
  "MergeSchemas base own =
     own\<lparr>schema_properties := schema_properties base @ schema_properties own\<rparr>"

definition no_properties :: schema where
  "no_properties = \<lparr>additionalProperties = False, schema_properties = []\<rparr>"

definition TaxiStorageComponent_schema :: "schema \<Rightarrow> schema" where
  "TaxiStorageComponent_schema base = MergeSchemas base no_properties"

definition UsersCreate_schema :: "schema \<Rightarrow> schema" where
  "UsersCreate_schema base = MergeSchemas base no_properties"

definition UsersGet_schema :: "schema \<Rightarrow> schema" where
  "UsersGet_schema base = MergeSchemas base no_properties"

definition AuthLogin_schema :: "schema \<Rightarrow> schema" where
  "AuthLogin_schema base = MergeSchemas base no_properties"

definition DriversCreate_schema :: "schema \<Rightarrow> schema" where
  "DriversCreate_schema base = MergeSchemas base no_properties"

definition RidesCreate_schema :: "schema \<Rightarrow> schema" where
  "RidesCreate_schema base = MergeSchemas base no_properties"

definition RidesGet_schema :: "schema \<Rightarrow> schema" where
  "RidesGet_schema base = MergeSchemas base no_properties"

definition RidesAccept_schema :: "schema \<Rightarrow> schema" where
  "RidesAccept_schema base = MergeSchemas base no_properties"

definition RidesComplete_schema :: "schema \<Rightarrow> schema" where
  "RidesComplete_schema base = MergeSchemas base no_properties"

definition MongoUsersCreate_schema :: "schema \<Rightarrow> schema" where
  "MongoUsersCreate_schema base = base"

definition MongoUsersGet_schema :: "schema \<Rightarrow> schema" where
  "MongoUsersGet_schema base = base"

lemmas schema_defs = MergeSchemas_def no_properties_def TaxiStorageComponent_schema_def
  UsersCreate_schema_def UsersGet_schema_def AuthLogin_schema_def DriversCreate_schema_def
  RidesCreate_schema_def RidesGet_schema_def RidesAccept_schema_def RidesComplete_schema_def
  MongoUsersCreate_schema_def MongoUsersGet_schema_def

section \<open>The component list\<close>

text \<open>The components that \<open>main\<close> appends by itself, with their names and constructors.\<close>

definition component_list :: "database \<Rightarrow> (string \<times> (component_context \<Rightarrow> component option)) list" where
  "component_list db =
     [(''postgres-db'', \<lambda>ctx. Some (PostgresC db)),
      (''mongo-db'', \<lambda>ctx. Some MongoC),
      (TaxiStorageComponent_kName, TaxiStorageComponent_ctor),
      (UsersCreate_kName, UsersCreate_ctor),
      (UsersGet_kName, UsersGet_ctor),
      (AuthLogin_kName, AuthLogin_ctor),
      (DriversCreate_kName, DriversCreate_ctor),
      (RidesCreate_kName, RidesCreate_ctor),
      (RidesGet_kName, RidesGet_ctor),
      (RidesAccept_kName, RidesAccept_ctor),
      (RidesComplete_kName, RidesComplete_ctor),
      (MongoUsersCreate_kName, MongoUsersCreate_ctor),
      (MongoUsersGet_kName, MongoUsersGet_ctor),
      (AuthMiddlewareFactory_kName, AuthMiddlewareFactory_ctor)]"

text \<open>Construction one after the other; it fails when a constructor throws.\<close>

fun construct :: "(string \<times> (component_context \<Rightarrow> component option)) list \<Rightarrow> component_context \<Rightarrow> component_context option" where
  "construct [] ctx = Some ctx"
| "construct ((name, ctor) # cs) ctx =
     (case ctor ctx of None \<Rightarrow> None | Some c \<Rightarrow> construct cs (ctx @ [(name, c)]))"

end
