(* ===== verification/Objects.thy ===== *)
theory Objects
  imports Wiring
begin

text \<open>
  The objects behind the server: the classes of the headers of \<open>src/src/handlers\<close>,
  \<open>middlewares/auth_middleware.hpp\<close> and \<open>storage/taxi_storage_component.hpp\<close> with their names,
  constructors, methods, schemas and the reference each object keeps; a heap with the storages and
  pools that are referred to and the two function-local statics; and a request that follows the
  references. On the objects that \<open>main\<close> constructs this is the server with one storage.
\<close>

section \<open>The heap\<close>

record 'm heap =
  taxi_storages :: "string \<rightharpoonup> taxi_storage"
  mongo_pools :: "string \<rightharpoonup> 'm"
  GetCache :: response_cache
  GetRateLimiter :: rate_limiter

text \<open>A method of a handler, called on the object (\<open>this\<close>).\<close>

type_synonym ('j, 'm, 'd) handler_method =
  "('j, 'm, 'd) platform \<Rightarrow> component \<Rightarrow> req_env \<Rightarrow> request \<Rightarrow> response \<Rightarrow> 'm heap \<Rightarrow> response result \<times> 'm heap"

text \<open>A method that uses \<open>storage_\<close>, a reference. A dangling one would be undefined behaviour.\<close>

definition on_storage_ref :: "'j handler \<Rightarrow> ('j, 'm, 'd) handler_method" where
  "on_storage_ref h pf this env req resp w =
     (case this of
        SqlHandler ep ref \<Rightarrow>
          (case taxi_storages w ref of
             None \<Rightarrow> (Inl UndefinedBehaviour, w)
           | Some st \<Rightarrow>
               (let (r, resp', sv) = h (pf_json pf) env req resp
                      \<lparr>storage = st, cache = GetCache w, limiter = GetRateLimiter w\<rparr>
                in (finish r resp',
                    w\<lparr>taxi_storages := (taxi_storages w)(ref \<mapsto> storage sv),
                      GetCache := cache sv, GetRateLimiter := limiter sv\<rparr>)))
      | _ \<Rightarrow> (Inl UndefinedBehaviour, w))"

text \<open>A method that uses \<open>pool_\<close>, a shared pointer.\<close>

definition on_pool_ref ::
    "('j json_lib \<Rightarrow> ('m, 'd) mongo_lib \<Rightarrow> req_env \<Rightarrow> request \<Rightarrow> response \<Rightarrow> 'm \<Rightarrow> string \<times> response \<times> 'm) \<Rightarrow>
     ('j, 'm, 'd) handler_method" where
  "on_pool_ref h pf this env req resp w =
     (case this of
        MongoHandler ep ref \<Rightarrow>
          (case mongo_pools w ref of
             None \<Rightarrow> (Inl UndefinedBehaviour, w)
           | Some m \<Rightarrow>
               (let (body, resp', m') = h (pf_json pf) (pf_mongo pf) env req resp m
                in (Inr (SetData body resp'), w\<lparr>mongo_pools := (mongo_pools w)(ref \<mapsto> m')\<rparr>)))
      | _ \<Rightarrow> (Inl UndefinedBehaviour, w))"

section \<open>The classes of the handlers\<close>

record ('j, 'm, 'd) handler_class =
  kName :: string
  constructor :: "component_context \<Rightarrow> component option"
  HandleRequestThrow :: "('j, 'm, 'd) handler_method"
  GetStaticConfigSchema :: "schema \<Rightarrow> schema"

definition UsersCreate_class :: "('j, 'm, 'd) handler_class" where
  "UsersCreate_class =
     \<lparr>kName = UsersCreate_kName, constructor = UsersCreate_ctor,
      HandleRequestThrow = on_storage_ref UsersCreate_HandleRequestThrow,
      GetStaticConfigSchema = UsersCreate_schema\<rparr>"

definition UsersGet_class :: "('j, 'm, 'd) handler_class" where
  "UsersGet_class =
     \<lparr>kName = UsersGet_kName, constructor = UsersGet_ctor,
      HandleRequestThrow = on_storage_ref UsersGet_HandleRequestThrow,
      GetStaticConfigSchema = UsersGet_schema\<rparr>"

definition AuthLogin_class :: "('j, 'm, 'd) handler_class" where
  "AuthLogin_class =
     \<lparr>kName = AuthLogin_kName, constructor = AuthLogin_ctor,
      HandleRequestThrow = on_storage_ref AuthLogin_HandleRequestThrow,
      GetStaticConfigSchema = AuthLogin_schema\<rparr>"

definition DriversCreate_class :: "('j, 'm, 'd) handler_class" where
  "DriversCreate_class =
     \<lparr>kName = DriversCreate_kName, constructor = DriversCreate_ctor,
      HandleRequestThrow = on_storage_ref DriversCreate_HandleRequestThrow,
      GetStaticConfigSchema = DriversCreate_schema\<rparr>"

definition RidesCreate_class :: "('j, 'm, 'd) handler_class" where
  "RidesCreate_class =
     \<lparr>kName = RidesCreate_kName, constructor = RidesCreate_ctor,
      HandleRequestThrow = on_storage_ref RidesCreate_HandleRequestThrow,
      GetStaticConfigSchema = RidesCreate_schema\<rparr>"

definition RidesGet_class :: "('j, 'm, 'd) handler_class" where
  "RidesGet_class =
     \<lparr>kName = RidesGet_kName, constructor = RidesGet_ctor,
      HandleRequestThrow = on_storage_ref RidesGet_HandleRequestThrow,
      GetStaticConfigSchema = RidesGet_schema\<rparr>"

definition RidesAccept_class :: "('j, 'm, 'd) handler_class" where
  "RidesAccept_class =
     \<lparr>kName = RidesAccept_kName, constructor = RidesAccept_ctor,
      HandleRequestThrow = on_storage_ref RidesAccept_HandleRequestThrow,
      GetStaticConfigSchema = RidesAccept_schema\<rparr>"

definition RidesComplete_class :: "('j, 'm, 'd) handler_class" where
  "RidesComplete_class =
     \<lparr>kName = RidesComplete_kName, constructor = RidesComplete_ctor,
      HandleRequestThrow = on_storage_ref RidesComplete_HandleRequestThrow,
      GetStaticConfigSchema = RidesComplete_schema\<rparr>"

definition MongoUsersCreate_class :: "('j, 'm, 'd) handler_class" where
  "MongoUsersCreate_class =
     \<lparr>kName = MongoUsersCreate_kName, constructor = MongoUsersCreate_ctor,
      HandleRequestThrow = on_pool_ref MongoUsersCreate_HandleRequestThrow,
      GetStaticConfigSchema = MongoUsersCreate_schema\<rparr>"

text \<open>The lookup only reads the collection.\<close>

definition MongoUsersGet_class :: "('j, 'm, 'd) handler_class" where
  "MongoUsersGet_class =
     \<lparr>kName = MongoUsersGet_kName, constructor = MongoUsersGet_ctor,
      HandleRequestThrow = on_pool_ref (\<lambda>lib ml env req resp m.
        case MongoUsersGet_HandleRequestThrow lib ml req resp m of (body, resp') \<Rightarrow> (body, resp', m)),
      GetStaticConfigSchema = MongoUsersGet_schema\<rparr>"

fun class_of :: "endpoint \<Rightarrow> ('j, 'm, 'd) handler_class" where
  "class_of EP_UsersCreate = UsersCreate_class"
| "class_of EP_UsersGet = UsersGet_class"
| "class_of EP_AuthLogin = AuthLogin_class"
| "class_of EP_DriversCreate = DriversCreate_class"
| "class_of EP_RidesCreate = RidesCreate_class"
| "class_of EP_RidesGet = RidesGet_class"
| "class_of EP_RidesAccept = RidesAccept_class"
| "class_of EP_RidesComplete = RidesComplete_class"
| "class_of EP_MongoUsersCreate = MongoUsersCreate_class"
| "class_of EP_MongoUsersGet = MongoUsersGet_class"

lemmas class_defs = UsersCreate_class_def UsersGet_class_def AuthLogin_class_def DriversCreate_class_def
  RidesCreate_class_def RidesGet_class_def RidesAccept_class_def RidesComplete_class_def
  MongoUsersCreate_class_def MongoUsersGet_class_def

section \<open>The component of the storage and the middleware\<close>

record storage_component_class =
  storage_kName :: string
  storage_constructor :: "component_context \<Rightarrow> component option"
  storage_GetStorage :: "component_context \<Rightarrow> string option"
  storage_GetStaticConfigSchema :: "schema \<Rightarrow> schema"

definition TaxiStorageComponent_class :: storage_component_class where
  "TaxiStorageComponent_class =
     \<lparr>storage_kName = TaxiStorageComponent_kName, storage_constructor = TaxiStorageComponent_ctor,
      storage_GetStorage = GetStorage, storage_GetStaticConfigSchema = TaxiStorageComponent_schema\<rparr>"

text \<open>The middleware keeps a reference to the storage, and so does the factory that makes it.\<close>

type_synonym 'm next_handler = "request \<Rightarrow> response \<Rightarrow> 'm heap \<Rightarrow> response result \<times> 'm heap"

record 'm middleware_class =
  HandleRequest :: "string \<Rightarrow> 'm next_handler \<Rightarrow> request \<Rightarrow> response \<Rightarrow> 'm heap \<Rightarrow> response result \<times> 'm heap"
  public_request :: "request \<Rightarrow> bool"

definition AuthMiddleware_class :: "'m middleware_class" where
  "AuthMiddleware_class =
     \<lparr>HandleRequest = (\<lambda>ref nxt req resp w.
        if taxi_storages w ref = None then (Inl UndefinedBehaviour, w)
        else AuthMiddleware_HandleRequest (\<lambda>w. the (taxi_storages w ref)) nxt req resp w),
      public_request = IsPublicRequest\<rparr>"

record middleware_factory_class =
  factory_kName :: string
  factory_constructor :: "component_context \<Rightarrow> component option"
  factory_Create :: "component \<Rightarrow> string option"

definition AuthMiddlewareFactory_class :: middleware_factory_class where
  "AuthMiddlewareFactory_class =
     \<lparr>factory_kName = AuthMiddlewareFactory_kName, factory_constructor = AuthMiddlewareFactory_ctor,
      factory_Create = AuthMiddlewareFactory_Create\<rparr>"

section \<open>A request to the objects\<close>

text \<open>The storages and pools that the components own, with the two statics not yet used.\<close>

definition heap_of_components :: "component_context \<Rightarrow> 'm \<Rightarrow> 'm heap" where
  "heap_of_components ctx m =
     \<lparr>taxi_storages = (\<lambda>n. case map_of ctx n of Some (TaxiStorageC st) \<Rightarrow> Some st | _ \<Rightarrow> None),
      mongo_pools = (\<lambda>n. case map_of ctx n of Some MongoC \<Rightarrow> Some m | _ \<Rightarrow> None),
      GetCache = ResponseCache_init, GetRateLimiter = RateLimiter_init\<rparr>"

text \<open>The handler object of the route, found among the components by the name of its class.\<close>

definition object_dispatch :: "('j, 'm, 'd) platform \<Rightarrow> component_context \<Rightarrow> req_env \<Rightarrow> 'm next_handler" where
  "object_dispatch pf ctx env req resp w =
     (case pf_route pf req of
        None \<Rightarrow> (pf_framework pf req resp, w)
      | Some ep \<Rightarrow>
          (case map_of ctx (kName (class_of ep :: ('j, 'm, 'd) handler_class)) of
             None \<Rightarrow> (Inl UndefinedBehaviour, w)
           | Some this \<Rightarrow> HandleRequestThrow (class_of ep) pf this env req resp w))"

text \<open>The middleware that the factory among the components creates, and then the handler.\<close>

definition object_handle :: "('j, 'm, 'd) platform \<Rightarrow> component_context \<Rightarrow> req_env \<Rightarrow> request \<Rightarrow> 'm heap \<Rightarrow>
    response result \<times> 'm heap" where
  "object_handle pf ctx env req w =
     (case Option.bind (map_of ctx (factory_kName AuthMiddlewareFactory_class))
             (factory_Create AuthMiddlewareFactory_class) of
        None \<Rightarrow> (Inl UndefinedBehaviour, w)
      | Some ref \<Rightarrow> HandleRequest AuthMiddleware_class ref (object_dispatch pf ctx env) req empty_response w)"

definition object_run :: "('j, 'm, 'd) platform \<Rightarrow> component_context \<Rightarrow> operation list \<Rightarrow> 'm heap \<Rightarrow> 'm heap" where
  "object_run pf ctx ops w = fold (\<lambda>op w. snd (object_handle pf ctx (fst op) (snd op) w)) ops w"

section \<open>The server on the heap\<close>

text \<open>The heap of a server: one storage and one pool.\<close>

definition server_heap :: "'m server \<Rightarrow> 'm heap" where
  "server_heap s =
     \<lparr>taxi_storages = [''taxi-storage'' \<mapsto> storage (svc s)], mongo_pools = [''mongo-db'' \<mapsto> mongo_users s],
      GetCache = cache (svc s), GetRateLimiter = limiter (svc s)\<rparr>"

text \<open>The components that \<open>main\<close> constructs.\<close>

definition main_components :: "database \<Rightarrow> component_context" where
  "main_components db =
     [(''postgres-db'', PostgresC db), (''mongo-db'', MongoC),
      (TaxiStorageComponent_kName, TaxiStorageC (TaxiStorage_ctor db)),
      (UsersCreate_kName, SqlHandler EP_UsersCreate TaxiStorageComponent_kName),
      (UsersGet_kName, SqlHandler EP_UsersGet TaxiStorageComponent_kName),
      (AuthLogin_kName, SqlHandler EP_AuthLogin TaxiStorageComponent_kName),
      (DriversCreate_kName, SqlHandler EP_DriversCreate TaxiStorageComponent_kName),
      (RidesCreate_kName, SqlHandler EP_RidesCreate TaxiStorageComponent_kName),
      (RidesGet_kName, SqlHandler EP_RidesGet TaxiStorageComponent_kName),
      (RidesAccept_kName, SqlHandler EP_RidesAccept TaxiStorageComponent_kName),
      (RidesComplete_kName, SqlHandler EP_RidesComplete TaxiStorageComponent_kName),
      (MongoUsersCreate_kName, MongoHandler EP_MongoUsersCreate ''mongo-db''),
      (MongoUsersGet_kName, MongoHandler EP_MongoUsersGet ''mongo-db''),
      (AuthMiddlewareFactory_kName, AuthMiddlewareC TaxiStorageComponent_kName)]"

lemma construct_main: "construct (component_list db) [] = Some (main_components db)"
  by (simp add: component_list_def main_components_def ctor_defs kName_defs GetStorage_def
      FindPostgres_def FindMongo_def)

lemma main_components_of:
  "construct (component_list db) [] = Some ctx \<Longrightarrow> ctx = main_components db"
  by (simp add: construct_main)

lemma heap_main: "heap_of_components (main_components db) m = server_heap (server_init db m)"
  by (auto simp: heap_of_components_def server_heap_def main_components_def kName_defs server_init_def
      service_init_def fun_eq_iff)

lemma server_heap_parts:
  "taxi_storages (server_heap s) = [''taxi-storage'' \<mapsto> storage (svc s)]"
  "mongo_pools (server_heap s) = [''mongo-db'' \<mapsto> mongo_users s]"
  "GetCache (server_heap s) = cache (svc s)" "GetRateLimiter (server_heap s) = limiter (svc s)"
  by (simp_all add: server_heap_def)

text \<open>A method called on its object does to the heap what the handler does to the server.\<close>

lemma on_storage_ref_server:
  "on_storage_ref h pf (SqlHandler ep ''taxi-storage'') env req resp (server_heap s) =
     (case run_sql h (pf_json pf) env req resp s of (r, s') \<Rightarrow> (r, server_heap s'))"
  by (cases "svc s")
    (simp add: on_storage_ref_def server_heap_parts run_sql_def server_heap_def split: prod.split)

lemma on_pool_ref_server:
  "on_pool_ref h pf (MongoHandler ep ''mongo-db'') env req resp (server_heap s) =
     (case h (pf_json pf) (pf_mongo pf) env req resp (mongo_users s) of
        (body, resp', m) \<Rightarrow> (Inr (SetData body resp'), server_heap (s\<lparr>mongo_users := m\<rparr>)))"
  by (simp add: on_pool_ref_def server_heap_parts server_heap_def split: prod.split)

text \<open>Every endpoint has its own object, of its own class.\<close>

lemma object_of_endpoint:
  "map_of (main_components db) (kName (class_of ep)) =
     Some (if ep \<in> {EP_MongoUsersCreate, EP_MongoUsersGet} then MongoHandler ep ''mongo-db''
           else SqlHandler ep ''taxi-storage'')"
  by (cases ep) (simp_all add: main_components_def class_defs kName_defs)

lemma object_dispatch_server:
  "object_dispatch pf (main_components db) env req resp (server_heap s) =
     (case dispatch pf env req resp s of (r, s') \<Rightarrow> (r, server_heap s'))"
proof (cases "pf_route pf req")
  case None
  then show ?thesis by (simp add: object_dispatch_def dispatch_def)
next
  case (Some ep)
  show ?thesis
    unfolding object_dispatch_def Some option.case object_of_endpoint
    by (cases ep)
      (simp_all add: dispatch_def Some class_defs on_storage_ref_server on_pool_ref_server split: prod.split)
qed

lemma object_handle_server:
  "object_handle pf (main_components db) env req (server_heap s) =
     (case handle pf env req s of (r, s') \<Rightarrow> (r, server_heap s'))"
proof -
  have "map_of (main_components db) AuthMiddlewareFactory_kName = Some (AuthMiddlewareC ''taxi-storage'')"
    by (simp add: main_components_def kName_defs)
  then have "object_handle pf (main_components db) env req (server_heap s) =
      AuthMiddleware_HandleRequest (\<lambda>w. the (taxi_storages w ''taxi-storage''))
        (object_dispatch pf (main_components db) env) req empty_response (server_heap s)"
    by (simp add: object_handle_def AuthMiddlewareFactory_class_def AuthMiddlewareFactory_Create_def
        AuthMiddleware_class_def server_heap_parts)
  then show ?thesis
    by (simp add: handle_def AuthMiddleware_HandleRequest_def Let_def object_dispatch_server
        server_heap_parts server_storage_def)
qed

lemma object_run_server:
  "object_run pf (main_components db) ops (server_heap s) = server_heap (server_run pf ops s)"
  unfolding object_run_def server_run_def
  by (induction ops arbitrary: s) (simp_all add: object_handle_server server_step_def case_prod_unfold)

text \<open>The list of \<open>main\<close> and the schemas name the members of the classes.\<close>

lemma classes_listed:
  "component_list db =
     [(''postgres-db'', \<lambda>ctx. Some (PostgresC db)), (''mongo-db'', \<lambda>ctx. Some MongoC),
      (storage_kName TaxiStorageComponent_class, storage_constructor TaxiStorageComponent_class)] @
     map (\<lambda>ep. (kName (class_of ep), constructor (class_of ep)))
       [EP_UsersCreate, EP_UsersGet, EP_AuthLogin, EP_DriversCreate, EP_RidesCreate, EP_RidesGet,
        EP_RidesAccept, EP_RidesComplete, EP_MongoUsersCreate, EP_MongoUsersGet] @
     [(factory_kName AuthMiddlewareFactory_class, factory_constructor AuthMiddlewareFactory_class)]"
  by (simp add: component_list_def class_defs TaxiStorageComponent_class_def AuthMiddlewareFactory_class_def)

end
