(* ===== verification/WiringProperties.thy ===== *)
theory WiringProperties
  imports Configuration Objects Scenario
begin

text \<open>
  The properties of the start of the service: the objects that \<open>main\<close> constructs, the
  configuration they are given, and the requests they are registered for.
\<close>

text \<open>The components of \<open>main\<close>, constructed in the order of the list, find everything they look
  up, and the middleware and all handlers over PostgreSQL share one storage, which is constructed once, on
  the configured cluster, and is the storage of a fresh service; both handlers over MongoDB share
  one pool.\<close>

theorem start_shares_one_storage:
  "map_option (map snd) (construct (component_list db) []) =
     Some ([PostgresC db, MongoC, TaxiStorageC (storage (service_init db))] @
       map (\<lambda>ep. SqlHandler ep ''taxi-storage'')
         [EP_UsersCreate, EP_UsersGet, EP_AuthLogin, EP_DriversCreate, EP_RidesCreate, EP_RidesGet,
          EP_RidesAccept, EP_RidesComplete] @
       map (\<lambda>ep. MongoHandler ep ''mongo-db'') [EP_MongoUsersCreate, EP_MongoUsersGet] @
       [AuthMiddlewareC ''taxi-storage''])"
  by (simp add: component_list_def ctor_defs kName_defs GetStorage_def FindPostgres_def FindMongo_def
      service_init_def)



text \<open>No request is admitted by two handlers: method and path determine the endpoint, whatever
  text stands for the ride in the path.\<close>

theorem routing_is_unambiguous:
  assumes "admits ep req" and "admits ep' req"
  shows "ep = ep'"
proof -
  from assms have "endpoint_path ep (GetRequestPath req)" "endpoint_path ep' (GetRequestPath req)"
    "configured ep ''method'' = configured ep' ''method''"
    by (simp_all add: admits_def endpoint_path_configured)
  then show ?thesis
    by (cases ep; cases ep') (auto simp: configured_values fixed_path_def dest: ride_paths_disjoint)
qed

theorem routing_is_unambiguous_witness:
  "\<exists>!ep. admits ep (snd (ride_accepted NoFault))"
proof
  show here: "admits EP_RidesAccept (snd (ride_accepted NoFault))" by code_simp
  fix ep
  assume "admits ep (snd (ride_accepted NoFault))"
  from routing_is_unambiguous [OF this here] show "ep = EP_RidesAccept" .
qed

text \<open>The public paths are compared exactly, while the handlers are also registered for the path
  with a trailing slash: a request without a token to such a path of a public endpoint, the login among
  them, is answered with 401 and changes nothing.\<close>

theorem trailing_slash_needs_token:
  assumes "GetRequestPath req = p @ ''/''" and "p \<in> {''/users'', ''/auth/login'', ''/mongo/users''}"
    and "bearer_token req = None"
  shows "(\<exists>ep. \<not> protected_endpoint ep \<and> endpoint_path ep (GetRequestPath req)) \<and>
    handle pf env req s = (Inr (unauthorized missing_header_body empty_response), s)"
proof
  from assms(1,2) have "endpoint_path EP_UsersCreate (GetRequestPath req) \<or>
      endpoint_path EP_AuthLogin (GetRequestPath req) \<or> endpoint_path EP_MongoUsersGet (GetRequestPath req)"
    by (auto simp: fixed_path_def)
  then show "\<exists>ep. \<not> protected_endpoint ep \<and> endpoint_path ep (GetRequestPath req)"
    using protected_endpoint.simps by blast
  have "\<not> IsPublicRequest req"
    using assms(1,2) by (auto simp: IsPublicRequest_iff prefix_def)
  with assms(3) have "\<not> authorized (server_storage s) req" by (simp add: authorized_def)
  with assms(3) show "handle pf env req s = (Inr (unauthorized missing_header_body empty_response), s)"
    by (simp add: handle_def AuthMiddleware_refuse refusal_body_def)
qed

theorem trailing_slash_needs_token_witness:
  "handle demo (demo_env 1 NoFault) (demo_req ''POST'' ''/auth/login/'' [] [] [] ''login=ann&password=pw'') demo_start =
     (Inr (unauthorized missing_header_body empty_response), demo_start)"
proof -
  let ?req = "demo_req ''POST'' ''/auth/login/'' [] [] [] ''login=ann&password=pw''"
  have "GetRequestPath ?req = ''/auth/login'' @ ''/''" "''/auth/login'' \<in> {''/users'', ''/auth/login'', ''/mongo/users''}"
    "bearer_token ?req = None"
    by (simp_all add: demo_req_def bearer_token_def kBearerPrefix_def)
  from trailing_slash_needs_token [OF this, of demo "demo_env 1 NoFault" demo_start] show ?thesis by blast
qed

section \<open>Objects\<close>

text \<open>C11: The objects behave as one server: when the components of \<open>main\<close> are constructed in the order
  of its list, a request that follows the references, from the factory to the middleware it creates, from
  the route to the handler object of that name, and from both to the storage or the pool they refer to,
  is answered after any requests as by the server with one storage, one collection, one cache and one
  limiter, and leaves the heap as that server's state.\<close>

theorem objects_refine_server:
  assumes "construct (component_list db) [] = Some ctx"
  shows "object_run pf ctx ops (heap_of_components ctx m) = server_heap (server_run pf ops (server_init db m)) \<and>
    fst (object_handle pf ctx env req (object_run pf ctx ops (heap_of_components ctx m))) =
      fst (handle pf env req (server_run pf ops (server_init db m)))"
  using main_components_of [OF assms]
  by (simp add: heap_main object_run_server object_handle_server case_prod_unfold)

theorem objects_refine_server_witness:
  "\<exists>ctx. construct (component_list empty_database) [] = Some ctx \<and>
     object_run demo ctx demo_day (heap_of_components ctx []) = server_heap (server_run demo demo_day demo_start)"
proof -
  have "construct (component_list empty_database) [] = Some (main_components empty_database)"
    by (rule construct_main)
  with objects_refine_server [OF this, of demo demo_day "[]"] show ?thesis
    unfolding demo_start_def by blast
qed

end
