(* ===== verification/SeedData.thy ===== *)
theory SeedData
  imports Scenario
begin

text \<open>
  The rows that \<open>data.sql\<close> inserts when the database is created. They satisfy the schema, but the
  availability of the drivers does not fit the rides, and what follows from this.
\<close>

section \<open>The rows\<close>

text \<open>Login and name; all have the same password.\<close>

definition seed_user_values :: "(string \<times> string) list" where
  "seed_user_values =
    [(''passenger1'', ''Ivan Petrov''),
     (''passenger2'', ''Anna Smirnova''),
     (''passenger3'', ''Elena Ivanova''),
     (''passenger4'', ''Dmitry Sokolov''),
     (''passenger5'', ''Maria Kuznetsova''),
     (''driveruser1'', ''Pavel Popov''),
     (''driveruser2'', ''Olga Lebedeva''),
     (''driveruser3'', ''Sergey Kozlov''),
     (''driveruser4'', ''Natalia Novikova''),
     (''driveruser5'', ''Alexey Morozov'')]"

text \<open>Login of the user, car, number of the car, license and status.\<close>

definition seed_driver_values :: "(string \<times> string \<times> string \<times> string \<times> string) list" where
  "seed_driver_values =
    [(''driveruser1'', ''Hyundai Solaris'', ''A111AA77'', ''LIC-0001'', ''online''),
     (''driveruser2'', ''Kia Rio'', ''B222BB77'', ''LIC-0002'', ''online''),
     (''driveruser3'', ''Skoda Octavia'', ''C333CC77'', ''LIC-0003'', ''busy''),
     (''driveruser4'', ''Toyota Camry'', ''D444DD77'', ''LIC-0004'', ''online''),
     (''driveruser5'', ''Volkswagen Polo'', ''E555EE77'', ''LIC-0005'', ''offline''),
     (''passenger1'', ''Lada Vesta'', ''F666FF77'', ''LIC-0006'', ''online''),
     (''passenger2'', ''Renault Logan'', ''G777GG77'', ''LIC-0007'', ''busy''),
     (''passenger3'', ''Ford Focus'', ''H888HH77'', ''LIC-0008'', ''online''),
     (''passenger4'', ''Nissan Almera'', ''I999II77'', ''LIC-0009'', ''online''),
     (''passenger5'', ''Chevrolet Aveo'', ''J101JJ77'', ''LIC-0010'', ''offline'')]"

text \<open>Login of the passenger, number of the driver's car, addresses and status.\<close>

definition seed_ride_values :: "(string \<times> string option \<times> string \<times> string \<times> string) list" where
  "seed_ride_values =
    [(''passenger1'', None, ''Lenina 10'', ''Tverskaya 5'', ''searching''),
     (''passenger2'', Some ''A111AA77'', ''Arbat 15'', ''Mira 20'', ''accepted''),
     (''passenger3'', Some ''C333CC77'', ''Nevsky 1'', ''Ligovsky 8'', ''completed''),
     (''passenger4'', None, ''Pushkina 3'', ''Sadovaya 17'', ''searching''),
     (''passenger5'', Some ''D444DD77'', ''Prospekt 12'', ''Center Mall'', ''accepted''),
     (''passenger1'', Some ''G777GG77'', ''Airport'', ''Hotel'', ''completed''),
     (''passenger2'', None, ''Station'', ''University'', ''searching''),
     (''passenger3'', Some ''H888HH77'', ''Park'', ''Office'', ''completed''),
     (''passenger4'', None, ''Home'', ''Cinema'', ''searching''),
     (''passenger5'', Some ''I999II77'', ''Market'', ''Airport'', ''completed'')]"

text \<open>Rows get the next value of the identity sequence in the order of the list.\<close>

definition number_rows :: "'a list \<Rightarrow> (int \<times> 'a) list" where
  "number_rows xs = zip (map int [1..<Suc (length xs)]) xs"

definition seed_users :: "int \<Rightarrow> user_row list" where
  "seed_users now =
     map (\<lambda>(i, login, name). \<lparr>ur_id = i, ur_login = login, ur_password = ''pass123'', ur_full_name = name,
            ur_created_at = now\<rparr>)
       (number_rows seed_user_values)"

text \<open>\<open>SELECT id FROM users WHERE login = ...\<close>; 0 stands for no row, which the schema refuses.\<close>

definition seed_user_id :: "string \<Rightarrow> int" where
  "seed_user_id login =
     (case find (\<lambda>r. ur_login r = login) (seed_users 0) of None \<Rightarrow> 0 | Some r \<Rightarrow> ur_id r)"

definition seed_drivers :: "driver_row list" where
  "seed_drivers =
     map (\<lambda>(i, login, model, car_number, license, status).
            \<lparr>dr_id = i, dr_user_id = seed_user_id login, dr_car_model = model, dr_car_number = car_number,
             dr_license_number = license, dr_status = status\<rparr>)
       (number_rows seed_driver_values)"

definition seed_driver_id :: "string \<Rightarrow> int" where
  "seed_driver_id car_number =
     (case find (\<lambda>r. dr_car_number r = car_number) seed_drivers of None \<Rightarrow> 0 | Some r \<Rightarrow> dr_id r)"

definition seed_rides :: "int \<Rightarrow> ride_row list" where
  "seed_rides now =
     map (\<lambda>(i, login, car, pickup, destination, status).
            \<lparr>rr_id = i, rr_passenger_id = seed_user_id login, rr_driver_id = map_option seed_driver_id car,
             rr_pickup_address = pickup, rr_destination_address = destination, rr_status = status,
             rr_created_at = now, rr_completed_at = (if status = ''completed'' then Some now else None)\<rparr>)
       (number_rows seed_ride_values)"

definition seed_database :: "int \<Rightarrow> database" where
  "seed_database now =
     \<lparr>users = seed_users now, drivers = seed_drivers, rides = seed_rides now,
      users_id_seq = 11, drivers_id_seq = 11, rides_id_seq = 11\<rparr>"

section \<open>The seed and the schema\<close>

lemma seed_users_inv: "users_inv (seed_database now)"
  by code_simp

lemma seed_drivers_inv: "drivers_inv (seed_database now)"
  by code_simp

lemma seed_rides_refs:
  "list_all (\<lambda>r. case rr_driver_id r of None \<Rightarrow> True | Some d \<Rightarrow> d \<in> dr_id ` set seed_drivers) (seed_rides now)"
  by code_simp

lemma seed_rides_rows:
  "distinct (map rr_id (seed_rides now)) \<and>
   (\<forall>r\<in>set (seed_rides now). rides_check r \<and> rides_fit r \<and> 1 \<le> rr_id r \<and> rr_id r < 11 \<and>
      rr_passenger_id r \<in> ur_id ` set (seed_users now))"
  by code_simp

lemma seed_rides_shape: "rides_shape (seed_database now)"
  by code_simp

lemma seed_wf: "dispatch_wf (seed_database now)"
proof -
  have "rides_inv (seed_database now)"
    using seed_rides_rows [of now] seed_rides_refs [of now]
    by (auto simp: rides_inv_def seed_database_def list_all_iff split: option.splits)
  with seed_users_inv seed_drivers_inv seed_rides_shape show ?thesis
    by (simp add: dispatch_wf_def db_inv_def sequences_start_def seed_database_def)
qed

section \<open>Properties\<close>

definition seed_start :: "bson list server" where
  "seed_start = server_init (seed_database 0) []"

definition passenger_logs_in :: operation where
  "passenger_logs_in = (demo_env 1 NoFault,
     demo_req ''POST'' ''/auth/login'' [] [] [] ''login=passenger1&password=pass123'')"

definition first_ride_accepted :: operation where
  "first_ride_accepted = (demo_env 2 NoFault,
     demo_req ''PATCH'' ''/rides/1/accept'' ''token-1-1'' [] ''1'' ''driver_id=1'')"

text \<open>The seed breaks the order of the dispatch: it satisfies the schema, but the first driver is
  online although a ride of his is accepted; he can be given a second one, and then two accepted rides
  have the same driver.\<close>

theorem seed_is_out_of_order:
  "dispatch_wf (seed_database now) \<and> \<not> board_ok (show_board (seed_database now)) \<and>
   map rr_id (filter (\<lambda>r. rr_status r = ''accepted'' \<and> rr_driver_id r = Some 1)
     (rides (server_db (server_run demo [passenger_logs_in, first_ride_accepted] seed_start)))) = [1, 2]"
proof -
  have "ride_phase (show_board (seed_database now)) 2 = Some (Accepted 1)"
    "driver_avail (show_board (seed_database now)) 1 = Some Online"
    by code_simp+
  then have "\<not> board_ok (show_board (seed_database now))"
    unfolding board_ok_def by (metis availability.distinct(1) option.inject)
  moreover have "map rr_id (filter (\<lambda>r. rr_status r = ''accepted'' \<and> rr_driver_id r = Some 1)
     (rides (server_db (server_run demo [passenger_logs_in, first_ride_accepted] seed_start)))) = [1, 2]"
    by code_simp
  ultimately show ?thesis using seed_wf by blast
qed

text \<open>A driver who is busy without an accepted ride stays busy and is never given a ride, whatever
  requests come: no endpoint sets his status but the end of a ride of his.\<close>

theorem busy_without_ride_is_stuck:
  assumes "dispatch_wf db" and "driver_avail (show_board db) d = Some Busy"
    and "\<forall>r\<in>set (rides db). \<not> (rr_status r = ''accepted'' \<and> rr_driver_id r = Some d)"
  shows "driver_avail (show_board (server_db (server_run pf ops (server_init db m)))) d = Some Busy \<and>
    (\<forall>i. ride_phase (show_board (server_db (server_run pf ops (server_init db m)))) i \<noteq> Some (Accepted d))"
proof -
  have "ride_phase (show_board db) i \<noteq> Some (Accepted d)" for i
    using assms(3) accepted_phase_row [OF assms(1), of i d] by blast
  with assms(1,2) have "server_wf (server_init db m)" "stuck d (server_board (server_init db m))"
    by (simp_all add: stuck_def server_wf_init server_board_init)
  from server_dispatch.run_keeps [where K = "stuck d", OF board_step_stuck this]
  have "stuck d (server_board (fold (server_step pf) ops (server_init db m)))" .
  then show ?thesis by (simp add: stuck_def server_run_def server_board_def)
qed

theorem busy_without_ride_is_stuck_witness:
  "driver_avail (show_board (server_db (server_run demo [passenger_logs_in, first_ride_accepted]
     (server_init (seed_database 0) [])))) 3 = Some Busy"
proof -
  have "driver_avail (show_board (seed_database 0)) 3 = Some Busy" by code_simp
  moreover have "\<forall>r\<in>set (rides (seed_database 0)). \<not> (rr_status r = ''accepted'' \<and> rr_driver_id r = Some 3)"
    by code_simp
  ultimately show ?thesis
    by (rule busy_without_ride_is_stuck [OF seed_wf, THEN conjunct1])
qed

end
