(* ===== verification/StorageApi.thy ===== *)
theory StorageApi
  imports ServerInvariant
begin

text \<open>
  The class \<open>TaxiStorage\<close> as a client sees it (\<open>storage/taxi_storage.hpp\<close>): one constructor per
  public method with its parameters, one reply per type of result, and the calls of a client one
  after the other. The methods declared \<open>const\<close> take the state and return no new one.
\<close>

section \<open>The public methods\<close>

datatype storage_call =
    Call_CreateUser string string string
  | Call_GetUserById int
  | Call_GetUserByLogin string
  | Call_FindUsersByNameMask string
  | Call_Login string string
  | Call_IsTokenValid string
  | Call_CreateDriver int string string string
  | Call_GetDriverById int
  | Call_GetDriverByUserId int
  | Call_GetActiveDrivers
  | Call_UpdateDriverStatus int string
  | Call_CreateRide int string string
  | Call_GetRideById int
  | Call_GetRidesByUserId int
  | Call_GetActiveRides
  | Call_AcceptRide int int
  | Call_CompleteRide int

datatype storage_reply =
    Reply_User "user option"
  | Reply_Users "user list"
  | Reply_Token "string option"
  | Reply_Bool bool
  | Reply_Driver "driver option"
  | Reply_Drivers "driver list"
  | Reply_Ride "ride option"
  | Reply_Rides "ride list"

text \<open>A method that changes the state, and a \<open>const\<close> method, with the reply of its type.\<close>

definition mutating :: "('a \<Rightarrow> storage_reply) \<Rightarrow> 'a result \<times> taxi_storage \<Rightarrow>
    storage_reply result \<times> taxi_storage" where
  "mutating reply out = map_prod (map_sum id reply) id out"

definition const_method :: "('a \<Rightarrow> storage_reply) \<Rightarrow> 'a result \<Rightarrow> taxi_storage \<Rightarrow>
    storage_reply result \<times> taxi_storage" where
  "const_method reply res st = (map_sum id reply res, st)"

fun storage_apply :: "pg_env \<Rightarrow> storage_call \<Rightarrow> taxi_storage \<Rightarrow> storage_reply result \<times> taxi_storage" where
  "storage_apply env (Call_CreateUser login password full_name) st =
     mutating Reply_User (CreateUser env login password full_name st)"
| "storage_apply env (Call_GetUserById i) st = const_method Reply_User (GetUserById env i st) st"
| "storage_apply env (Call_GetUserByLogin login) st =
     const_method Reply_User (GetUserByLogin env login st) st"
| "storage_apply env (Call_FindUsersByNameMask name_mask) st =
     const_method Reply_Users (FindUsersByNameMask env name_mask st) st"
| "storage_apply env (Call_Login login password) st = mutating Reply_Token (Login env login password st)"
| "storage_apply env (Call_IsTokenValid token) st = (Inr (Reply_Bool (IsTokenValid st token)), st)"
| "storage_apply env (Call_CreateDriver uid car_model car_number license_number) st =
     mutating Reply_Driver (CreateDriver env uid car_model car_number license_number st)"
| "storage_apply env (Call_GetDriverById i) st = const_method Reply_Driver (GetDriverById env i st) st"
| "storage_apply env (Call_GetDriverByUserId uid) st =
     const_method Reply_Driver (GetDriverByUserId env uid st) st"
| "storage_apply env Call_GetActiveDrivers st = const_method Reply_Drivers (GetActiveDrivers env st) st"
| "storage_apply env (Call_UpdateDriverStatus i status) st =
     mutating Reply_Driver (UpdateDriverStatus env i status st)"
| "storage_apply env (Call_CreateRide passenger pickup_address destination_address) st =
     mutating Reply_Ride (CreateRide env passenger pickup_address destination_address st)"
| "storage_apply env (Call_GetRideById i) st = const_method Reply_Ride (GetRideById env i st) st"
| "storage_apply env (Call_GetRidesByUserId uid) st =
     const_method Reply_Rides (GetRidesByUserId env uid st) st"
| "storage_apply env Call_GetActiveRides st = const_method Reply_Rides (GetActiveRides env st) st"
| "storage_apply env (Call_AcceptRide rid did) st = mutating Reply_Ride (AcceptRide env rid did st)"
| "storage_apply env (Call_CompleteRide rid) st = mutating Reply_Ride (CompleteRide env rid st)"

lemmas method_defs = mutating_def const_method_def

lemma snd_mutating [simp]: "snd (mutating reply out) = snd out"
  by (simp add: mutating_def)

lemma snd_const_method [simp]: "snd (const_method reply res st) = st"
  by (simp add: const_method_def)

text \<open>The calls of a client, each with what the world does to it.\<close>

definition api_step :: "pg_env \<times> storage_call \<Rightarrow> taxi_storage \<Rightarrow> taxi_storage" where
  "api_step ec st = snd (storage_apply (fst ec) (snd ec) st)"

definition api_run :: "(pg_env \<times> storage_call) list \<Rightarrow> taxi_storage \<Rightarrow> taxi_storage" where
  "api_run ecs st = fold api_step ecs st"

text \<open>The one method that no handler calls: it sets the status of a driver without looking at the rides.\<close>

fun is_status_update :: "storage_call \<Rightarrow> bool" where
  "is_status_update (Call_UpdateDriverStatus i status) = True"
| "is_status_update _ = False"

section \<open>Invariants of the class\<close>

lemma UpdateDriverStatus_tokens:
  "UpdateDriverStatus env i s st = (res, st') \<Longrightarrow> tokens st' = tokens st \<and> next_token_id st' = next_token_id st"
  by (auto simp: UpdateDriverStatus_def split: prod.splits sum.splits exn.splits dest: Execute_tokens)

lemma api_step_inv:
  assumes "db_inv (pg_cluster st)" and "tokens_inv st"
  shows "db_inv (pg_cluster (api_step ec st)) \<and> tokens_inv (api_step ec st)"
proof -
  obtain env c where ec: "ec = (env, c)" by fastforce
  show ?thesis
  proof (cases c)
    case (Call_CreateUser l p f)
    with assms show ?thesis
      by (cases "CreateUser env l p f st")
        (auto simp: ec api_step_def intro: CreateUser_inv tokens_inv_frame dest: CreateUser_tokens)
  next
    case (Call_Login l p)
    with assms show ?thesis
      by (cases "Login env l p st")
        (auto simp: ec api_step_def intro: Login_inv Login_tokens_inv)
  next
    case (Call_CreateDriver u m n l)
    with assms show ?thesis
      by (cases "CreateDriver env u m n l st")
        (auto simp: ec api_step_def intro: CreateDriver_inv tokens_inv_frame dest: CreateDriver_tokens)
  next
    case (Call_UpdateDriverStatus i s)
    with assms show ?thesis
      by (cases "UpdateDriverStatus env i s st")
        (auto simp: ec api_step_def intro: UpdateDriverStatus_inv tokens_inv_frame dest: UpdateDriverStatus_tokens)
  next
    case (Call_CreateRide u p d)
    with assms show ?thesis
      by (cases "CreateRide env u p d st")
        (auto simp: ec api_step_def intro: CreateRide_inv tokens_inv_frame dest: CreateRide_tokens)
  next
    case (Call_AcceptRide i j)
    with assms show ?thesis
      by (cases "AcceptRide env i j st")
        (auto simp: ec api_step_def intro: AcceptRide_inv tokens_inv_frame dest: AcceptRide_tokens)
  next
    case (Call_CompleteRide i)
    with assms show ?thesis
      by (cases "CompleteRide env i st")
        (auto simp: ec api_step_def intro: CompleteRide_inv tokens_inv_frame dest: CompleteRide_tokens)
  qed (use assms in \<open>simp_all add: ec api_step_def\<close>)
qed

lemma api_run_inv:
  assumes "db_inv (pg_cluster st)" and "tokens_inv st"
  shows "db_inv (pg_cluster (api_run ecs st)) \<and> tokens_inv (api_run ecs st)"
  using assms unfolding api_run_def
  by (induction ecs arbitrary: st) (simp_all add: api_step_inv)

section \<open>The board\<close>

text \<open>Without the status update every call is a step of the dispatch board.\<close>

lemma api_step_board:
  assumes wf: "dispatch_wf (pg_cluster st)" and "\<not> is_status_update (snd ec)"
  shows "dispatch_wf (pg_cluster (api_step ec st)) \<and>
    board_step (show_board (pg_cluster st)) (show_board (pg_cluster (api_step ec st)))"
proof -
  obtain env c where ec: "ec = (env, c)" by fastforce
  have same: "dispatch_wf (pg_cluster st) \<and> board_step (show_board (pg_cluster st)) (show_board (pg_cluster st))"
    using wf by (simp add: board_step.stutter)
  show ?thesis
  proof (cases c)
    case (Call_CreateUser l p f)
    with CreateUser_board [OF wf, of env l p f] show ?thesis
      by (cases "CreateUser env l p f st") (simp add: ec api_step_def board_step.stutter)
  next
    case (Call_Login l p)
    with same show ?thesis
      by (cases "Login env l p st") (simp add: ec api_step_def Login_pg_cluster)
  next
    case (Call_CreateDriver u m n l)
    with CreateDriver_board [OF wf, of env u m n l] show ?thesis
      by (cases "CreateDriver env u m n l st") (simp add: ec api_step_def)
  next
    case (Call_UpdateDriverStatus i s)
    with assms(2) show ?thesis by (simp add: ec)
  next
    case (Call_CreateRide u p d)
    with CreateRide_board [OF wf, of env u p d] show ?thesis
      by (cases "CreateRide env u p d st") (simp add: ec api_step_def)
  next
    case (Call_AcceptRide i j)
    with AcceptRide_board [OF wf, of env i j] show ?thesis
      by (cases "AcceptRide env i j st") (simp add: ec api_step_def)
  next
    case (Call_CompleteRide i)
    with CompleteRide_board [OF wf, of env i] show ?thesis
      by (cases "CompleteRide env i st") (simp add: ec api_step_def)
  qed (use same in \<open>simp_all add: ec api_step_def\<close>)
qed

lemma api_run_good:
  assumes "good_start (pg_cluster st)" and "list_all (\<lambda>ec. \<not> is_status_update (snd ec)) ecs"
  shows "good_start (pg_cluster (api_run ecs st))"
  using assms unfolding api_run_def
proof (induction ecs arbitrary: st)
  case (Cons ec ecs)
  with api_step_board [of st ec] board_step_ok have "good_start (pg_cluster (api_step ec st))"
    by (auto simp: good_start_def)
  with Cons show ?case by simp
qed simp

text \<open>The status update moves the driver on the board, whatever his rides are.\<close>

lemma UpdateDriverStatus_row:
  assumes run: "UpdateDriverStatus env i s st = (Inr (Some d), st')"
  obtains row st0 where "row \<in> set (drivers (pg_cluster st))" "dr_id row = i" "driver_status d = st0"
    "st0 \<in> {''online'', ''busy'', ''offline''}"
    "st' = st\<lparr>pg_cluster := (pg_cluster st)\<lparr>drivers :=
       map (\<lambda>r. if dr_id r = i then r\<lparr>dr_status := st0\<rparr> else r) (drivers (pg_cluster st))\<rparr>\<rparr>"
proof -
  let ?db = "pg_cluster st"
  from run obtain st0 where st0: "varchar 20 s = Inr st0"
    by (auto simp: UpdateDriverStatus_def Execute_def kUpdateDriverStatus_def Let_def
        split: pg_fault.splits sum.splits)
  let ?rows = "map (\<lambda>r. r\<lparr>dr_status := st0\<rparr>) (filter (\<lambda>r. dr_id r = i) (drivers ?db))"
  from run st0 have ok: "list_all drivers_check ?rows" "first_row ParseDriver (map select_driver ?rows) = Some d"
    and st': "st' = st\<lparr>pg_cluster := ?db\<lparr>drivers :=
       map (\<lambda>r. if dr_id r = i then r\<lparr>dr_status := st0\<rparr> else r) (drivers ?db)\<rparr>\<rparr>"
    by (auto simp: UpdateDriverStatus_def Execute_def kUpdateDriverStatus_def Let_def
        split: pg_fault.splits if_splits)
  then obtain row rest where row: "filter (\<lambda>r. dr_id r = i) (drivers ?db) = row # rest"
    by (cases "filter (\<lambda>r. dr_id r = i) (drivers ?db)") (auto simp: first_row_def)
  then have "row \<in> set (filter (\<lambda>r. dr_id r = i) (drivers ?db))" by simp
  then have "row \<in> set (drivers ?db)" "dr_id row = i" by simp_all
  moreover from ok row have "driver_status d = st0" "st0 \<in> {''online'', ''busy'', ''offline''}"
    by (auto simp: first_row_def ParseDriver_def select_driver_def drivers_check_def)
  ultimately show thesis using that st' by blast
qed

lemma UpdateDriverStatus_board:
  assumes inv: "db_inv (pg_cluster st)" and run: "UpdateDriverStatus env i s st = (Inr (Some d), st')"
  shows "show_board (pg_cluster st') = (show_board (pg_cluster st))\<lparr>driver_avail :=
      (driver_avail (show_board (pg_cluster st)))(i \<mapsto>
        if driver_status d = ''busy'' then Busy else if driver_status d = ''online'' then Online else Offline)\<rparr>"
  using run
proof (cases rule: UpdateDriverStatus_row)
  case (1 row st0)
  from inv 1 have old: "driver_of (pg_cluster st) i = Some row" by (simp add: driver_of_Some)
  have lookup: "driver_of (pg_cluster st') j =
      (if j = i then map_option (\<lambda>r. r\<lparr>dr_status := st0\<rparr>) (driver_of (pg_cluster st) j)
       else driver_of (pg_cluster st) j)" for j
    using find_map_key [of dr_id "\<lambda>r. r\<lparr>dr_status := st0\<rparr>" j i "\<lambda>_. True" "drivers (pg_cluster st)"]
    by (auto simp: 1(5) driver_of_def split: option.split)
  have "ride_of (pg_cluster st') j = ride_of (pg_cluster st) j" for j
    by (simp add: 1(5) ride_of_def)
  with lookup old 1(3) show ?thesis
    by (auto simp: show_board_def avail_of_def fun_eq_iff)
qed

section \<open>The server as a client\<close>

text \<open>Whatever a request does to the storage, it does by at most one public call, never the status update.\<close>

definition client_calls :: "(pg_env \<times> storage_call) list \<Rightarrow> bool" where
  "client_calls ecs \<longleftrightarrow> list_all (\<lambda>ec. \<not> is_status_update (snd ec)) ecs"

lemma api_run_single: "api_run [(env, c)] st = snd (storage_apply env c st)"
  by (simp add: api_run_def api_step_def)

lemma dispatch_api:
  assumes "dispatch pf env req resp s = (r, s')"
  shows "\<exists>ecs. length ecs \<le> 1 \<and> client_calls ecs \<and> server_storage s' = api_run ecs (server_storage s)"
proof -
  have one: ?thesis if "server_storage s' = snd (storage_apply (env_pg env) c (server_storage s))"
    "\<not> is_status_update c" for c
    using that by (intro exI [of _ "[(env_pg env, c)]"]) (simp add: api_run_single client_calls_def)
  from assms show ?thesis
  proof (cases rule: dispatch_storage_cases)
    case (Login l p res)
    then show ?thesis by (intro one [of "Call_Login l p"]) simp_all
  next
    case (CreateUser l p f res)
    then show ?thesis by (intro one [of "Call_CreateUser l p f"]) simp_all
  next
    case (CreateDriver u m n l res)
    then show ?thesis by (intro one [of "Call_CreateDriver u m n l"]) simp_all
  next
    case (CreateRide u p d res)
    then show ?thesis by (intro one [of "Call_CreateRide u p d"]) simp_all
  next
    case (AcceptRide rid did res)
    then show ?thesis by (intro one [of "Call_AcceptRide rid did"]) simp_all
  next
    case (CompleteRide rid res)
    then show ?thesis by (intro one [of "Call_CompleteRide rid"]) simp_all
  next
    case Same
    then show ?thesis by (intro exI [of _ "[]"]) (simp add: client_calls_def api_run_def)
  next
    case LoginNone
    then show ?thesis by (intro exI [of _ "[]"]) (simp add: client_calls_def api_run_def)
  qed
qed

lemma server_run_api:
  "\<exists>ecs. length ecs \<le> length ops \<and> client_calls ecs \<and>
     server_storage (server_run pf ops s) = api_run ecs (server_storage s)"
proof (induction ops rule: rev_induct)
  case Nil
  show ?case by (intro exI [of _ "[]"]) (simp add: client_calls_def api_run_def server_run_def)
next
  case (snoc op ops)
  let ?s = "server_run pf ops s"
  have "\<exists>ecs. length ecs \<le> 1 \<and> client_calls ecs \<and>
      server_storage (server_step pf op ?s) = api_run ecs (server_storage ?s)"
  proof (cases rule: handle_cases [of ?s "snd op" pf "fst op"])
    case Passed
    then show ?thesis
      using dispatch_api [of pf "fst op" "snd op" empty_response ?s]
      by (cases "dispatch pf (fst op) (snd op) empty_response ?s") (simp add: server_step_def)
  next
    case Refused
    then show ?thesis
      by (intro exI [of _ "[]"]) (simp add: server_step_def client_calls_def api_run_def)
  qed
  then obtain ecs' where one: "length ecs' \<le> 1" "client_calls ecs'"
    "server_storage (server_step pf op ?s) = api_run ecs' (server_storage ?s)" by blast
  from snoc obtain ecs where before: "length ecs \<le> length ops" "client_calls ecs"
    "server_storage ?s = api_run ecs (server_storage s)" by blast
  from one before have "length (ecs @ ecs') \<le> length (ops @ [op]) \<and> client_calls (ecs @ ecs') \<and>
      server_storage (server_run pf (ops @ [op]) s) = api_run (ecs @ ecs') (server_storage s)"
    by (simp add: server_run_def api_run_def client_calls_def)
  then show ?case by blast
qed

end
