(* ===== verification/ApiProperties.thy ===== *)
theory ApiProperties
  imports StorageApi Scenario
begin

text \<open>
  The properties of \<open>TaxiStorage\<close> as a class: what every client can rely on, what the server uses
  of it, and what its one unguarded method can do.
\<close>

section \<open>Every client\<close>

text \<open>C24: Whatever public methods of \<open>TaxiStorage\<close> any client calls, with any arguments and any
  faults of the connection, the tables keep all constraints of the schema and the token map stays
  consistent; and as long as nobody calls \<open>UpdateDriverStatus\<close>, a driver is busy exactly while one
  accepted ride is his.\<close>

theorem api_keeps_invariants:
  assumes "db_inv db"
  shows "db_inv (pg_cluster (api_run ecs (TaxiStorage_ctor db))) \<and>
    tokens_inv (api_run ecs (TaxiStorage_ctor db)) \<and>
    (good_start db \<and> client_calls ecs \<longrightarrow> good_start (pg_cluster (api_run ecs (TaxiStorage_ctor db))))"
  using assms api_run_inv [of "TaxiStorage_ctor db" ecs] api_run_good [of "TaxiStorage_ctor db" ecs]
  by (simp add: tokens_inv_ctor client_calls_def) (simp add: TaxiStorage_ctor_def)

definition api_day :: "(pg_env \<times> storage_call) list" where
  "api_day =
     [(demo_pg 1, Call_CreateUser ''ann'' ''pw'' ''Ann Lee''),
      (demo_pg 2, Call_CreateDriver 1 ''Kia Rio'' ''A111AA77'' ''77AA''),
      (demo_pg 3, Call_CreateRide 1 ''Arbat 1'' ''Arbat 2''),
      (demo_pg 4, Call_AcceptRide 1 1),
      (demo_pg 5, Call_CreateRide 1 ''Arbat 3'' ''Arbat 4'')]"

theorem api_keeps_invariants_witness:
  "good_start (pg_cluster (api_run api_day (TaxiStorage_ctor empty_database))) \<and>
   map rr_status (rides (pg_cluster (api_run api_day (TaxiStorage_ctor empty_database)))) = [''accepted'', ''searching'']"
proof
  have "client_calls api_day" by (simp add: client_calls_def api_day_def)
  with api_keeps_invariants [OF db_inv_empty, of api_day] good_start_empty
  show "good_start (pg_cluster (api_run api_day (TaxiStorage_ctor empty_database)))" by blast
  show "map rr_status (rides (pg_cluster (api_run api_day (TaxiStorage_ctor empty_database)))) =
      [''accepted'', ''searching'']"
    by code_simp
qed

section \<open>The server\<close>

text \<open>The server is a client of the public methods: whatever requests it answered, its storage is
  the result of at most one call for each, and \<open>UpdateDriverStatus\<close> is never among them.\<close>

theorem server_uses_public_calls:
  "\<exists>ecs. length ecs \<le> length ops \<and> client_calls ecs \<and>
     server_storage (server_run pf ops (server_init db m)) = api_run ecs (TaxiStorage_ctor db)"
  using server_run_api [of ops pf "server_init db m"]
  by (simp add: server_storage_def server_init_def service_init_def)

section \<open>The status update\<close>

text \<open>C25: \<open>UpdateDriverStatus\<close> is safe only in the hands of a careful caller: on a database in good
  order, an update that answers with a driver leaves it in good order exactly when the status it set is
  busy if and only if an accepted ride is his.\<close>

theorem status_update_safe_iff:
  assumes good: "good_start (pg_cluster st)"
    and run: "UpdateDriverStatus env i s st = (Inr (Some d), st')"
  shows "good_start (pg_cluster st') \<longleftrightarrow>
    (driver_status d = ''busy'' \<longleftrightarrow>
      (\<exists>r\<in>set (rides (pg_cluster st)). rr_status r = ''accepted'' \<and> rr_driver_id r = Some i))"
proof -
  let ?b = "show_board (pg_cluster st)"
  from good have wf: "dispatch_wf (pg_cluster st)" and inv: "db_inv (pg_cluster st)" and ok: "board_ok ?b"
    by (simp_all add: good_start_def dispatch_wf_def)
  have serving: "(\<exists>r\<in>set (rides (pg_cluster st)). rr_status r = ''accepted'' \<and> rr_driver_id r = Some i) \<longleftrightarrow>
      (\<exists>r. ride_phase ?b r = Some (Accepted i))"
    by (metis accepted_row [OF wf] accepted_phase_row [OF wf] option.inject)
  have "dispatch_wf (pg_cluster st')"
    using wf UpdateDriverStatus_inv [OF inv run] UpdateDriverStatus_row [OF run]
    by (metis (no_types, lifting) dispatch_wf_def rides_shape_def database.select_convs(3) database.surjective
        database.update_convs(2) taxi_storage.select_convs(1) taxi_storage.surjective taxi_storage.update_convs(1))
  moreover have "board_ok (show_board (pg_cluster st')) \<longleftrightarrow>
      (driver_status d = ''busy'' \<longleftrightarrow> (\<exists>r. ride_phase ?b r = Some (Accepted i)))"
    using ok unfolding UpdateDriverStatus_board [OF inv run] board_ok_def by auto
  ultimately show ?thesis by (simp add: good_start_def serving)
qed

text \<open>The driver of an accepted ride, set online, is given a second ride.\<close>

definition busy_day :: taxi_storage where
  "busy_day = api_run api_day (TaxiStorage_ctor empty_database)"

theorem status_update_safe_iff_witness:
  "\<not> good_start (pg_cluster (api_run [(demo_pg 6, Call_UpdateDriverStatus 1 ''online'')] busy_day)) \<and>
   map rr_driver_id (filter (\<lambda>r. rr_status r = ''accepted'') (rides (pg_cluster
     (api_run [(demo_pg 6, Call_UpdateDriverStatus 1 ''online''), (demo_pg 7, Call_AcceptRide 2 1)] busy_day)))) =
     [Some 1, Some 1]"
proof
  let ?out = "UpdateDriverStatus (demo_pg 6) 1 ''online'' busy_day"
  have good: "good_start (pg_cluster busy_day)"
    unfolding busy_day_def using api_run_good [of "TaxiStorage_ctor empty_database" api_day] good_start_empty
    by (simp add: api_day_def TaxiStorage_ctor_def)
  have "map_sum id (map_option driver_status) (fst ?out) = Inr (Some ''online'')" by code_simp
  then obtain d where d: "fst ?out = Inr (Some d)" "driver_status d = ''online''"
    by (cases "fst ?out") auto
  then have run: "?out = (Inr (Some d), snd ?out)" by (simp add: prod_eq_iff)
  have "list_ex (\<lambda>r. rr_status r = ''accepted'' \<and> rr_driver_id r = Some 1) (rides (pg_cluster busy_day))"
    by code_simp
  with status_update_safe_iff [OF good run] d(2)
  show "\<not> good_start (pg_cluster (api_run [(demo_pg 6, Call_UpdateDriverStatus 1 ''online'')] busy_day))"
    by (simp add: api_run_single list_ex_iff)
  show "map rr_driver_id (filter (\<lambda>r. rr_status r = ''accepted'') (rides (pg_cluster
     (api_run [(demo_pg 6, Call_UpdateDriverStatus 1 ''online''), (demo_pg 7, Call_AcceptRide 2 1)] busy_day)))) =
     [Some 1, Some 1]"
    by code_simp
qed

end
