(* ===== verification/ApiDescription.thy ===== *)
theory ApiDescription
  imports Progress
begin

text \<open>
  The responses that \<open>openapi.yaml\<close> describes: the schemas of the bodies as data, what it means for
  a JSON value to conform to one, and the proof that every answer of the service is described:
  its status, its content type, its \<open>X-Cache\<close> header and the type of its body, also when the body
  comes out of the cache.
\<close>

section \<open>Schemas\<close>

datatype json_type =
    T_Integer
  | T_String
  | T_Array json_type
  | T_Object "(string \<times> json_type) list"
  | T_OneOf json_type json_type

lemma size_member [termination_simp]: "map_of ps k = Some t \<Longrightarrow> size t < Suc (size_list (size_prod (\<lambda>_. 0) size) ps)"
  by (induction ps) (auto split: if_splits)

text \<open>
  An object has only described members, each of its type; the descriptions of responses require no
  member.
\<close>

fun conforms :: "json_type \<Rightarrow> jval \<Rightarrow> bool" where
  "conforms T_Integer j = (case j of JInt i \<Rightarrow> True | _ \<Rightarrow> False)"
| "conforms T_String j = (case j of JStr s \<Rightarrow> True | _ \<Rightarrow> False)"
| "conforms (T_Array t) j = (case j of JArr js \<Rightarrow> list_all (conforms t) js | _ \<Rightarrow> False)"
| "conforms (T_Object ps) j =
     (case j of
        JObj ms \<Rightarrow>
          list_all (\<lambda>kv. case map_of ps (fst kv) of None \<Rightarrow> False | Some t \<Rightarrow> conforms t (snd kv)) ms
      | _ \<Rightarrow> False)"
| "conforms (T_OneOf t u) j = (conforms t j \<or> conforms u j)"

definition UserResponse :: json_type where
  "UserResponse = T_Object [(''id'', T_Integer), (''login'', T_String), (''full_name'', T_String)]"

definition LoginResponse :: json_type where
  "LoginResponse = T_Object [(''token'', T_String)]"

definition DriverResponse :: json_type where
  "DriverResponse =
     T_Object [(''id'', T_Integer), (''user_id'', T_Integer), (''car_model'', T_String),
       (''car_number'', T_String), (''license_number'', T_String), (''status'', T_String)]"

definition RideResponse :: json_type where
  "RideResponse =
     T_Object [(''id'', T_Integer), (''passenger_id'', T_Integer), (''driver_id'', T_Integer),
       (''pickup_address'', T_String), (''destination_address'', T_String), (''status'', T_String)]"

definition MongoUserResponse :: json_type where
  "MongoUserResponse =
     T_Object [(''login'', T_String), (''first_name'', T_String), (''last_name'', T_String),
       (''status'', T_String), (''profile'', T_Object [(''email'', T_String), (''phone'', T_String)]),
       (''source'', T_String)]"

definition ErrorResponse :: json_type where
  "ErrorResponse = T_Object [(''error'', T_String)]"

lemmas response_schemas = UserResponse_def LoginResponse_def DriverResponse_def RideResponse_def
  MongoUserResponse_def ErrorResponse_def

text \<open>The schema of the body of the successful answer of each operation, and the headers it describes.\<close>

fun success_schema :: "endpoint \<Rightarrow> json_type" where
  "success_schema EP_UsersCreate = UserResponse"
| "success_schema EP_UsersGet = T_OneOf UserResponse (T_Array UserResponse)"
| "success_schema EP_AuthLogin = LoginResponse"
| "success_schema EP_DriversCreate = DriverResponse"
| "success_schema EP_RidesCreate = RideResponse"
| "success_schema EP_RidesGet = T_Array RideResponse"
| "success_schema EP_RidesAccept = RideResponse"
| "success_schema EP_RidesComplete = RideResponse"
| "success_schema EP_MongoUsersCreate = MongoUserResponse"
| "success_schema EP_MongoUsersGet = T_OneOf MongoUserResponse (T_Array MongoUserResponse)"

definition XCache :: "string list" where
  "XCache = [''MISS'', ''HIT'']"

fun describes_XCache :: "endpoint \<Rightarrow> bool" where
  "describes_XCache EP_UsersGet = True"
| "describes_XCache EP_RidesGet = True"
| "describes_XCache _ = False"

section \<open>Described answers\<close>

definition json_text :: "'j json_lib \<Rightarrow> json_type \<Rightarrow> string \<Rightarrow> bool" where
  "json_text lib t body \<longleftrightarrow> (\<exists>j. conforms t j \<and> body = ToString lib j)"

text \<open>Some errors are printed by the library, others are texts in the source.\<close>

definition error_text :: "'j json_lib \<Rightarrow> string \<Rightarrow> bool" where
  "error_text lib body \<longleftrightarrow> json_text lib ErrorResponse body \<or> (\<exists>msg. body = raw_error msg)"

definition described :: "'j json_lib \<Rightarrow> endpoint \<Rightarrow> response \<Rightarrow> bool" where
  "described lib ep resp \<longleftrightarrow>
     resp_content_type resp = ''application/json'' \<and>
     (if resp_status resp < 400
      then json_text lib (success_schema ep) (resp_data resp) \<and>
        (\<not> describes_XCache ep \<or> (\<exists>v\<in>set XCache. resp_headers resp ''X-Cache'' = Some v))
      else error_text lib (resp_data resp))"

lemma error_body_text: "error_text lib (error_body lib msg)"
  unfolding error_text_def json_text_def error_body_def
  by (intro disjI1 exI [of _ "JObj [(''error'', JStr msg)]"]) (simp add: ErrorResponse_def)

lemma raw_error_text: "error_text lib (raw_error msg)"
  by (auto simp: error_text_def)

lemma refusal_text: "error_text lib (refusal_body req)"
proof -
  have "refusal_body req = raw_error
      (if bearer_token req = None then ''missing or invalid Authorization header'' else ''invalid token'')"
    by (simp add: refusal_body_def missing_header_body_def invalid_token_body_def raw_error_def)
  then show ?thesis using raw_error_text by metis
qed

lemma json_textI: "conforms t j \<Longrightarrow> json_text lib t (ToString lib j)"
  by (auto simp: json_text_def)

lemma conforms_json:
  "conforms UserResponse (user_json u)"
  "conforms DriverResponse (driver_json d)"
  "conforms RideResponse (MakeRideJson r)"
  "conforms LoginResponse (JObj [(''token'', JStr t)])"
  by (simp_all add: response_schemas user_json_def driver_json_def MakeRideJson_def)

lemma body_text:
  "json_text lib UserResponse (user_body lib u)"
  "json_text lib DriverResponse (driver_body lib d)"
  "json_text lib RideResponse (ride_body lib r)"
  "json_text lib LoginResponse (token_body lib t)"
  "json_text lib (T_Array RideResponse) (rides_body lib rs)"
  "json_text lib (T_OneOf UserResponse (T_Array UserResponse)) (user_body lib u)"
  "json_text lib (T_OneOf UserResponse (T_Array UserResponse)) (users_body lib us)"
  using conforms_json
  by (auto simp: user_body_def driver_body_def ride_body_def token_body_def rides_body_def
      users_body_def push_rides_map push_users_map list_all_iff intro!: json_textI)

section \<open>Handlers over PostgreSQL\<close>

lemma writers_described:
  "UsersCreate_HandleRequestThrow lib env req empty_response sv = (Inr body, resp, sv') \<Longrightarrow>
     described lib EP_UsersCreate (SetData body resp)"
  "DriversCreate_HandleRequestThrow lib env req empty_response sv = (Inr body, resp, sv') \<Longrightarrow>
     described lib EP_DriversCreate (SetData body resp)"
  "RidesCreate_HandleRequestThrow lib env req empty_response sv = (Inr body, resp, sv') \<Longrightarrow>
     described lib EP_RidesCreate (SetData body resp)"
  "RidesAccept_HandleRequestThrow lib env req empty_response sv = (Inr body, resp, sv') \<Longrightarrow>
     described lib EP_RidesAccept (SetData body resp)"
  "RidesComplete_HandleRequestThrow lib env req empty_response sv = (Inr body, resp, sv') \<Longrightarrow>
     described lib EP_RidesComplete (SetData body resp)"
  "AuthLogin_HandleRequestThrow lib env req empty_response sv = (Inr body, resp, sv') \<Longrightarrow>
     described lib EP_AuthLogin (SetData body resp)"
  by (auto simp: UsersCreate_HandleRequestThrow_def DriversCreate_HandleRequestThrow_def
      RidesCreate_HandleRequestThrow_def RidesAccept_HandleRequestThrow_def
      RidesComplete_HandleRequestThrow_def AuthLogin_HandleRequestThrow_def Let_def
      described_def response_defs empty_response_def error_body_text body_text split: handler_splits)

section \<open>The cache\<close>

text \<open>Under the keys of an operation the cache holds bodies of its schema.\<close>

definition cache_typed :: "'j json_lib \<Rightarrow> response_cache \<Rightarrow> bool" where
  "cache_typed lib c \<longleftrightarrow>
     (\<forall>(k, e)\<in>set (entries c).
        (prefix ''users:'' k \<longrightarrow> json_text lib (success_schema EP_UsersGet) (entry_value e)) \<and>
        (prefix ''rides:'' k \<longrightarrow> json_text lib (success_schema EP_RidesGet) (entry_value e)))"

lemma cache_typed_init: "cache_typed lib ResponseCache_init"
  by (simp add: cache_typed_def ResponseCache_init_def)

lemma cache_typed_subset: "cache_typed lib c \<Longrightarrow> set (entries c') \<subseteq> set (entries c) \<Longrightarrow> cache_typed lib c'"
  unfolding cache_typed_def by blast

lemma CacheGet_entries: "set (entries (snd (CacheGet now k c))) \<subseteq> set (entries c)"
  by (auto simp: CacheGet_def AList.delete_eq split: option.split)

lemma cache_typed_Get: "cache_typed lib c \<Longrightarrow> CacheGet now k c = (r, c') \<Longrightarrow> cache_typed lib c'"
  using CacheGet_entries [of now k c] by (auto intro: cache_typed_subset)

lemma cache_typed_InvalidatePrefix: "cache_typed lib c \<Longrightarrow> cache_typed lib (InvalidatePrefix p c)"
  by (erule cache_typed_subset) (auto simp: InvalidatePrefix_def erase_prefix_filter)

lemma cache_typed_invalidate_if: "cache_typed lib c \<Longrightarrow> cache_typed lib (invalidate_if p res c)"
  by (simp add: invalidate_if_def cache_typed_InvalidatePrefix split: sum.split option.split)

lemma set_AList_update: "set (AList.update k v xs) \<subseteq> insert (k, v) (set xs)"
  by (induction xs) auto

lemma CacheSet_entries:
  "set (entries (CacheSet now k body ttl c)) \<subseteq>
     insert (k, \<lparr>entry_value = body, entry_expires_at = now + ttl * SECOND\<rparr>) (set (entries c))"
  by (simp add: CacheSet_def Let_def set_AList_update)

lemma cache_typed_Set:
  assumes "cache_typed lib c"
    and "prefix ''users:'' k \<Longrightarrow> json_text lib (success_schema EP_UsersGet) body"
    and "prefix ''rides:'' k \<Longrightarrow> json_text lib (success_schema EP_RidesGet) body"
  shows "cache_typed lib (CacheSet now k body ttl c)"
  unfolding cache_typed_def
proof safe
  fix k' e
  assume "(k', e) \<in> set (entries (CacheSet now k body ttl c))"
  with CacheSet_entries [of now k body ttl c]
  have kv: "k' = k \<and> entry_value e = body \<or> (k', e) \<in> set (entries c)" by auto
  from kv assms show "prefix ''users:'' k' \<Longrightarrow> json_text lib (success_schema EP_UsersGet) (entry_value e)"
    unfolding cache_typed_def by auto
  from kv assms show "prefix ''rides:'' k' \<Longrightarrow> json_text lib (success_schema EP_RidesGet) (entry_value e)"
    unfolding cache_typed_def by auto
qed

lemma CacheGet_hit:
  assumes "cache_typed lib c" and "CacheGet now k c = (Some body, c')"
  shows "prefix ''users:'' k \<Longrightarrow> json_text lib (success_schema EP_UsersGet) body"
    and "prefix ''rides:'' k \<Longrightarrow> json_text lib (success_schema EP_RidesGet) body"
  using assms by (auto simp: CacheGet_def cache_typed_def split: option.splits if_splits dest!: map_of_SomeD)

lemma users_key: "prefix ''users:'' (users_cache_key b l m)" "\<not> prefix ''rides:'' (users_cache_key b l m)"
  by (simp_all add: users_cache_key_def)

section \<open>Handlers that read through the cache\<close>

lemma UsersGet_described:
  assumes typed: "cache_typed lib (cache sv)"
    and run: "UsersGet_HandleRequestThrow lib env req empty_response sv = (r, resp, sv')"
  shows "cache_typed lib (cache sv') \<and> (\<forall>body. r = Inr body \<longrightarrow> described lib EP_UsersGet (SetData body resp))"
proof (cases "(GetArg req ''login'' \<noteq> []) = (GetArg req ''name_mask'' \<noteq> [])")
  case True
  with typed run show ?thesis
    by (auto simp: UsersGet_HandleRequestThrow_def Let_def described_def response_defs empty_response_def
        error_body_text)
next
  case False
  let ?key = "users_cache_key (GetArg req ''login'' \<noteq> []) (GetArg req ''login'') (GetArg req ''name_mask'')"
  obtain cached c where get: "CacheGet (steady_get env) ?key (cache sv) = (cached, c)" by fastforce
  note typed' = cache_typed_Get [OF typed get]
  have set: "cache_typed lib (CacheSet t ?key body ttl c)" if "json_text lib (success_schema EP_UsersGet) body"
    for t body ttl
    by (rule cache_typed_Set [OF typed']) (use that users_key in auto)
  show ?thesis
  proof (cases cached)
    case (Some body)
    with CacheGet_hit(1) [OF typed] get have "json_text lib (success_schema EP_UsersGet) body"
      by (auto simp: users_key)
    with False run get Some typed' show ?thesis
      by (auto simp: UsersGet_HandleRequestThrow_def Let_def described_def response_defs empty_response_def
          XCache_def)
  next
    case None
    with False run get typed' set show ?thesis
      by (auto simp: UsersGet_HandleRequestThrow_def Let_def described_def response_defs empty_response_def
          XCache_def error_body_text body_text split: handler_splits)
  qed
qed

lemma RidesGet_cached_described:
  assumes typed: "cache_typed lib (cache sv)" and resp0: "resp_content_type resp0 = ''application/json''"
    "resp_status resp0 = 200"
    and run: "RidesGet_cached lib env h a resp0 sv = (r, resp, sv')"
  shows "cache_typed lib (cache sv') \<and> (\<forall>body. r = Inr body \<longrightarrow> described lib EP_RidesGet (SetData body resp))"
proof -
  define key where "key = (if h then ''rides:history:'' @ a else ''rides:active'')"
  have key: "prefix ''rides:'' key" "\<not> prefix ''users:'' key" by (simp_all add: key_def)
  obtain cached c where get: "CacheGet (steady_get env) key (cache sv) = (cached, c)" by fastforce
  note typed' = cache_typed_Get [OF typed get]
  have set: "cache_typed lib (CacheSet t key body ttl c)" if "json_text lib (success_schema EP_RidesGet) body"
    for t body ttl
    by (rule cache_typed_Set [OF typed']) (use that key in auto)
  note run' = run [unfolded RidesGet_cached_def Let_def, folded key_def]
  show ?thesis
  proof (cases cached)
    case (Some body)
    with CacheGet_hit(2) [OF typed] get key have "json_text lib (success_schema EP_RidesGet) body" by auto
    with run' get Some typed' resp0 show ?thesis
      by (auto simp: described_def response_defs XCache_def)
  next
    case None
    with run' get typed' set resp0 show ?thesis
      by (auto simp: described_def response_defs XCache_def body_text split: handler_splits)
  qed
qed

lemma RidesGet_described:
  assumes typed: "cache_typed lib (cache sv)"
    and run: "RidesGet_HandleRequestThrow lib env req empty_response sv = (r, resp, sv')"
  shows "cache_typed lib (cache sv') \<and> (\<forall>body. r = Inr body \<longrightarrow> described lib EP_RidesGet (SetData body resp))"
proof -
  have answered: "cache_typed lib (cache sv') \<and>
      (\<forall>body. r = Inr body \<longrightarrow> described lib EP_RidesGet (SetData body resp))"
    if "RidesGet_cached lib env h a resp0 sv0 = (r, resp, sv')" "cache sv0 = cache sv"
      "resp_content_type resp0 = ''application/json''" "resp_status resp0 = 200" for h a resp0 sv0
    using RidesGet_cached_described [of lib sv0 resp0 env h a r resp sv'] that typed by simp
  let ?resp = "SetContentType ''application/json'' empty_response"
  have resp: "resp_content_type ?resp = ''application/json''" "resp_status ?resp = 200"
    by (simp_all add: response_defs empty_response_def)
  consider (history) "GetArg req ''user_id'' \<noteq> []"
    | (active) "GetArg req ''user_id'' = []" "GetArg req ''status'' = ''active''"
    | (neither) "GetArg req ''user_id'' = []" "GetArg req ''status'' \<noteq> ''active''" by blast
  then show ?thesis
  proof cases
    case history
    with run have "RidesGet_cached lib env True (GetArg req ''user_id'') ?resp sv = (r, resp, sv')"
      by (simp add: RidesGet_HandleRequestThrow_def Let_def)
    from answered [OF this refl resp] show ?thesis .
  next
    case active
    obtain res rl where check: "Check (system_now env) ACTIVE_RIDES_KEY kActiveRidesLimitPerMinute 60 (limiter sv) = (res, rl)"
      by fastforce
    show ?thesis
    proof (cases "\<exists>x. res = Inr x \<and> allowed x")
      case True
      then obtain x where "res = Inr x" "allowed x" by blast
      with run active check
      have "RidesGet_cached lib env False (GetArg req ''user_id'') (SetRateLimitHeaders x ?resp) (sv\<lparr>limiter := rl\<rparr>) =
          (r, resp, sv')"
        by (simp add: RidesGet_HandleRequestThrow_def Let_def)
      from answered [OF this] resp show ?thesis by (simp add: SetRateLimitHeaders_def response_defs)
    next
      case False
      with run active check typed show ?thesis
        by (auto simp: RidesGet_HandleRequestThrow_def Let_def described_def response_defs empty_response_def
            error_body_text SetRateLimitHeaders_def split: sum.splits)
    qed
  next
    case neither
    with run typed show ?thesis
      by (auto simp: RidesGet_HandleRequestThrow_def Let_def described_def response_defs empty_response_def
          error_body_text)
  qed
qed

section \<open>Handlers over MongoDB\<close>

lemma copy_members_typed:
  assumes "copy_members ml d ks = Inr ms" and "list_all (\<lambda>k. map_of ps k = Some T_String) ks"
  shows "conforms (T_Object ps) (JObj ms)"
  using assms
  by (induction ks arbitrary: ms)
    (auto simp: copy_member_def split: sum.splits bool.splits)

lemma MakeUserJson_typed:
  assumes "MakeUserJson ml d = Inr j"
  shows "conforms MongoUserResponse j"
proof -
  from assms obtain ms ps where ms: "copy_members ml d [''login'', ''first_name'', ''last_name'', ''status''] = Inr ms"
    and ps: "copy_profile ml d = Inr ps" and j: "j = JObj (ms @ ps @ [(''source'', JStr ''mongo'')])"
    by (auto simp: MakeUserJson_def split: sum.splits)
  from ms have "conforms MongoUserResponse (JObj ms)"
    unfolding MongoUserResponse_def by (rule copy_members_typed) simp
  moreover have "conforms MongoUserResponse (JObj ps)"
  proof (cases "ps = []")
    case False
    with ps obtain p qs where "copy_members ml p [''email'', ''phone''] = Inr qs" "ps = [(''profile'', JObj qs)]"
      by (auto simp: copy_profile_def simp del: copy_members.simps split: sum.splits bool.splits list.splits)
    with copy_members_typed [of ml p "[''email'', ''phone'']" qs "[(''email'', T_String), (''phone'', T_String)]"]
    show ?thesis by (simp add: MongoUserResponse_def del: copy_members.simps)
  qed (simp add: MongoUserResponse_def)
  ultimately show ?thesis by (simp add: j MongoUserResponse_def)
qed

lemma push_docs_typed:
  assumes "push_docs ml ds acc = Inr js" and "list_all (conforms MongoUserResponse) acc"
  shows "list_all (conforms MongoUserResponse) js"
  using assms by (induction ds arbitrary: acc) (auto split: sum.splits dest: MakeUserJson_typed)

lemma mongo_get_described:
  assumes "MongoUsersGet_HandleRequestThrow lib ml req empty_response m = (body, resp)"
  shows "described lib EP_MongoUsersGet (SetData body resp)"
  using assms
  by (auto simp: MongoUsersGet_HandleRequestThrow_def mongo_get_body_def Let_def described_def response_defs
      empty_response_def raw_error_text split: handler_splits if_splits
      intro!: json_textI dest: MakeUserJson_typed push_docs_typed)

definition described_out :: "'j json_lib \<Rightarrow> endpoint \<Rightarrow> (string \<times> response) option \<Rightarrow> bool" where
  "described_out lib ep out \<longleftrightarrow>
     (case out of None \<Rightarrow> True | Some (body, resp) \<Rightarrow> described lib ep (SetData body resp))"

lemma described_out_simps [simp]:
  "described_out lib ep None"
  "described_out lib ep (Some (body, resp)) \<longleftrightarrow> described lib ep (SetData body resp)"
  by (simp_all add: described_out_def)

lemma described_out_branches:
  "described_out lib ep (fst n) \<Longrightarrow> (\<And>x. described_out lib ep (fst (g x))) \<Longrightarrow>
     described_out lib ep (fst (case z of None \<Rightarrow> n | Some x \<Rightarrow> g x))"
  "described_out lib ep (fst x) \<Longrightarrow> described_out lib ep (fst y) \<Longrightarrow>
     described_out lib ep (fst (if c then x else y))"
  "described_out lib ep (fst x) \<Longrightarrow> described_out lib ep (fst y) \<Longrightarrow>
     described_out lib ep (fst (case b of True \<Rightarrow> x | False \<Rightarrow> y))"
  by (simp_all split: option.split bool.split)

lemma raw_error_described:
  "resp_content_type resp = ''application/json'' \<Longrightarrow> 400 \<le> n \<Longrightarrow>
   described lib ep (SetData (raw_error msg) (SetStatus n resp))"
  by (simp add: described_def response_defs raw_error_text)

lemma mongo_insert_described:
  assumes "resp_content_type resp = ''application/json''"
  shows "described_out lib EP_MongoUsersCreate
    (fst (mongo_insert lib ml now login password first_name last_name status email phone resp m))"
  using assms
  by (auto simp: mongo_insert_def raw_error_described split: option.split sum.split prod.split)
    (simp add: described_def response_defs json_textI mongo_created_json_def MongoUserResponse_def)

lemma mongo_create_body_described:
  assumes "resp_content_type resp = ''application/json''"
  shows "described_out lib EP_MongoUsersCreate (fst (mongo_create_body lib ml now json resp m))"
  unfolding mongo_create_body_def prod.case
  by (intro described_out_branches mongo_insert_described) (simp_all add: assms raw_error_described)

lemma mongo_create_described:
  assumes run: "MongoUsersCreate_HandleRequestThrow lib ml env req empty_response m = (body, resp, m')"
  shows "described lib EP_MongoUsersCreate (SetData body resp)"
proof -
  let ?resp = "SetContentType ''application/json'' empty_response"
  have type: "resp_content_type ?resp = ''application/json''" by (simp add: response_defs)
  show ?thesis
  proof (cases "FromString lib (RequestBody req)")
    case None
    with run type show ?thesis
      by (auto simp: MongoUsersCreate_HandleRequestThrow_def Let_def raw_error_described)
  next
    case (Some json)
    with run type mongo_create_body_described [OF type, of lib ml "system_now env" json m] show ?thesis
      by (auto simp: MongoUsersCreate_HandleRequestThrow_def Let_def raw_error_described
          split: option.splits prod.splits)
  qed
qed

section \<open>The service\<close>

lemma sql_handler_described:
  fixes h :: "'j handler"
  assumes h: "sql_handler ep = Some h" and typed: "cache_typed lib (cache sv)"
    and run: "h lib env req empty_response sv = (r, resp, sv')"
  shows "cache_typed lib (cache sv') \<and> (\<forall>body. r = Inr body \<longrightarrow> described lib ep (SetData body resp))"
proof -
  have sv': "sv' = snd (snd (h lib env req empty_response sv))" by (simp add: run)
  have typed': "cache_typed lib (cache sv')" if "ep \<noteq> EP_UsersGet" "ep \<noteq> EP_RidesGet"
    using h typed that unfolding sv'
    by (cases ep)
      (auto simp: UsersCreate_state AuthLogin_state DriversCreate_state RidesCreate_state RidesAccept_state
        RidesComplete_state cache_typed_invalidate_if split: option.splits prod.splits)
  show ?thesis
  proof (cases ep)
    case EP_UsersGet
    with h run UsersGet_described [OF typed] show ?thesis by simp
  next
    case EP_RidesGet
    with h run RidesGet_described [OF typed] show ?thesis by simp
  qed (use h run typed' writers_described [of lib env req sv _ resp sv'] in auto)
qed

lemma server_step_typed:
  assumes "cache_typed (pf_json pf) (cache (svc s))"
  shows "cache_typed (pf_json pf) (cache (svc (server_step pf op s)))"
proof -
  obtain env req where op: "op = (env, req)" by fastforce
  show ?thesis
    unfolding op
  proof (cases rule: server_step_svc [of pf env req s])
    case Same
    with assms show "cache_typed (pf_json pf) (cache (svc (server_step pf (env, req) s)))" by simp
  next
    case (Ran ep h)
    from sql_handler_described [OF Ran(1) assms, of env req] Ran(4)
    show "cache_typed (pf_json pf) (cache (svc (server_step pf (env, req) s)))"
      by (cases "h (pf_json pf) env req empty_response (svc s)") simp
  qed
qed

lemma server_run_typed: "cache_typed (pf_json pf) (cache (svc (server_run pf ops (server_init db m))))"
proof (induction ops rule: rev_induct)
  case Nil
  show ?case by (simp add: server_run_def server_init_def service_init_def cache_typed_init)
next
  case (snoc op ops)
  then show ?case by (simp add: server_run_def server_step_typed)
qed

lemma handle_described:
  fixes pf :: "('j, 'm, 'd) platform"
  assumes typed: "cache_typed (pf_json pf) (cache (svc s))" and rt: "pf_route pf req = Some ep"
    and run: "handle pf env req s = (Inr resp, s')"
  shows "described (pf_json pf) ep resp"
proof (cases rule: handle_cases [of s req pf env])
  case Refused
  with run show ?thesis
    by (auto simp: described_def unauthorized_def response_defs refusal_text)
next
  case Passed
  show ?thesis
  proof (cases "sql_handler ep :: 'j handler option")
    case (Some h)
    obtain r resp1 sv where out: "h (pf_json pf) env req empty_response (svc s) = (r, resp1, sv)"
      by (metis prod.collapse)
    with Some Passed rt run obtain body where "r = Inr body" "resp = SetData body resp1"
      by (auto simp: dispatch_def run_sql_def finish_def split: sum.splits)
    with sql_handler_described [OF Some typed out] show ?thesis by simp
  next
    case None
    then have "ep = EP_MongoUsersCreate \<or> ep = EP_MongoUsersGet" by (cases ep) simp_all
    with Passed rt run show ?thesis
      by (auto simp: dispatch_def Let_def split: prod.splits dest: mongo_create_described mongo_get_described)
  qed
qed

section \<open>Properties\<close>



end
