(* ===== verification/MongoSchema.thy ===== *)
theory MongoSchema
  imports HandlerProperties
begin

text \<open>
  The validator that \<open>validation.js\<close> puts on the collection of users, as a schema of documents and
  as what it means for a document to satisfy it, and the handler of \<open>POST /mongo/users\<close> in front of
  it: which of the requests that pass the checks of the handler the collection then refuses. That
  MongoDB refuses what does not satisfy the validator, and stores what does, is its documented
  behaviour and a hypothesis here.
\<close>

section \<open>Patterns\<close>

text \<open>In these patterns \<open>$\<close> also matches before a newline at the end of the text.\<close>

definition up_to_newline :: "(string \<Rightarrow> bool) \<Rightarrow> string \<Rightarrow> bool" where
  "up_to_newline p s \<longleftrightarrow> p s \<or> (s \<noteq> [] \<and> last s = CHR 0x0A \<and> p (butlast s))"

definition mail_char :: "char \<Rightarrow> bool" where
  "mail_char c \<longleftrightarrow> c \<noteq> CHR ''@'' \<and> \<not> is_space c"

definition mail_part :: "string \<Rightarrow> bool" where
  "mail_part s \<longleftrightarrow> s \<noteq> [] \<and> list_all mail_char s"

text \<open>Something, an at sign, and a rest that a dot divides into two parts.\<close>

definition mail_text :: "string \<Rightarrow> bool" where
  "mail_text s \<longleftrightarrow>
     (let name = takeWhile (\<lambda>c. c \<noteq> CHR ''@'') s; host = tl (dropWhile (\<lambda>c. c \<noteq> CHR ''@'') s)
      in mail_part name \<and>
         list_ex (\<lambda>i. mail_part (take i host) \<and> host ! i = CHR ''.'' \<and> mail_part (drop (Suc i) host))
           [0..<length host])"

definition phone_text :: "string \<Rightarrow> bool" where
  "phone_text s \<longleftrightarrow>
     (let digits = (case s of c # cs \<Rightarrow> if c = CHR ''+'' then cs else s | [] \<Rightarrow> [])
      in 10 \<le> length digits \<and> length digits \<le> 15 \<and> list_all is_digit digits)"

section \<open>Schemas of documents\<close>

datatype doc_type =
    D_String nat "nat option" "string \<Rightarrow> bool"
  | D_Date
  | D_Enum "string list"
  | D_Object "string list" "(string \<times> doc_type) list"

lemma doc_size_member [termination_simp]: "map_of ps k = Some t \<Longrightarrow> size t < Suc (size_list (size_prod (\<lambda>_. 0) size) ps)"
  by (induction ps) (auto split: if_splits)

text \<open>
  A text has at least and at most so many characters and matches; an object has all required members
  and no others than the described ones.
\<close>

fun satisfies :: "doc_type \<Rightarrow> bson \<Rightarrow> bool" where
  "satisfies (D_String lo hi pat) d =
     (case d of
        BStr s \<Rightarrow> lo \<le> char_length s \<and> (case hi of None \<Rightarrow> True | Some n \<Rightarrow> char_length s \<le> n) \<and> pat s
      | _ \<Rightarrow> False)"
| "satisfies D_Date d = (case d of BDate t \<Rightarrow> True | _ \<Rightarrow> False)"
| "satisfies (D_Enum vs) d = (case d of BStr s \<Rightarrow> s \<in> set vs | _ \<Rightarrow> False)"
| "satisfies (D_Object req ps) d =
     (case d of
        BDoc ms \<Rightarrow>
          list_all (\<lambda>k. k \<in> fst ` set ms) req \<and>
          list_all (\<lambda>kv. case map_of ps (fst kv) of None \<Rightarrow> False | Some t \<Rightarrow> satisfies t (snd kv)) ms
      | _ \<Rightarrow> False)"

text \<open>The members that the driver adds to a document (\<open>_id\<close>) are left out.\<close>

definition users_validator :: doc_type where
  "users_validator =
     D_Object [''login'', ''password'', ''first_name'', ''last_name'', ''created_at'', ''status'', ''profile'']
       [(''login'', D_String 3 (Some 50) (up_to_newline IsValidLogin)),
        (''password'', D_String 6 None (\<lambda>_. True)),
        (''first_name'', D_String 1 (Some 100) (\<lambda>_. True)),
        (''last_name'', D_String 1 (Some 100) (\<lambda>_. True)),
        (''created_at'', D_Date),
        (''status'', D_Enum [''active'', ''blocked'']),
        (''profile'', D_Object [''email'', ''phone'']
          [(''email'', D_String 0 None (up_to_newline mail_text)),
           (''phone'', D_String 0 None (up_to_newline phone_text))])]"

section \<open>The documents of the handler\<close>

lemma mongo_user_doc_satisfies:
  "satisfies users_validator
     (mongo_user_doc login password first_name last_name now status email phone) \<longleftrightarrow>
   3 \<le> char_length login \<and> char_length login \<le> 50 \<and> up_to_newline IsValidLogin login \<and>
   6 \<le> char_length password \<and>
   1 \<le> char_length first_name \<and> char_length first_name \<le> 100 \<and>
   1 \<le> char_length last_name \<and> char_length last_name \<le> 100 \<and>
   status \<in> {''active'', ''blocked''} \<and> up_to_newline mail_text email \<and> up_to_newline phone_text phone"
  by (simp add: users_validator_def mongo_user_doc_def)

text \<open>What reaches the insertion: the values of a request that passes all checks of the handler.\<close>

type_synonym mongo_args = "string \<times> string \<times> string \<times> string \<times> string \<times> string \<times> string"

definition mongo_args_of :: "'j json_lib \<Rightarrow> request \<Rightarrow> mongo_args option" where
  "mongo_args_of lib req =
     (case FromString lib (RequestBody req) of
        None \<Rightarrow> None
      | Some body \<Rightarrow>
          if has_members lib body [''login'', ''password'', ''first_name'', ''last_name''] \<noteq> Some True then None
          else (case (as_string lib body ''login'', as_string lib body ''password'',
                      as_string lib body ''first_name'', as_string lib body ''last_name'',
                      optional_member lib body ''status'' ''active'') of
              (Some login, Some password, Some first_name, Some last_name, Some status) \<Rightarrow>
                if login = [] \<or> password = [] \<or> first_name = [] \<or> last_name = [] \<or>
                   \<not> IsValidLogin login \<or> length password < 6 \<or> status \<notin> {''active'', ''blocked''} then None
                else (case (optional_member lib body ''email'' (login @ ''@example.com''),
                            optional_member lib body ''phone'' ''+79990000000'') of
                    (Some email, Some phone) \<Rightarrow>
                      Some (login, password, first_name, last_name, status, email, phone)
                  | _ \<Rightarrow> None)
            | _ \<Rightarrow> None))"

lemma mongo_args_checked:
  assumes "mongo_args_of lib req = Some (login, password, first_name, last_name, status, email, phone)"
  shows "IsValidLogin login" and "6 \<le> length password" and "status \<in> {''active'', ''blocked''}"
  using assms by (auto simp: mongo_args_of_def split: option.splits if_splits)

lemma mongo_args_insert:
  assumes args: "mongo_args_of lib req = Some (login, password, first_name, last_name, status, email, phone)"
  shows "MongoUsersCreate_HandleRequestThrow lib ml env req resp m =
    (case mongo_insert lib ml (system_now env) login password first_name last_name status email phone
        (SetContentType ''application/json'' resp) m of
       (Some (out, resp'), m') \<Rightarrow> (out, resp', m')
     | (None, m') \<Rightarrow>
         (raw_error ''failed to create mongo user'', SetStatus 500 (SetContentType ''application/json'' resp), m'))"
proof -
  from args obtain body where body: "FromString lib (RequestBody req) = Some body"
    "has_members lib body [''login'', ''password'', ''first_name'', ''last_name''] = Some True"
    "as_string lib body ''login'' = Some login" "as_string lib body ''password'' = Some password"
    "as_string lib body ''first_name'' = Some first_name" "as_string lib body ''last_name'' = Some last_name"
    "optional_member lib body ''status'' ''active'' = Some status"
    "login \<noteq> []" "password \<noteq> []" "first_name \<noteq> []" "last_name \<noteq> []"
    "optional_member lib body ''email'' (login @ ''@example.com'') = Some email"
    "optional_member lib body ''phone'' ''+79990000000'' = Some phone"
    unfolding mongo_args_of_def by (auto simp del: has_members.simps append.simps split: option.splits if_splits)
  with mongo_args_checked [OF args]
  show ?thesis
    by (auto simp: MongoUsersCreate_HandleRequestThrow_def mongo_create_body_def Let_def
        simp del: has_members.simps append.simps)
qed

lemma login_char_ascii: "login_char c \<Longrightarrow> \<not> is_continuation c"
  by (auto simp: login_char_def is_continuation_def)

lemma valid_login_length: "IsValidLogin login \<Longrightarrow> char_length login = length login"
  by (auto simp: IsValidLogin_def char_length_def list_all_iff login_char_ascii filter_id_conv)

text \<open>A collection with the validator: it refuses and keeps, or it stores.\<close>

definition validates :: "('m, 'd) mongo_lib \<Rightarrow> bool" where
  "validates ml \<longleftrightarrow>
     (\<forall>m d. if satisfies users_validator d then fst (InsertOne ml m d) = Inr ()
            else \<exists>e. InsertOne ml m d = (Inl e, m))"

text \<open>What the validator asks beyond the checks of the handler.\<close>

definition storable :: "mongo_args \<Rightarrow> bool" where
  "storable a \<longleftrightarrow>
     (case a of (login, password, first_name, last_name, status, email, phone) \<Rightarrow>
        3 \<le> length login \<and> length login \<le> 50 \<and> 6 \<le> char_length password \<and>
        1 \<le> char_length first_name \<and> char_length first_name \<le> 100 \<and>
        1 \<le> char_length last_name \<and> char_length last_name \<le> 100 \<and>
        up_to_newline mail_text email \<and> up_to_newline phone_text phone)"

lemma storable_satisfies:
  assumes "mongo_args_of lib req = Some (login, password, first_name, last_name, status, email, phone)"
  shows "satisfies users_validator
      (mongo_user_doc login password first_name last_name now status email phone) \<longleftrightarrow>
    storable (login, password, first_name, last_name, status, email, phone)"
  using mongo_args_checked [OF assms] valid_login_length [of login]
  by (auto simp: mongo_user_doc_satisfies storable_def up_to_newline_def)

section \<open>Property\<close>

text \<open>C36: In front of a collection with the validator of \<open>validation.js\<close> the handler checks too
  little: a request that passes all its checks, with a login that is free, is answered with 201 and its
  document stored exactly when login and names have the lengths that the validator asks for, the
  password has six characters (the handler counts bytes) and email and phone match its patterns; any
  other is answered with 500 instead of 400, and the collection is as before.\<close>

theorem validator_decides:
  assumes "validates ml" and "FindOne ml m (login_query login) = Inr None"
    and "mongo_args_of lib req = Some (login, password, first_name, last_name, status, email, phone)"
    and "MongoUsersCreate_HandleRequestThrow lib ml env req resp m = (body, resp', m')"
  shows "if storable (login, password, first_name, last_name, status, email, phone)
    then resp_status resp' = 201 \<and>
      m' = snd (InsertOne ml m (mongo_user_doc login password first_name last_name (system_now env) status email phone))
    else resp_status resp' = 500 \<and> m' = m"
proof -
  let ?doc = "mongo_user_doc login password first_name last_name (system_now env) status email phone"
  have sat: "satisfies users_validator ?doc \<longleftrightarrow>
      storable (login, password, first_name, last_name, status, email, phone)"
    by (rule storable_satisfies [OF assms(3)])
  have ins: "if satisfies users_validator ?doc then fst (InsertOne ml m ?doc) = Inr ()
      else \<exists>e. InsertOne ml m ?doc = (Inl e, m)"
    using assms(1) by (simp add: validates_def)
  show ?thesis
  proof (cases "satisfies users_validator ?doc")
    case True
    with ins have "InsertOne ml m ?doc = (Inr (), snd (InsertOne ml m ?doc))"
      by (simp add: prod_eq_iff)
    with True sat assms(2,4) show ?thesis
      by (auto simp: mongo_args_insert [OF assms(3)] mongo_insert_def response_defs split: prod.splits)
  next
    case False
    with ins sat assms(2,4) show ?thesis
      by (auto simp: mongo_args_insert [OF assms(3)] mongo_insert_def response_defs)
  qed
qed

definition demo_validated :: "(bson list, bson) mongo_lib" where
  "demo_validated = demo_mongo\<lparr>InsertOne :=
     (\<lambda>m d. if satisfies users_validator d then (Inr (), m @ [d]) else (Inl MongoFailure, m))\<rparr>"

lemma demo_validates: "validates demo_validated"
  by (auto simp: validates_def demo_validated_def)

text \<open>A login of two letters, and a password of three Cyrillic letters.\<close>

definition short_login :: request where
  "short_login = demo_req ''POST'' ''/mongo/users'' [] [] []
     ''login=al&password=secret&first_name=Al&last_name=Bell''"

definition cyrillic_password :: request where
  "cyrillic_password = demo_req ''POST'' ''/mongo/users'' [] [] []
     (''login=alice&first_name=Alice&last_name=Bell&password='' @
      [CHR 0xD0, CHR 0xB8, CHR 0xD0, CHR 0xB2, CHR 0xD0, CHR 0xB0])"

definition mongo_status :: "request \<Rightarrow> nat" where
  "mongo_status req = resp_status (fst (snd
     (MongoUsersCreate_HandleRequestThrow demo_json demo_validated (demo_env 1 NoFault) req empty_response [])))"

theorem validator_decides_witness:
  "mongo_status short_login = 500 \<and> mongo_status cyrillic_password = 500 \<and> mongo_status mongo_request = 201"
proof -
  have one: "mongo_status req = (if storable a then 201 else 500)"
    if "mongo_args_of demo_json req = Some a" for req a
  proof -
    obtain l p f n st em ph where a: "a = (l, p, f, n, st, em, ph)" by (cases a)
    have "FindOne demo_validated [] (login_query l) = Inr None"
      by (simp add: demo_validated_def demo_mongo_def)
    from validator_decides [OF demo_validates this that [unfolded a], of "demo_env 1 NoFault" empty_response]
    show ?thesis
      by (cases "MongoUsersCreate_HandleRequestThrow demo_json demo_validated (demo_env 1 NoFault) req empty_response []")
        (simp add: a mongo_status_def)
  qed
  have "map_option storable (mongo_args_of demo_json short_login) = Some False"
    "map_option storable (mongo_args_of demo_json cyrillic_password) = Some False"
    "map_option storable (mongo_args_of demo_json mongo_request) = Some True"
    by code_simp+
  with one show ?thesis by fastforce
qed

end
