(* ===== verification/MongoRoundtrip.thy ===== *)
theory MongoRoundtrip
  imports MongoSchema
begin

text \<open>
  What \<open>POST /mongo/users\<close> stores is what \<open>GET /mongo/users\<close> answers: the two handlers build the same
  JSON, one from the values of the request and the other from the document. That the driver finds an
  inserted document by its login and reads its members back is its documented behaviour and a
  hypothesis here.
\<close>

section \<open>What the driver keeps\<close>

text \<open>Access to a document returns the members it was inserted with.\<close>

definition reads_back :: "('m, 'd) mongo_lib \<Rightarrow> 'd \<Rightarrow> (string \<times> bson) list \<Rightarrow> bool" where
  "reads_back ml x ms \<longleftrightarrow>
     (\<forall>k v. map_of ms k = Some v \<longrightarrow> doc_HasMember ml x k = Inr True \<and>
        (case v of
           BStr s \<Rightarrow> doc_string ml x k = Inr s
         | BDoc ms' \<Rightarrow>
             (\<exists>y. doc_sub ml x k = Inr y \<and>
                (\<forall>k' s. map_of ms' k' = Some (BStr s) \<longrightarrow>
                   doc_HasMember ml y k' = Inr True \<and> doc_string ml y k' = Inr s))
         | _ \<Rightarrow> True))"

lemma reads_back_string:
  "reads_back ml x ms \<Longrightarrow> map_of ms k = Some (BStr s) \<Longrightarrow>
   doc_HasMember ml x k = Inr True \<and> doc_string ml x k = Inr s"
  by (fastforce simp: reads_back_def)

lemma reads_back_sub:
  assumes "reads_back ml x ms" and "map_of ms k = Some (BDoc ms')"
  obtains y where "doc_HasMember ml x k = Inr True" and "doc_sub ml x k = Inr y"
    and "\<And>k' s. map_of ms' k' = Some (BStr s) \<Longrightarrow> doc_HasMember ml y k' = Inr True \<and> doc_string ml y k' = Inr s"
  using assms by (fastforce simp: reads_back_def)

text \<open>A document inserted under a login that was free is found by it.\<close>

definition keeps_documents :: "('m, 'd) mongo_lib \<Rightarrow> bool" where
  "keeps_documents ml \<longleftrightarrow>
     (\<forall>m m' ms l. FindOne ml m (login_query l) = Inr None \<and> map_of ms ''login'' = Some (BStr l) \<and>
        InsertOne ml m (BDoc ms) = (Inr (), m') \<longrightarrow>
        (\<exists>x. FindOne ml m' (login_query l) = Inr (Some x) \<and> reads_back ml x ms))"

lemma demo_keeps_documents: "keeps_documents demo_mongo"
proof -
  have "reads_back demo_mongo (BDoc ms) ms" for ms
    by (auto simp: reads_back_def demo_mongo_def split: bson.split)
  moreover have "find P (m @ [d]) = Some d" if "find P m = None" "P d" for P m and d :: bson
    using that by (induction m) (auto split: if_splits)
  ultimately show ?thesis
    by (fastforce simp: keeps_documents_def demo_mongo_def login_query_def)
qed

section \<open>The two handlers\<close>

lemma MakeUserJson_created:
  assumes "reads_back ml x
    [(''login'', BStr login), (''password'', BStr password), (''first_name'', BStr first_name),
     (''last_name'', BStr last_name), (''created_at'', BDate now), (''status'', BStr status),
     (''profile'', BDoc [(''email'', BStr email), (''phone'', BStr phone)])]"
  shows "MakeUserJson ml x = Inr (mongo_created_json login first_name last_name status email phone)"
proof -
  note str = reads_back_string [OF assms]
  obtain y where "doc_HasMember ml x ''profile'' = Inr True" "doc_sub ml x ''profile'' = Inr y"
    "doc_HasMember ml y ''email'' = Inr True" "doc_string ml y ''email'' = Inr email"
    "doc_HasMember ml y ''phone'' = Inr True" "doc_string ml y ''phone'' = Inr phone"
    by (rule reads_back_sub [OF assms, of "''profile''" "[(''email'', BStr email), (''phone'', BStr phone)]"]) auto
  with str show ?thesis
    by (simp add: MakeUserJson_def copy_profile_def copy_member_def mongo_created_json_def)
qed

text \<open>A create that is answered with 201 went through the insertion.\<close>

lemma mongo_created:
  assumes run: "MongoUsersCreate_HandleRequestThrow lib ml env req empty_response m = (out, resp', m')"
    and "resp_status resp' = 201"
  obtains login password first_name last_name status email phone
  where "mongo_args_of lib req = Some (login, password, first_name, last_name, status, email, phone)"
    and "FindOne ml m (login_query login) = Inr None"
    and "InsertOne ml m (mongo_user_doc login password first_name last_name (system_now env) status email phone) = (Inr (), m')"
    and "out = ToString lib (mongo_created_json login first_name last_name status email phone)"
proof (cases "mongo_args_of lib req")
  case None
  with assms have False
    by (auto simp: mongo_args_of_def MongoUsersCreate_HandleRequestThrow_def mongo_create_body_def Let_def
        response_defs simp del: has_members.simps append.simps split: option.splits if_splits bool.splits)
  then show thesis ..
next
  case (Some a)
  obtain login password first_name last_name status email phone
    where a: "a = (login, password, first_name, last_name, status, email, phone)" by (cases a)
  from assms show thesis
    unfolding mongo_args_insert [OF Some [unfolded a]]
    by (intro that [OF Some [unfolded a]])
      (auto simp: mongo_insert_def response_defs split: sum.splits option.splits prod.splits)
qed

lemma created_then_read:
  assumes "keeps_documents ml"
    and "MongoUsersCreate_HandleRequestThrow lib ml env req empty_response m = (out, resp', m')"
    and "resp_status resp' = 201"
    and "mongo_args_of lib req = Some (login, rest)"
    and "GetArg req' ''login'' = login" and "GetArg req' ''name_mask'' = []"
  shows "MongoUsersGet_HandleRequestThrow lib ml req' empty_response m' =
    (out, SetStatus 200 (SetContentType ''application/json'' empty_response))"
proof -
  from mongo_created [OF assms(2,3)] assms(4) obtain password first_name last_name status email phone
    where free: "FindOne ml m (login_query login) = Inr None"
      and ins: "InsertOne ml m (mongo_user_doc login password first_name last_name (system_now env) status email phone) = (Inr (), m')"
      and out: "out = ToString lib (mongo_created_json login first_name last_name status email phone)"
      and args: "mongo_args_of lib req = Some (login, password, first_name, last_name, status, email, phone)"
    by (metis Pair_inject option.inject)
  from assms(1) free ins obtain x where x: "FindOne ml m' (login_query login) = Inr (Some x)"
    and same: "reads_back ml x
      [(''login'', BStr login), (''password'', BStr password), (''first_name'', BStr first_name),
       (''last_name'', BStr last_name), (''created_at'', BDate (system_now env)), (''status'', BStr status),
       (''profile'', BDoc [(''email'', BStr email), (''phone'', BStr phone)])]"
    unfolding keeps_documents_def mongo_user_doc_def
    by (metis (no_types, lifting) map_of_Cons_code(2))
  from mongo_args_checked(1) [OF args] have "login \<noteq> []" by (simp add: IsValidLogin_def)
  with assms(5,6) x MakeUserJson_created [OF same] out show ?thesis
    by (simp add: MongoUsersGet_HandleRequestThrow_def mongo_get_body_def Let_def)
qed

section \<open>On the server\<close>

lemma dispatch_keeps_mongo:
  fixes pf :: "('j, 'm, 'd) platform"
  assumes "pf_route pf req \<noteq> Some EP_MongoUsersCreate"
  shows "mongo_users (snd (dispatch pf env req resp s)) = mongo_users s"
  using assms
  by (auto simp: dispatch_def run_sql_def split: option.split prod.split)

lemma run_keeps_mongo:
  assumes "\<forall>op\<in>set ops. pf_route pf (snd op) \<noteq> Some EP_MongoUsersCreate"
  shows "mongo_users (server_run pf ops s) = mongo_users s"
  using assms unfolding server_run_def
proof (induction ops arbitrary: s)
  case (Cons op ops)
  have "mongo_users (server_step pf op s) = mongo_users s"
    by (cases rule: handle_cases [of s "snd op" pf "fst op"])
      (use Cons.prems in \<open>simp_all add: server_step_def dispatch_keeps_mongo\<close>)
  with Cons show ?case by simp
qed simp

lemma handle_mongo_create:
  assumes "pf_route pf req = Some EP_MongoUsersCreate" and "handle pf env req s = (Inr resp, s1)"
    and "resp_status resp = 201"
  shows "\<exists>out resp'. MongoUsersCreate_HandleRequestThrow (pf_json pf) (pf_mongo pf) env req empty_response (mongo_users s) =
      (out, resp', mongo_users s1) \<and> resp_status resp' = 201 \<and> resp_data resp = out"
proof (cases rule: handle_cases [of s req pf env])
  case Passed
  with assms show ?thesis
    by (auto simp: dispatch_def Let_def SetData_def split: prod.splits)
next
  case Refused
  with assms(2) have "resp_status resp = 401" by (auto simp: unauthorized_def response_defs)
  with assms(3) show ?thesis by simp
qed

section \<open>Property\<close>


text \<open>Kate joins, and is asked for after the users of the SQL part have been looked at.\<close>

definition ask_mongo :: "string \<Rightarrow> request" where
  "ask_mongo login = demo_req ''GET'' ''/mongo/users'' [] [(''login'', login)] [] []"


end
