(* ===== verification/ExampleQueries.thy ===== *)
theory ExampleQueries
  imports StorageProperties
begin

text \<open>
  The statements of \<open>queries.sql\<close>, the numbered examples for the operations of the API, next to the
  statements of \<open>taxi_storage.cpp\<close>. They return other columns (no password, the driver of a ride as it
  is stored), and the one that accepts a ride is run by itself, outside a transaction.
\<close>

section \<open>Statements\<close>

text \<open>The columns of a user without the password, and of a ride with a driver that may be null.\<close>

definition user_columns :: "user_row \<Rightarrow> int \<times> string \<times> string" where
  "user_columns r = (ur_id r, ur_login r, ur_full_name r)"

definition ride_columns :: "ride_row \<Rightarrow> int \<times> int \<times> int option \<times> string \<times> string \<times> string" where
  "ride_columns r =
     (rr_id r, rr_passenger_id r, rr_driver_id r, rr_pickup_address r, rr_destination_address r, rr_status r)"

definition example_user_by_login :: "string \<Rightarrow> database \<Rightarrow> (int \<times> string \<times> string) list" where
  "example_user_by_login login db = map user_columns (filter (\<lambda>r. ur_login r = login) (users db))"

definition example_users_by_mask ::
    "(string \<Rightarrow> string) \<Rightarrow> string \<Rightarrow> database \<Rightarrow> (int \<times> string \<times> string) list" where
  "example_users_by_mask lower name_mask db =
     map user_columns
       (sort_key ur_id (filter (\<lambda>r. like (''%'' @ lower name_mask @ ''%'') (lower (ur_full_name r))) (users db)))"

definition example_active_rides ::
    "database \<Rightarrow> (int \<times> int \<times> int option \<times> string \<times> string \<times> string) list" where
  "example_active_rides db =
     map ride_columns
       (sort_key rr_id (filter (\<lambda>r. rr_status r \<in> {''searching'', ''accepted''}) (rides db)))"

definition example_history ::
    "int \<Rightarrow> database \<Rightarrow> (int \<times> int \<times> int option \<times> string \<times> string \<times> string) list" where
  "example_history uid db =
     map ride_columns
       (sort_key (\<lambda>r. (- rr_created_at r, - rr_id r)) (filter (\<lambda>r. rr_passenger_id r = uid) (rides db)))"

definition example_accept :: "int \<Rightarrow> int \<Rightarrow> database \<Rightarrow>
    (int \<times> int \<times> int option \<times> string \<times> string \<times> string) list \<times> database" where
  "example_accept rid did db =
     (let updated_driver = filter (\<lambda>d. dr_id d = did \<and> dr_status d = ''online'') (drivers db);
          hit = (\<lambda>r. rr_id r = rid \<and> rr_status r = ''searching'' \<and> updated_driver \<noteq> []);
          upd = (\<lambda>r. r\<lparr>rr_driver_id := Some did, rr_status := ''accepted''\<rparr>)
      in (map (ride_columns \<circ> upd) (filter hit (rides db)),
          db\<lparr>drivers := map (\<lambda>d. if dr_id d = did \<and> dr_status d = ''online'' then d\<lparr>dr_status := ''busy''\<rparr> else d)
                (drivers db),
             rides := map (\<lambda>r. if hit r then upd r else r) (rides db)\<rparr>))"

definition example_complete :: "int \<Rightarrow> int \<Rightarrow> database \<Rightarrow>
    (int \<times> int \<times> int option \<times> string \<times> string \<times> string) list \<times> database" where
  "example_complete now rid db =
     (let hit = (\<lambda>r. rr_id r = rid \<and> rr_status r = ''accepted'');
          upd = (\<lambda>r. r\<lparr>rr_status := ''completed'', rr_completed_at := Some now\<rparr>);
          updated_ride = map upd (filter hit (rides db));
          did = (case updated_ride of [] \<Rightarrow> None | r # _ \<Rightarrow> rr_driver_id r)
      in (map ride_columns updated_ride,
          db\<lparr>rides := map (\<lambda>r. if hit r then upd r else r) (rides db),
             drivers := map (\<lambda>d. if did = Some (dr_id d) then d\<lparr>dr_status := ''online''\<rparr> else d) (drivers db)\<rparr>))"

section \<open>Next to the statements of the storage\<close>

text \<open>A row of the storage without its password, and with its driver 0 for none.\<close>

definition without_password :: "user_res \<Rightarrow> int \<times> string \<times> string" where
  "without_password row = (case row of (i, login, password, full_name) \<Rightarrow> (i, login, full_name))"

definition driver_or_zero :: "int \<times> int \<times> int option \<times> string \<times> string \<times> string \<Rightarrow> ride_res" where
  "driver_or_zero row = (case row of (i, p, d, a, b, s) \<Rightarrow> (i, p, coalesce d 0, a, b, s))"

lemma columns_agree:
  "without_password (select_user u) = user_columns u" "driver_or_zero (ride_columns r) = select_ride r"
  by (simp_all add: without_password_def user_columns_def select_user_def driver_or_zero_def ride_columns_def
      select_ride_def)

lemma example_reads:
  "example_user_by_login login db = map without_password (kSelectUserByLogin login db)"
  "example_users_by_mask lower name_mask db = map without_password (kFindUsersByMask lower name_mask db)"
  "map driver_or_zero (example_active_rides db) = kSelectActiveRides db"
  "map driver_or_zero (example_history uid db) = kSelectRidesByUserId uid db"
  by (simp_all add: example_user_by_login_def kSelectUserByLogin_def example_users_by_mask_def
      kFindUsersByMask_def example_active_rides_def kSelectActiveRides_def example_history_def
      kSelectRidesByUserId_def columns_agree o_def)

lemma example_accept_statement:
  "(case example_accept rid did db of (rows, db') \<Rightarrow> (map driver_or_zero rows, db')) = kAcceptRide rid did db"
  by (simp add: example_accept_def kAcceptRide_def Let_def accept_driver_def [abs_def] accept_ride_def [abs_def]
      columns_agree o_def)

lemma example_accept_db: "snd (example_accept rid did db) = snd (kAcceptRide rid did db)"
  using example_accept_statement [of rid did db] by (simp add: case_prod_unfold prod_eq_iff)

lemma example_accept_none: "fst (example_accept rid did db) = [] \<longleftrightarrow> fst (kAcceptRide rid did db) = []"
  using example_accept_statement [of rid did db] by (simp add: case_prod_unfold prod_eq_iff)
    (metis (no_types, lifting) map_is_Nil_conv)

text \<open>A ride that is accepted has a driver, so the null of the example is never met.\<close>

lemma example_complete_statement:
  assumes "rides_shape db"
  shows "(case example_complete now rid db of (rows, db') \<Rightarrow> (map driver_or_zero rows, db')) =
    kCompleteRide now rid db"
proof (cases "filter (complete_ride rid) (rides db)")
  case Nil
  then show ?thesis
    by (simp add: example_complete_def kCompleteRide_def Let_def complete_ride_def [abs_def])
next
  case (Cons r rs)
  then have "r \<in> set (filter (complete_ride rid) (rides db))" by simp
  with assms obtain d where "rr_driver_id r = Some d"
    by (auto simp: rides_shape_def ride_shape_def complete_ride_def)
  with Cons show ?thesis
    by (simp add: example_complete_def kCompleteRide_def Let_def complete_ride_def [abs_def] columns_agree
        select_ride_def coalesce_def o_def)
qed

text \<open>On the board the statement alone takes the driver, whether there is a ride to give him or not.\<close>

lemma kAcceptRide_refused_board:
  assumes inv: "db_inv db" and online: "driver_avail (show_board db) did = Some Online"
    and ride: "ride_phase (show_board db) rid \<noteq> Some Searching"
  shows "fst (kAcceptRide rid did db) = []"
    and "show_board (snd (kAcceptRide rid did db)) =
      (show_board db)\<lparr>driver_avail := (driver_avail (show_board db))(did \<mapsto> Busy)\<rparr>"
proof -
  from online obtain d where d: "driver_of db did = Some d" "dr_status d = ''online''"
    by (auto simp: show_board_def avail_of_eq_Online)
  have "\<forall>r\<in>set (rides db). \<not> (rr_id r = rid \<and> rr_status r = ''searching'')"
    using ride board_of_ride [OF inv] by (auto simp: phase_of_eq_Searching [symmetric])
  then have none: "\<not> accept_ride rid ud r" if "r \<in> set (rides db)" for r ud
    using that by (auto simp: accept_ride_def)
  then show "fst (kAcceptRide rid did db) = []"
    by (auto simp: kAcceptRide_def Let_def filter_empty_conv)
  have lookup: "driver_of (snd (kAcceptRide rid did db)) i =
      (if i = did then Some (d\<lparr>dr_status := ''busy''\<rparr>) else driver_of db i)" for i
    using d by (auto simp: kAcceptRide_def Let_def driver_of_def accept_driver_def find_map_key)
  have "ride_of (snd (kAcceptRide rid did db)) = ride_of db"
    using none by (simp add: kAcceptRide_def Let_def ride_of_def fun_eq_iff cong: map_cong)
  with lookup show "show_board (snd (kAcceptRide rid did db)) =
      (show_board db)\<lparr>driver_avail := (driver_avail (show_board db))(did \<mapsto> Busy)\<rparr>"
    by (auto simp: show_board_def avail_of_def fun_eq_iff)
qed

section \<open>Property\<close>

text \<open>The rollback of \<open>AcceptRide\<close> is needed: the same statement as in \<open>queries.sql\<close>, run by
  itself for a ride that is not searching and a driver who is online, returns no row and yet leaves the
  driver busy without a ride, so that the database is out of order, while \<open>AcceptRide\<close> changes nothing.\<close>

theorem accept_needs_rollback:
  assumes "good_start (pg_cluster st)" and "driver_avail (show_board (pg_cluster st)) did = Some Online"
    and "ride_phase (show_board (pg_cluster st)) rid \<noteq> Some Searching" and "pg_fault env = NoFault"
  shows "fst (example_accept rid did (pg_cluster st)) = [] \<and>
    driver_avail (show_board (snd (example_accept rid did (pg_cluster st)))) did = Some Busy \<and>
    \<not> good_start (snd (example_accept rid did (pg_cluster st))) \<and>
    AcceptRide env rid did st = (Inr None, st)"
proof -
  let ?b = "show_board (pg_cluster st)"
  from assms(1) have inv: "db_inv (pg_cluster st)" and ok: "board_ok ?b"
    by (simp_all add: good_start_def dispatch_wf_def)
  note refused = kAcceptRide_refused_board [OF inv assms(2,3)]
  have "\<not> (\<exists>r. ride_phase ?b r = Some (Accepted did))"
    using ok assms(2) unfolding board_ok_def by (metis availability.distinct(1) option.inject)
  then have "\<not> board_ok (?b\<lparr>driver_avail := (driver_avail ?b)(did \<mapsto> Busy)\<rparr>)"
    by (auto simp: board_ok_def)
  with refused show ?thesis
    by (simp add: example_accept_none example_accept_db good_start_def AcceptRide_faultless [OF assms(4)])
qed

theorem accept_needs_rollback_witness:
  "AcceptRide (demo_pg 6) 9 1 (demo_storage 4) = (Inr None, demo_storage 4) \<and>
   driver_avail (show_board (snd (example_accept 9 1 (pg_cluster (demo_storage 4))))) 1 = Some Busy"
proof -
  have good: "good_start (pg_cluster (demo_storage 4))"
    using run_good [OF good_start_empty, of demo "take 4 demo_day" "[]"]
    by (simp add: demo_storage_def demo_start_def server_db_storage)
  have "driver_avail (show_board (pg_cluster (demo_storage 4))) 1 = Some Online"
    "ride_phase (show_board (pg_cluster (demo_storage 4))) 9 = None"
    by code_simp+
  then show ?thesis
    using accept_needs_rollback [OF good, of 1 9 "demo_pg 6"] by (simp add: demo_pg_ok)
qed

end
