(* ===== verification/TestSuite.thy ===== *)
theory TestSuite
  imports ActiveLimit PerformanceProperties
begin

text \<open>
  The tests of \<open>tests/test_basic.py\<close> as functions of the server: the requests they make, in their
  order, and their assertions. The last one asks for the active rides until it is refused, at most
  105 times, and expects a refusal with the headers of the limiter.
\<close>

section \<open>The tests of the headers\<close>

definition status_of :: "response result \<Rightarrow> nat" where
  "status_of r = (case r of Inl e \<Rightarrow> 500 | Inr resp \<Rightarrow> resp_status resp)"

definition header_of :: "response result \<Rightarrow> string \<Rightarrow> string option" where
  "header_of r h = (case r of Inl e \<Rightarrow> None | Inr resp \<Rightarrow> resp_headers resp h)"

text \<open>The requests of a test: create a user, log in, and the same request twice.\<close>

definition test_users_cache_header :: "response result list \<Rightarrow> bool" where
  "test_users_cache_header rs \<longleftrightarrow>
     (case rs of
        [created, logged_in, first_response, second_response] \<Rightarrow>
          status_of created = 201 \<and> status_of logged_in = 200 \<and>
          status_of first_response = 200 \<and> header_of first_response ''X-Cache'' = Some ''MISS'' \<and>
          status_of second_response = 200 \<and> header_of second_response ''X-Cache'' = Some ''HIT''
      | _ \<Rightarrow> False)"

definition limit_headers :: "response result \<Rightarrow> bool" where
  "limit_headers r \<longleftrightarrow>
     header_of r ''X-RateLimit-Limit'' = Some ''100'' \<and>
     header_of r ''X-RateLimit-Remaining'' \<noteq> None \<and> header_of r ''X-RateLimit-Reset'' \<noteq> None"

definition test_active_rides_cache_and_rate_limit_headers :: "response result list \<Rightarrow> bool" where
  "test_active_rides_cache_and_rate_limit_headers rs \<longleftrightarrow>
     test_users_cache_header rs \<and> (case rs of [created, logged_in, first_response, second_response] \<Rightarrow>
       limit_headers first_response \<and> limit_headers second_response | _ \<Rightarrow> False)"

text \<open>The requests with the texts of the tests, at given seconds; the login and the token of the user differ.\<close>

definition cache_test_user :: "int \<Rightarrow> string \<Rightarrow> operation list" where
  "cache_test_user t login =
     [(demo_env t NoFault, demo_req ''POST'' ''/users'' [] [] []
        (''login='' @ login @ ''&password=pass123&full_name=Cache Test User'')),
      (demo_env t NoFault, demo_req ''POST'' ''/auth/login'' [] [] []
        (''login='' @ login @ ''&password=pass123''))]"

definition users_cache_test :: "int \<Rightarrow> string \<Rightarrow> string \<Rightarrow> operation list" where
  "users_cache_test t login token = cache_test_user t login @
     replicate 2 (demo_env t NoFault, demo_req ''GET'' ''/users'' token [(''name_mask'', ''Cache'')] [] [])"

definition active_rides_test :: "int \<Rightarrow> string \<Rightarrow> string \<Rightarrow> operation list" where
  "active_rides_test t login token = cache_test_user t login @
     replicate 2 (demo_env t NoFault, demo_req ''GET'' ''/rides'' token [(''status'', ''active'')] [] [])"

text \<open>
  One after the other the tests of the headers pass; the second one made again within fifteen seconds
  does not, for the list is still cached.
\<close>

theorem header_tests:
  "test_users_cache_header (responses demo (users_cache_test 1 ''cache_test_a'' ''token-1-1'') demo_start) \<and>
   test_active_rides_cache_and_rate_limit_headers
     (responses demo (active_rides_test 2 ''cache_test_b'' ''token-2-2'')
       (server_run demo (users_cache_test 1 ''cache_test_a'' ''token-1-1'') demo_start)) \<and>
   \<not> test_active_rides_cache_and_rate_limit_headers
     (responses demo (active_rides_test 16 ''cache_test_c'' ''token-3-3'')
       (server_run demo (active_rides_test 2 ''cache_test_b'' ''token-2-2'')
         (server_run demo (users_cache_test 1 ''cache_test_a'' ''token-1-1'') demo_start)))"
  by code_simp

section \<open>The loop of the last test\<close>

text \<open>\<open>break\<close> on the first response with 429; otherwise the last response stays.\<close>

fun poll_until_429 :: "('j, 'm, 'd) platform \<Rightarrow> request \<Rightarrow> req_env list \<Rightarrow> response result option \<Rightarrow> 'm server \<Rightarrow>
    response result option" where
  "poll_until_429 pf req [] last_response s = last_response"
| "poll_until_429 pf req (env # envs) last_response s =
     (case handle pf env req s of
        (r, s') \<Rightarrow>
          if (case r of Inr resp \<Rightarrow> resp_status resp = 429 | Inl e \<Rightarrow> False) then Some r
          else poll_until_429 pf req envs (Some r) s')"

definition refused_with_headers :: "response result option \<Rightarrow> bool" where
  "refused_with_headers last_response \<longleftrightarrow>
     (case last_response of
        Some (Inr resp) \<Rightarrow>
          resp_status resp = 429 \<and>
          resp_headers resp ''X-RateLimit-Limit'' = Some ''100'' \<and>
          resp_headers resp ''X-RateLimit-Remaining'' = Some ''0'' \<and>
          resp_headers resp ''X-RateLimit-Reset'' \<noteq> None \<and>
          resp_headers resp ''Retry-After'' \<noteq> None
      | _ \<Rightarrow> False)"

definition test_active_rides_rate_limit_429 :: "('j, 'm, 'd) platform \<Rightarrow> request \<Rightarrow> req_env list \<Rightarrow> 'm server \<Rightarrow> bool" where
  "test_active_rides_rate_limit_429 pf req envs s \<longleftrightarrow> refused_with_headers (poll_until_429 pf req envs None s)"

lemma active_request:
  assumes ask: "asks_active pf req" and auth: "authorized (server_storage s) req"
    and check: "Check (system_now env) ACTIVE_RIDES_KEY 100 60 (limiter (svc s)) = (Inr r, rl)"
    and run: "handle pf env req s = (out, s')"
  shows "limiter (svc s') = rl" and "server_storage s' = server_storage s"
    and "\<not> allowed r \<Longrightarrow> refused_with_headers (Some out)"
    and "allowed r \<Longrightarrow> (case out of Inr resp \<Rightarrow> resp_status resp \<noteq> 429 | Inl e \<Rightarrow> True)"
proof -
  let ?resp = "SetContentType ''application/json'' empty_response"
  obtain body resp sv where h: "RidesGet_HandleRequestThrow (pf_json pf) env req empty_response (svc s) = (body, resp, sv)"
    by (metis prod.collapse)
  with ask auth run have out: "out = finish body resp" and s': "s' = s\<lparr>svc := sv\<rparr>"
    by (auto simp: handle_def AuthMiddleware_pass dispatch_def run_sql_def asks_active_def)
  have "std_to_string 100 = ''100''" "std_to_string 0 = ''0''" by code_simp+
  note numbers = this
  have lim: "limit r = 100" "\<not> allowed r \<Longrightarrow> remaining r = 0"
    using check by (auto simp: Check_def Let_def split: if_splits)
  show "server_storage s' = server_storage s"
    using RidesGet_storage [OF h] s' by (simp add: server_storage_def)
  show "limiter (svc s') = rl"
  proof (cases "allowed r")
    case True
    with h ask check have "RidesGet_cached (pf_json pf) env False [] (SetRateLimitHeaders r ?resp)
        ((svc s)\<lparr>limiter := rl\<rparr>) = (body, resp, sv)"
      by (simp add: RidesGet_HandleRequestThrow_def asks_active_def kActiveRidesLimitPerMinute_def Let_def)
    from RidesGet_cached_storage [OF this] s' show ?thesis by simp
  next
    case False
    with h ask check s' show ?thesis
      by (auto simp: RidesGet_HandleRequestThrow_def asks_active_def kActiveRidesLimitPerMinute_def Let_def)
  qed
  show "refused_with_headers (Some out)" if "\<not> allowed r"
    using that h ask check out lim numbers
    by (auto simp: RidesGet_HandleRequestThrow_def asks_active_def kActiveRidesLimitPerMinute_def Let_def
        finish_def refused_with_headers_def SetRateLimitHeaders_def response_defs)
  show "case out of Inr resp \<Rightarrow> resp_status resp \<noteq> 429 | Inl e \<Rightarrow> True" if "allowed r"
  proof -
    from that h ask check have cached: "RidesGet_cached (pf_json pf) env False [] (SetRateLimitHeaders r ?resp)
        ((svc s)\<lparr>limiter := rl\<rparr>) = (body, resp, sv)"
      by (simp add: RidesGet_HandleRequestThrow_def asks_active_def kActiveRidesLimitPerMinute_def Let_def)
    show ?thesis
    proof (cases body)
      case (Inr b)
      with cached rides_get_cached_status [of "pf_json pf" env False "[]" "SetRateLimitHeaders r ?resp" "(svc s)\<lparr>limiter := rl\<rparr>" b resp sv]
      show ?thesis by (simp add: out finish_def SetRateLimitHeaders_def response_defs empty_response_def)
    qed (simp add: out finish_def)
  qed
qed

text \<open>The loop ends with a refusal exactly when the limiter refuses one of the calls.\<close>

lemma poll_refused:
  assumes "asks_active pf req" and "authorized (server_storage s) req"
    and "\<not> refused_with_headers last_response"
  shows "refused_with_headers (poll_until_429 pf req envs last_response s) \<longleftrightarrow>
    False \<in> set (check_run ACTIVE_RIDES_KEY 100 (map system_now envs) (limiter (svc s)))"
  using assms(2,3)
proof (induction envs arbitrary: s last_response)
  case Nil
  then show ?case by simp
next
  case (Cons env envs)
  obtain res rl where res: "Check (system_now env) ACTIVE_RIDES_KEY 100 60 (limiter (svc s)) = (res, rl)"
    by fastforce
  then obtain r where "res = Inr r" by (auto simp: Check_def Let_def split: if_splits)
  with res have check: "Check (system_now env) ACTIVE_RIDES_KEY 100 60 (limiter (svc s)) = (Inr r, rl)" by simp
  obtain out s' where run: "handle pf env req s = (out, s')" by fastforce
  note one = active_request [OF assms(1) Cons.prems(1) check run]
  show ?case
  proof (cases "allowed r")
    case False
    from one(3) [OF this] have refused: "refused_with_headers (Some out)" .
    then have "case out of Inr resp \<Rightarrow> resp_status resp = 429 | Inl e \<Rightarrow> False"
      by (simp add: refused_with_headers_def split: sum.splits)
    with refused False check run show ?thesis by simp
  next
    case True
    from one(4) [OF this] have "\<not> (case out of Inr resp \<Rightarrow> resp_status resp = 429 | Inl e \<Rightarrow> False)"
      "\<not> refused_with_headers (Some out)"
      by (auto simp: refused_with_headers_def split: sum.splits)
    with Cons.IH [of s' "Some out"] Cons.prems(1) one(1,2) True check run show ?thesis by simp
  qed
qed

section \<open>Property\<close>

text \<open>C38: The test of the limit depends on the clock: made 105 times in two minutes, of which the
  limiter has seen none before, the request is refused, as the test expects, exactly when more than a
  hundred of the calls fall into one of them; when the minute changes after the fourth and before the
  hundred and first call, the test fails although the service does what it should.\<close>

theorem rate_limit_test_iff:
  assumes "asks_active pf req" and "authorized (server_storage s) req"
    and "length envs = 105" and "k \<le> 105" and "w \<noteq> w'"
    and "window_start (bucket_of (limiter (svc s)) ACTIVE_RIDES_KEY) \<notin> {w, w'}"
    and "\<forall>i<105. window_start_at (system_now (envs ! i)) 60 = (if i < k then w else w')"
  shows "test_active_rides_rate_limit_429 pf req envs s \<longleftrightarrow> \<not> (4 < k \<and> k < 101)"
proof -
  let ?rl = "limiter (svc s)" and ?ts = "map system_now envs"
  let ?answers = "window_limiter.admissions (admit_key ACTIVE_RIDES_KEY 100)"
  let ?rl' = "window_limiter.after_run (admit_key ACTIVE_RIDES_KEY 100) (take k ?ts) ?rl"
  have first: "\<forall>t\<in>set (take k ?ts). window_start_at t 60 = w"
  proof
    fix t
    assume "t \<in> set (take k ?ts)"
    then obtain i where "i < k" "i < 105" "t = system_now (envs ! i)"
      using assms(3,4) by (auto simp: in_set_conv_nth)
    with assms(7) show "window_start_at t 60 = w" by simp
  qed
  have second: "\<forall>t\<in>set (drop k ?ts). window_start_at t 60 = w'"
  proof
    fix t
    assume "t \<in> set (drop k ?ts)"
    then obtain i where i: "i < length (drop k ?ts)" "drop k ?ts ! i = t"
      by (meson in_set_conv_nth)
    with assms(3,4) have "k + i < 105" "t = system_now (envs ! (k + i))" by simp_all
    with assms(7) show "window_start_at t 60 = w'" by simp
  qed
  have fresh: "window_start (bucket_of ?rl ACTIVE_RIDES_KEY) \<noteq> w"
    using assms(6) by simp
  have "window_start (bucket_of ?rl' ACTIVE_RIDES_KEY) \<noteq> w'"
  proof (cases "take k ?ts = []")
    case True
    with assms(6) show ?thesis by (simp add: key_limit.current_after_run)
  next
    case False
    with first have "window_start_at (last (take k ?ts)) 60 = w" by (meson last_in_set)
    with False assms(5) show ?thesis by (simp add: key_limit.current_after_run)
  qed
  from key_limit.refused_in_window [OF this second, of 100]
    key_limit.refused_in_window [OF fresh first, of 100]
  have "False \<in> set (?answers (take k ?ts @ drop k ?ts) ?rl) \<longleftrightarrow> \<not> (4 < k \<and> k < 101)"
    using assms(3,4) unfolding key_limit.admissions_append by auto
  moreover have "test_active_rides_rate_limit_429 pf req envs s \<longleftrightarrow> False \<in> set (check_run ACTIVE_RIDES_KEY 100 ?ts ?rl)"
    unfolding test_active_rides_rate_limit_429_def
    by (rule poll_refused [OF assms(1,2)]) (simp add: refused_with_headers_def)
  ultimately show ?thesis by (simp add: check_run_admissions)
qed

text \<open>Sixty calls before the minute changes and forty-five after it.\<close>

definition minute_changes :: "nat \<Rightarrow> req_env list" where
  "minute_changes k = map (\<lambda>i. demo_env (if i < k then 70 else 130) NoFault) [0..<105]"

theorem rate_limit_test_iff_witness:
  "\<not> test_active_rides_rate_limit_429 demo (snd (active_rides 7)) (minute_changes 60)
     (server_run demo [ann_joins, ann_logs_in] demo_start) \<and>
   test_active_rides_rate_limit_429 demo (snd (active_rides 7)) (minute_changes 105)
     (server_run demo [ann_joins, ann_logs_in] demo_start)"
proof -
  let ?s = "server_run demo [ann_joins, ann_logs_in] demo_start" and ?req = "snd (active_rides 7)"
  have ask: "asks_active demo ?req" by code_simp
  have auth: "authorized (server_storage ?s) ?req" by code_simp
  have bucket: "window_start (bucket_of (limiter (svc ?s)) ACTIVE_RIDES_KEY) = 0" by code_simp
  have "test_active_rides_rate_limit_429 demo ?req (minute_changes k) ?s \<longleftrightarrow> \<not> (4 < k \<and> k < 101)"
    if "k \<le> 105" for k
  proof (rule rate_limit_test_iff [OF ask auth _ that, of _ 60 120])
    have "window_start_at (70 * SECOND) 60 = 60" "window_start_at (130 * SECOND) 60 = 120"
      by code_simp+
    then show "\<forall>i<105. window_start_at (system_now (minute_changes k ! i)) 60 = (if i < k then 60 else 120)"
      by (simp add: minute_changes_def demo_env_def)
  qed (simp_all add: minute_changes_def bucket)
  from this [of 60] this [of 105] show ?thesis by simp
qed

end
