(* ===== verification/Spec2Isabelle.thy ===== *)
theory Spec2Isabelle
  imports PerformanceProperties HandlerProperties ConcurrencyProperties EventProperties WiringProperties
    Progress SeedData ApiProperties ApiDescription MongoRoundtrip ExampleQueries TestSuite
begin

text \<open>
  A verification development for the taxi service: an HTTP service in C++ (userver) that keeps
  users, drivers and rides in PostgreSQL, a second set of users in MongoDB, bearer tokens and a
  response cache in memory, and an event service in Python that keeps a read model of the rides.

  \<^bold>\<open>Parts of the program and the theories that model them.\<close>

  \<^item> Models (\<open>src/src/models\<close>): \<open>Models\<close> has the structs as records. The functions of the C++
    standard library that the service calls (\<open>std::to_string\<close>, \<open>std::stoi\<close>, \<open>rfind\<close>, \<open>compare\<close>,
    \<open>substr\<close>) are in \<open>CppStd\<close>; generic lemmas and the exceptions are in \<open>Prelude\<close>.
  \<^item> Storage (\<open>src/src/storage\<close>, \<open>src/schema.sql\<close>): \<open>Database\<close> has the tables and every SQL
    statement of \<open>taxi_storage.cpp\<close> as a function on them, \<open>DatabaseInvariant\<close> the constraints of
    the schema and their preservation, \<open>TaxiStorage\<close> the class with all its operations, the token
    map, transactions and faults of the connection, \<open>StorageFacts\<close> the outcome of each operation by
    cases.
  \<^item> Cache and limiter (\<open>src/src/performance/simple_performance.hpp\<close>): \<open>ResponseCache\<close> and
    \<open>RateLimiter\<close>, with the contracts \<open>CacheAside\<close> and \<open>WindowLimit\<close> (locales) that they
    interpret.
  \<^item> Handlers (\<open>src/src/handlers\<close>): \<open>Http\<close> has requests, responses and the JSON library as a
    parameter; \<open>UserHandlers\<close>, \<open>RideHandlers\<close> and \<open>MongoHandlers\<close> have every
    \<open>HandleRequestThrow\<close>, with its guards, early returns, exceptions, headers and calls in the order
    of the code.
  \<^item> Middleware (\<open>src/src/middlewares\<close>): \<open>AuthMiddleware\<close>.
  \<^item> The server (\<open>src/src/main.cpp\<close>, \<open>src/configs/static_config.yaml\<close>): \<open>Server\<close> composes the
    middleware, the router (a parameter that respects the configured paths) and the handlers to
    one step per request (\<open>server_step\<close>) and to runs (\<open>server_run\<close>).

  \<^item> Requests at the same time: \<open>Concurrent\<close> has programs of atomic actions, pools and schedules;
    \<open>HandlerPrograms\<close> and \<open>ServerPrograms\<close> have every handler and the whole request as such a program,
    each proved to compute, when it runs alone, what the handler computes; \<open>Interleaving\<close> carries
    invariants through every schedule, \<open>Linearization\<close> and \<open>ServerLinearization\<close> explain every schedule
    by a serial order, \<open>ActiveLimit\<close> limits the requests of a pool for the active rides.
  \<^item> Start: \<open>Wiring\<close> has the names, static schemas and constructors of the components and the component
    list of \<open>main.cpp\<close> (with \<open>taxi_storage_component.cpp\<close>), \<open>Configuration\<close> the contents of
    \<open>static_config.yaml\<close> and of both files of variables, \<open>SeedData\<close> the rows of \<open>data.sql\<close>.
    \<open>Objects\<close> has the classes of the headers as records (name, constructor, method, schema), the heap
    with what they refer to, and a request that follows the references.
  \<^item> Interfaces: \<open>StorageApi\<close> has the public methods of \<open>taxi_storage.hpp\<close> as calls with replies,
    \<open>ApiDescription\<close> the schemas of the responses in \<open>openapi.yaml\<close>, \<open>MongoSchema\<close> the validator of
    \<open>validation.js\<close>, \<open>ExampleQueries\<close> the statements of \<open>queries.sql\<close>, \<open>TestSuite\<close> the tests of
    \<open>tests/test_basic.py\<close> with their requests and assertions.
  \<^item> The event service (\<open>src/event_service\<close>): \<open>EventService\<close> has the payloads of the producer and the
    consumer with its read model.

  \<^bold>\<open>Specifications and what the lemmas show.\<close>

  \<^item> \<open>Dispatch\<close> is the abstract board of rides and drivers with its steps and its invariant;
    \<open>DispatchRefinement\<close> shows that the statements compute its steps and that every operation is one;
    \<open>ServerInvariant\<close> interprets the locale \<open>board_refinement\<close> on the step of the server. It follows
    over any run: a driver serves one ride at a time, he is busy exactly while he serves, a ride
    only moves forward.
  \<^item> \<open>TokenAuthority\<close> is the contract of issuing and checking tokens, interpreted on the server in
    \<open>ServerInvariant\<close>: the valid tokens are those issued, each once, and protected endpoints are
    closed without one.
  \<^item> \<open>HandlerEffects\<close> says what each handler does to the state, \<open>Coherence\<close> and
    \<open>CacheTransparency\<close> show that the cache never changes an answer while no connection is lost
    after a commit, and that after such a loss every stale entry is gone within sixty seconds.
  \<^item> \<open>Interleaving\<close> states with the locale \<open>service_invariant\<close> what an invariant of the storage and one
    of the cache must respect, and interprets it for the board, the stage of a ride, the tokens and the
    age of the cache. \<open>ConcurrencyProperties\<close> has the consequences: exclusive accepts under every
    schedule, an end of every request after five actions of its own, stale answers for at most a
    minute; and two schedules that the code does not exclude.
  \<^item> \<open>Linearization\<close>: when every program changes what is observed with one action, as its operation does,
    and from then on goes to an answer that is admitted at that moment, every schedule is a serial order of
    operations that respects their order in time (locale \<open>linearizable\<close>). \<open>ServerLinearization\<close> interprets it
    on the storage and the limiter, for all requests, the login with its two actions included. \<open>ActiveLimit\<close>
    follows the limit from the limiter to the answers: the serial order is limited, so every schedule is.
  \<^item> \<open>Progress\<close>: the statuses of the answers are the documented ones, and a ride can be served to its end.
    \<open>ApiDescription\<close>: the answers have the described content type, header and bodies, by an invariant of
    the bodies in the cache. \<open>WiringProperties\<close>: the objects that \<open>main\<close> constructs refine the server
    with one state, the configuration is closed, routing is unambiguous. \<open>ApiProperties\<close>: what every
    client of \<open>TaxiStorage\<close> can rely on, that the server is one, and the one unguarded method.
    \<open>MongoSchema\<close>: which requests the collection refuses after the handler admitted them.
    \<open>MongoRoundtrip\<close>: a user created there is read back with the same body.
    \<open>ExampleQueries\<close>: why accepting a ride needs its transaction. \<open>TestSuite\<close>: the tests of the headers
    pass, and at which seconds the test of the limit does. \<open>EventProperties\<close>: the read model refines an
    abstract view of the rides, and what crashes, refused messages and redelivered events do to it.
  \<^item> \<open>StorageProperties\<close>, \<open>PerformanceProperties\<close>, \<open>HandlerProperties\<close> and this theory hold the
    other properties; \<open>Scenario\<close> is a concrete platform and a day of requests on which their hypotheses
    are checked.

  \<^bold>\<open>How the model reads the code.\<close> A state is a record and an operation returns it updated; an
  exception is the left of a sum (\<open>'a result\<close>), so that every early return and every throw is a
  branch. \<open>int\<close> columns and JSON numbers are integers: the identity sequences stop at the largest
  \<open>int\<close>, \<open>std::stoi\<close> checks the range, and the one counter that could overflow
  (\<open>next_token_id_\<close>) is stopped there as undefined behaviour. The counters of the cache are 64-bit
  words. Texts are lists of bytes in UTF-8 without NUL. Clock readings are part of the environment
  of a request (\<open>req_env\<close>): nanoseconds for the steady and the system clock, so times of the cache
  and of the limiter are exact integers. No loop of the code needs fuel: all are structural
  recursions over the rows, the entries or the requests. A request of the concurrent model takes at
  most five atomic actions (the token, the limiter, the lookup in the cache, the query, the insertion into the cache),
  so five turns end it. An action is a call on the storage, which is one statement or one transaction
  (\<open>kAcceptRide\<close> and \<open>kCompleteRide\<close> lock the rows they update, and PostgreSQL tests their conditions again
  after waiting for a lock; \<open>AcceptRide\<close> rolls back when it is left without a row), a section under the
  mutex of the cache, the limiter or the tokens, or one call of the driver of MongoDB.

  \<^bold>\<open>Parameters.\<close> The JSON library, the MongoDB driver, the router and the handlers that the
  framework brings are not part of the repository; they are arguments (\<open>json_lib\<close>, \<open>mongo_lib\<close>,
  \<open>platform\<close>). \<open>lower\<close> of PostgreSQL depends on its locale and is an argument (\<open>pg_lower\<close>), and so
  is the rounding of \<open>double\<close> in \<open>HitRate\<close>. The connection may fail before a statement or
  transaction takes effect or after it did and before the client hears of it (\<open>pg_fault\<close>); one such
  choice holds for all statements of a request, which makes at most one of them.

  \<^bold>\<open>Not modelled.\<close> There is one PostgreSQL host, so reads sent to a replica see the master. The
  broker of the event service is a parameter: its consumer is a function of the deliveries it is given,
  and connecting and declaring queues (\<open>rabbitmq_client.py\<close>) are calls on the broker alone. The
  component system, the router and the base schemas of the framework are parameters. The collections of
  rides and drivers that \<open>data.js\<close> and \<open>queries.js\<close> fill and query are not used by the service and not
  modelled, and neither are the build files and the test of \<open>/ping\<close>, whose handler belongs to the
  framework. That MongoDB refuses documents against its validator (\<open>validates\<close>), and that its driver finds an
  inserted document and reads its members back (\<open>keeps_documents\<close>), are hypotheses of the one property each
  that needs them.
\<close>

section \<open>Dispatching over whole runs\<close>

text \<open>C2: At most one ride of a driver is accepted at any time: after any list of requests,
  with any faults of the database connection, from any database in good order, two rides that
  are accepted and have the same driver are the same ride.\<close>

theorem one_ride_per_driver:
  assumes "good_start db"
    and "r \<in> set (rides (server_db (server_run pf ops (server_init db m))))" "rr_status r = ''accepted''"
    and "r' \<in> set (rides (server_db (server_run pf ops (server_init db m))))" "rr_status r' = ''accepted''"
    and "rr_driver_id r = rr_driver_id r'"
  shows "r = r'"
  by (rule good_accepted_unique [OF run_good [OF assms(1)] assms(2-6)])

theorem one_ride_per_driver_witness:
  "map (\<lambda>r. (rr_status r, rr_driver_id r)) (rides (server_db (server_run demo (take 7 demo_day) demo_start))) =
     [(''accepted'', Some 1)] \<and>
   hd (rides (server_db (server_run demo (take 7 demo_day) demo_start))) =
     last (rides (server_db (server_run demo (take 7 demo_day) demo_start)))"
proof -
  let ?rs = "rides (server_db (server_run demo (take 7 demo_day) (server_init empty_database [])))"
  have rows: "map (\<lambda>r. (rr_status r, rr_driver_id r)) ?rs = [(''accepted'', Some 1)]" by code_simp
  then have "hd ?rs \<in> set ?rs" "rr_status (hd ?rs) = ''accepted''"
    "last ?rs \<in> set ?rs" "rr_status (last ?rs) = ''accepted''" "rr_driver_id (hd ?rs) = rr_driver_id (last ?rs)"
    by auto
  from one_ride_per_driver [OF good_start_empty this] rows show ?thesis
    by (simp add: demo_start_def)
qed

text \<open>C10: A driver is busy exactly while one of the accepted rides is his, after any list of
  requests with any faults of the connection.\<close>

theorem busy_exactly_while_serving:
  assumes "good_start db"
    and "d \<in> set (drivers (server_db (server_run pf ops (server_init db m))))"
  shows "dr_status d = ''busy'' \<longleftrightarrow>
    (\<exists>r\<in>set (rides (server_db (server_run pf ops (server_init db m)))).
       rr_status r = ''accepted'' \<and> rr_driver_id r = Some (dr_id d))"
  by (rule good_busy [OF run_good [OF assms(1)] assms(2)])

theorem busy_exactly_while_serving_witness:
  "map dr_status (drivers (server_db (server_run demo (take 7 demo_day) demo_start))) = [''busy''] \<and>
   (dr_status (hd (drivers (server_db (server_run demo (take 7 demo_day) demo_start)))) = ''busy'' \<longleftrightarrow>
    (\<exists>r\<in>set (rides (server_db (server_run demo (take 7 demo_day) demo_start))).
       rr_status r = ''accepted'' \<and>
       rr_driver_id r = Some (dr_id (hd (drivers (server_db (server_run demo (take 7 demo_day) demo_start)))))))"
proof -
  let ?ds = "drivers (server_db (server_run demo (take 7 demo_day) (server_init empty_database [])))"
  have rows: "map dr_status ?ds = [''busy'']" by code_simp
  then have "hd ?ds \<in> set ?ds" by auto
  from busy_exactly_while_serving [OF good_start_empty this] rows show ?thesis
    by (simp add: demo_start_def)
qed

text \<open>C15: A ride only moves forward: whatever requests come, a ride never disappears, never goes
  back from completed to accepted or from accepted to searching, and keeps the driver it was
  given.\<close>

theorem ride_moves_forward:
  assumes "dispatch_wf db" and "ride_phase (show_board db) i = Some p"
  shows "\<exists>q. ride_phase (show_board (server_db (server_run pf ops (server_init db m)))) i = Some q \<and>
    phase_stage p \<le> phase_stage q \<and> (phase_driver p \<noteq> None \<longrightarrow> phase_driver q = phase_driver p)"
proof -
  from assms have "server_wf (server_init db m)" "ride_phase (server_board (server_init db m)) i = Some p"
    by (simp_all add: server_wf_init server_board_init)
  from server_dispatch.run_phase [OF this, of pf ops] show ?thesis
    by (simp add: server_run_def server_board_def phase_le_def)
qed

theorem ride_moves_forward_witness:
  "ride_phase (show_board (server_db (server_run demo (take 7 demo_day) demo_start))) 1 = Some (Accepted 1) \<and>
   (\<exists>q. ride_phase (show_board (server_db (server_run demo [ann_logs_in, ride_completed]
          (server_init (server_db (server_run demo (take 7 demo_day) demo_start)) [])))) 1 = Some q \<and>
      StageAccepted \<le> phase_stage q \<and> phase_driver q = Some 1)"
proof -
  let ?db = "server_db (server_run demo (take 7 demo_day) demo_start)"
  have wf: "dispatch_wf ?db"
    using run_good [OF good_start_empty, of demo "take 7 demo_day" "[]"]
    by (simp add: good_start_def demo_start_def)
  have acc: "ride_phase (show_board ?db) 1 = Some (Accepted 1)" by code_simp
  from ride_moves_forward [OF wf acc, of demo "[ann_logs_in, ride_completed]" "[]"] acc show ?thesis
    by simp
qed

text \<open>C14: The constraints of the schema (keys, uniqueness, references, widths, checks) and the
  shape of the rides hold after any list of requests with any faults of the connection.\<close>

theorem schema_kept:
  assumes "dispatch_wf db"
  shows "dispatch_wf (server_db (server_run pf ops (server_init db m)))"
proof -
  from assms have "server_wf (server_init db m)" by (simp add: server_wf_init)
  from server_dispatch.run_wf [OF this, of pf ops] show ?thesis
    by (simp add: server_run_def server_wf_def)
qed

theorem schema_kept_witness:
  "dispatch_wf empty_database \<and> dispatch_wf (server_db (server_run demo demo_day (server_init empty_database [])))"
  by (rule conjI [OF dispatch_wf_empty schema_kept [OF dispatch_wf_empty]])

section \<open>The cache\<close>

text \<open>C1: The cache is transparent: while the database connection does not fail and its collation
  is fixed, the answers (status, content type and body) to any list of requests are those of a
  service that forgets its cache before every request.\<close>

theorem cache_is_transparent:
  assumes "\<forall>op\<in>set ops. faultless lower t (fst op)"
  shows "answers pf ops (server_init db m) = answers_uncached pf ops (server_init db m)"
  by (rule answers_transparent [OF server_coherent_init assms refl])

theorem cache_is_transparent_witness:
  "answers demo demo_day demo_start = answers_uncached demo demo_day demo_start \<and>
   hits (cache (svc (server_run demo demo_day demo_start))) = 1"
proof
  show "answers demo demo_day demo_start = answers_uncached demo demo_day demo_start"
    unfolding demo_start_def
    by (rule cache_is_transparent [where lower = "\<lambda>s. s" and t = 0])
      (simp add: demo_defs demo_env_def faultless_def)
  show "hits (cache (svc (server_run demo demo_day demo_start))) = 1" by code_simp
qed

text \<open>Stale answers end within a minute: whatever faults the requests up to a time met, a
  request at least sixty seconds later is answered as without the cache, as long as no write
  after that time lost its connection.\<close>

theorem stale_at_most_a_minute:
  assumes "\<forall>op\<in>set ops1. steady_set (fst op) \<le> \<tau>" and "\<forall>op\<in>set ops2. settled lower (fst op)"
    and "faultless lower (\<tau> + 60 * SECOND) env"
  shows "answer (fst (handle pf env req (server_run pf (ops1 @ ops2) (server_init db m)))) =
    answer (fst (handle pf env req (server_clear (server_run pf (ops1 @ ops2) (server_init db m)))))"
proof -
  have "server_coherent (pf_json pf) lower (\<tau> + 60 * SECOND)
      (server_run pf (ops1 @ ops2) (server_init db m))"
    using server_heals [OF assms(1,2)] by (simp add: server_run_def)
  from handle_transparent [of pf env "\<tau> + 60 * SECOND" _ req] this assms(3)
  show ?thesis by (simp add: faultless_def)
qed

text \<open>The day of an accept whose commit is not confirmed to the service.\<close>

definition lost_commit_day :: "operation list" where
  "lost_commit_day = [ann_joins, ann_logs_in, ann_drives, ann_orders, active_rides 5,
     ride_accepted FaultAfter]"

theorem stale_at_most_a_minute_witness:
  "answer (fst (handle demo (fst (active_rides 70)) (snd (active_rides 70))
     (server_run demo (lost_commit_day @ []) demo_start))) =
   answer (fst (handle demo (fst (active_rides 70)) (snd (active_rides 70))
     (server_clear (server_run demo (lost_commit_day @ []) demo_start))))"
  unfolding demo_start_def
  by (rule stale_at_most_a_minute [where lower = "\<lambda>s. s" and \<tau> = "6 * SECOND"])
    (simp_all add: lost_commit_day_def demo_defs demo_env_def faultless_def)

text \<open>The bound cannot be dropped: when the connection is lost after an accept took effect, the
  cache is not invalidated, and the list of active rides still shows the ride as searching while
  the database has it accepted.\<close>

theorem lost_commit_leaves_stale_list:
  "map rr_status (rides (server_db (server_run demo lost_commit_day demo_start))) = [''accepted''] \<and>
   answer (fst (handle demo (fst (active_rides 7)) (snd (active_rides 7))
     (server_run demo lost_commit_day demo_start))) =
   answer (fst (handle demo (fst (active_rides 5)) (snd (active_rides 5))
     (server_run demo (take 4 lost_commit_day) demo_start))) \<and>
   answer (fst (handle demo (fst (active_rides 7)) (snd (active_rides 7))
     (server_run demo lost_commit_day demo_start))) \<noteq>
   answer (fst (handle demo (fst (active_rides 7)) (snd (active_rides 7))
     (server_clear (server_run demo lost_commit_day demo_start))))"
  by code_simp

section \<open>Access\<close>

text \<open>C17: The tokens that are valid after a run are exactly those issued in it by
  \<open>POST /auth/login\<close>.\<close>

theorem valid_tokens_were_issued:
  "IsTokenValid (server_storage (server_run pf ops (server_init db m))) t \<longleftrightarrow>
     t \<in> set (issued_tokens pf ops (server_init db m))"
  using server_tokens.run_valid [of pf ops "server_init db m" t] no_token_init [of db m t]
  by (simp add: server_run_def issued_tokens_eq)

text \<open>C18: No token is issued twice in the life of the process.\<close>

theorem tokens_issued_once: "distinct (issued_tokens pf ops (server_init db m))"
  unfolding issued_tokens_eq by (rule server_tokens.issued_in_distinct [OF server_tokens_inv_init])

text \<open>C3: A request to a protected endpoint that carries no token issued in this run is refused
  with 401 and changes nothing, wherever in the run it comes.\<close>

theorem protected_needs_issued_token:
  assumes "routes_as_configured (pf_route pf)" and "pf_route pf req = Some ep" and "protected_endpoint ep"
    and "\<forall>t. bearer_token req = Some t \<longrightarrow> t \<notin> set (issued_tokens pf ops (server_init db m))"
  shows "handle pf env req (server_run pf ops (server_init db m)) =
    (Inr (unauthorized (refusal_body req) empty_response), server_run pf ops (server_init db m))"
proof -
  let ?s = "server_run pf ops (server_init db m)"
  have "\<not> IsPublicRequest req" by (rule protected_not_public [OF assms(1-3)])
  moreover have "\<not> IsTokenValid (server_storage ?s) t" if "bearer_token req = Some t" for t
    using server_tokens.run_valid [of pf ops "server_init db m" t] no_token_init [of db m t] assms(4) that
    by (simp add: server_run_def issued_tokens_eq)
  ultimately have "\<not> authorized (server_storage ?s) req" by (auto simp: authorized_def split: option.split)
  then show ?thesis by (simp add: handle_def AuthMiddleware_refuse)
qed

theorem protected_needs_issued_token_witness:
  "handle demo (fst ann_orders) (snd ann_orders) (server_run demo [ann_joins] demo_start) =
     (Inr (unauthorized (refusal_body (snd ann_orders)) empty_response),
      server_run demo [ann_joins] demo_start)"
  unfolding demo_start_def
proof (rule protected_needs_issued_token)
  show "routes_as_configured (pf_route demo)" by (simp add: demo_def demo_routes)
  show "pf_route demo (snd ann_orders) = Some EP_RidesCreate" by code_simp
  show "protected_endpoint EP_RidesCreate" by simp
  have "issued_tokens demo [ann_joins] (server_init empty_database []) = []" by code_simp
  then show "\<forall>t. bearer_token (snd ann_orders) = Some t \<longrightarrow>
      t \<notin> set (issued_tokens demo [ann_joins] (server_init empty_database []))" by simp
qed

text \<open>A request that carries a token issued before in the run passes the middleware and is
  dispatched to its handler.\<close>

theorem issued_token_passes:
  assumes "bearer_token req = Some t" and "t \<in> set (issued_tokens pf ops (server_init db m))"
  shows "handle pf env req (server_run pf (ops @ ops') (server_init db m)) =
    dispatch pf env req empty_response (server_run pf (ops @ ops') (server_init db m))"
proof -
  have "IsTokenValid (server_storage (server_run pf ops (server_init db m))) t"
    using server_tokens.run_valid [of pf ops "server_init db m" t] assms(2)
    by (simp add: server_run_def issued_tokens_eq)
  then have "IsTokenValid (server_storage (server_run pf (ops @ ops') (server_init db m))) t"
    using server_tokens.valid_forever by (simp add: server_run_def)
  with assms(1) show ?thesis by (simp add: handle_def AuthMiddleware_pass authorized_def)
qed

theorem issued_token_passes_witness:
  "handle demo (fst ann_orders) (snd ann_orders) (server_run demo ([ann_joins, ann_logs_in] @ [ann_drives]) demo_start) =
     dispatch demo (fst ann_orders) (snd ann_orders) empty_response
       (server_run demo ([ann_joins, ann_logs_in] @ [ann_drives]) demo_start)"
  unfolding demo_start_def
proof (rule issued_token_passes)
  show "bearer_token (snd ann_orders) = Some ann_token" by code_simp
  show "ann_token \<in> set (issued_tokens demo [ann_joins, ann_logs_in] (server_init empty_database []))"
    by code_simp
qed

end
